(* ===== verification/Prelude.thy ===== *)
theory Prelude
  imports Main "HOL-Library.Word" "HOL-Library.Monad_Syntax" "HOL-Library.Multiset"
begin

text \<open>
  Shared vocabulary of the development.

  \<^item> machine integers: \<open>u64\<close> and \<open>u8\<close> are words of their width; \<open>usize\<close> values are used
    by the kernel as array indices and lengths only and are natural numbers;
  \<^item> a panic of the kernel is fail-stop (the panic handler halts the CPU), so an operation that
    may panic returns an \<open>option\<close>, with \<open>None\<close> for the panic, and is written with the \<open>do\<close>
    notation of the option monad; the kernel is built with the dev profile, so an arithmetic
    overflow of a plain \<open>+\<close> is a panic as well (\<open>chk_inc\<close>, \<open>chk_add\<close>, \<open>chk_mul\<close>);
  \<^item> \<open>returns m P\<close> is total correctness of such an operation: it does not panic and its result
    satisfies \<open>P\<close>;
  \<^item> the loops over the kernel's fixed-size arrays with a length (membership, compaction, removal
    by swapping in the last element), each with the list-level function it implements.
\<close>

type_synonym u64 = "64 word"
type_synonym u8 = "8 word"
type_synonym u16 = "16 word"
type_synonym u32 = "32 word"
type_synonym usize = nat

named_theorems queue_simps \<open>array queues seen through their live prefix\<close>
named_theorems wp_simps \<open>total correctness of operations that may panic\<close>

section \<open>Operations that may panic\<close>

definition returns :: "'a option \<Rightarrow> ('a \<Rightarrow> bool) \<Rightarrow> bool" where
  "returns m P \<longleftrightarrow> (case m of None \<Rightarrow> False | Some x \<Rightarrow> P x)"

definition chk_add :: "u64 \<Rightarrow> u64 \<Rightarrow> u64 option" where
  "chk_add a b = (if unat a + unat b < 2 ^ 64 then Some (a + b) else None)"

definition chk_mul :: "u64 \<Rightarrow> u64 \<Rightarrow> u64 option" where
  "chk_mul a b = (if unat a * unat b < 2 ^ 64 then Some (a * b) else None)"

definition chk_inc :: "u64 \<Rightarrow> u64 option" where
  "chk_inc a = chk_add a 1"

definition nth_chk :: "'a list \<Rightarrow> nat \<Rightarrow> 'a option" where
  "nth_chk xs i = (if i < length xs then Some (xs ! i) else None)"

text \<open>\<open>post strict m P\<close>: the result of \<open>m\<close> satisfies \<open>P\<close>, and when \<open>strict\<close> is set \<open>m\<close> does not
  panic.  A lemma stated for any \<open>strict\<close> serves both for safety (every state reached without a
  fail-stop is good) and for the absence of panics.\<close>

definition post :: "bool \<Rightarrow> 'a option \<Rightarrow> ('a \<Rightarrow> bool) \<Rightarrow> bool" where
  "post strict m P \<longleftrightarrow> (case m of None \<Rightarrow> \<not> strict | Some x \<Rightarrow> P x)"

fun foldM :: "('x \<Rightarrow> 's \<Rightarrow> 's option) \<Rightarrow> 'x list \<Rightarrow> 's \<Rightarrow> 's option" where
  "foldM f [] s = Some s"
| "foldM f (x # xs) s = do { s' \<leftarrow> f x s; foldM f xs s' }"

section \<open>Loops over an array and its length\<close>

definition array_contains :: "'a list \<Rightarrow> nat \<Rightarrow> 'a \<Rightarrow> bool" where
  "array_contains q n x = list_ex (\<lambda>pos. q ! pos = x) [0..<n]"

function compact_loop :: "('a \<Rightarrow> bool) \<Rightarrow> nat \<Rightarrow> nat \<Rightarrow> nat \<Rightarrow> 'a list \<Rightarrow> 'a list \<times> nat" where
  "compact_loop keep n read_pos write_pos q =
     (if read_pos < n then
        (let v = q ! read_pos in
         if keep v then compact_loop keep n (Suc read_pos) (Suc write_pos) (q[write_pos := v])
         else compact_loop keep n (Suc read_pos) write_pos q)
      else (q, write_pos))"
  by pat_completeness auto
termination
  by (relation "measure (\<lambda>(keep, n, r, w, q). n - r)") auto

declare compact_loop.simps [simp del]

definition swap_remove :: "'a list \<Rightarrow> nat \<Rightarrow> nat \<Rightarrow> 'a list" where
  "swap_remove q n pos = q[pos := q ! (n - 1)]"

function remove_all_loop :: "'a \<Rightarrow> nat \<Rightarrow> nat \<Rightarrow> 'a list \<Rightarrow> 'a list \<times> nat" where
  "remove_all_loop x pos n q =
     (if pos < n then
        (if q ! pos = x then remove_all_loop x pos (n - 1) (swap_remove q n pos)
         else remove_all_loop x (Suc pos) n q)
      else (q, n))"
  by pat_completeness auto
termination
  by (relation "measure (\<lambda>(x, pos, n, q). n - pos)") auto

declare remove_all_loop.simps [simp del]

fun find_pos :: "('a \<Rightarrow> bool) \<Rightarrow> 'a list \<Rightarrow> nat option" where
  "find_pos P [] = None"
| "find_pos P (x # xs) = (if P x then Some 0 else map_option Suc (find_pos P xs))"

section \<open>Total correctness\<close>

lemma returns_Some [simp, wp_simps]: "returns (Some x) P = P x"
  by (simp add: returns_def)

lemma returns_None [simp, wp_simps]: "\<not> returns None P"
  by (simp add: returns_def)

lemma returns_bind [wp_simps]: "returns (Option.bind m f) P = returns m (\<lambda>x. returns (f x) P)"
  by (cases m) simp_all

lemma returns_if [wp_simps]: "returns (if b then m else m') P = (if b then returns m P else returns m' P)"
  by simp

lemma returns_mono: "returns m P \<Longrightarrow> (\<And>x. P x \<Longrightarrow> Q x) \<Longrightarrow> returns m Q"
  by (cases m) auto

lemma returns_conj: "returns m P \<Longrightarrow> returns m Q \<Longrightarrow> returns m (\<lambda>x. P x \<and> Q x)"
  by (cases m) auto

lemma returnsE: "returns m P \<Longrightarrow> (\<And>x. m = Some x \<Longrightarrow> P x \<Longrightarrow> R) \<Longrightarrow> R"
  by (cases m) auto

lemma returnsI: "m = Some x \<Longrightarrow> P x \<Longrightarrow> returns m P"
  by simp

lemma returns_iff: "returns m P \<longleftrightarrow> (\<exists>x. m = Some x \<and> P x)"
  by (cases m) auto

lemma post_Some [simp, wp_simps]: "post b (Some x) P = P x"
  by (simp add: post_def)

lemma post_None [simp, wp_simps]: "post b None P = (\<not> b)"
  by (simp add: post_def)

lemma post_bind [wp_simps]: "post b (Option.bind m f) P = post b m (\<lambda>x. post b (f x) P)"
  by (cases m) simp_all

lemma post_if [wp_simps]: "post b (if c then m else m') P = (if c then post b m P else post b m' P)"
  by simp

lemma post_case_prod [wp_simps]: "post b (case z of (x, y) \<Rightarrow> f x y) P = (case z of (x, y) \<Rightarrow> post b (f x y) P)"
  by (cases z) simp

lemma post_mono: "post b m P \<Longrightarrow> (\<And>x. P x \<Longrightarrow> Q x) \<Longrightarrow> post b m Q"
  by (cases m) auto

lemma post_conj: "post b m P \<Longrightarrow> post b m Q \<Longrightarrow> post b m (\<lambda>x. P x \<and> Q x)"
  by (cases m) auto

lemma post_strictD: "post True m P \<Longrightarrow> \<exists>x. m = Some x \<and> P x"
  by (cases m) auto

lemma post_safeI: "(\<And>x. m = Some x \<Longrightarrow> P x) \<Longrightarrow> post False m P"
  by (cases m) auto

lemma post_safeD: "post b m P \<Longrightarrow> m = Some x \<Longrightarrow> P x"
  by simp

lemma post_bindI: "post b m Q \<Longrightarrow> (\<And>x. Q x \<Longrightarrow> post b (f x) P) \<Longrightarrow> post b (Option.bind m f) P"
  by (cases m) auto

lemma post_foldM:
  assumes "I s" "\<And>x s. x \<in> set xs \<Longrightarrow> I s \<Longrightarrow> post b (f x s) I"
  shows "post b (foldM f xs s) I"
  using assms
proof (induction xs arbitrary: s)
  case (Cons x xs)
  have "post b (f x s) I" using Cons.prems by simp
  then show ?case by (auto intro!: post_bindI Cons.IH Cons.prems(2))
qed simp

lemma chk_inc_Some: "unat a + 1 < 2 ^ 64 \<Longrightarrow> chk_inc a = Some (a + 1)"
  by (simp add: chk_inc_def chk_add_def)

lemma unat_inc: "unat (a :: u64) + 1 < 2 ^ 64 \<Longrightarrow> unat (a + 1) = unat a + 1"
  by (simp add: unat_word_ariths)

lemma returns_chk_inc [wp_simps]:
  "returns (chk_inc a) P \<longleftrightarrow> unat a + 1 < 2 ^ 64 \<and> P (a + 1)"
  by (auto simp: chk_inc_def chk_add_def)

lemma post_chk_inc [wp_simps]:
  "post b (chk_inc a) P \<longleftrightarrow> (if unat a + 1 < 2 ^ 64 then P (a + 1) else \<not> b)"
  by (simp add: chk_inc_def chk_add_def)

lemma nth_chk_Some [simp]: "i < length xs \<Longrightarrow> nth_chk xs i = Some (xs ! i)"
  by (simp add: nth_chk_def)

lemma returns_nth_chk [wp_simps]:
  "returns (nth_chk xs i) P \<longleftrightarrow> i < length xs \<and> P (xs ! i)"
  by (simp add: nth_chk_def)

section \<open>The live prefix of an array queue\<close>

lemma array_contains_iff [queue_simps]:
  "n \<le> length q \<Longrightarrow> array_contains q n x \<longleftrightarrow> x \<in> set (take n q)"
  by (auto simp: array_contains_def list_ex_iff in_set_conv_nth)

lemma take_push [queue_simps]: "n < length q \<Longrightarrow> take (Suc n) (q[n := x]) = take n q @ [x]"
  by (simp add: take_Suc_conv_app_nth)

lemma compact_loop_spec:
  assumes "w \<le> r" "r \<le> n" "n \<le> length q"
  shows "length (fst (compact_loop keep n r w q)) = length q
       \<and> snd (compact_loop keep n r w q) \<le> n
       \<and> take (snd (compact_loop keep n r w q)) (fst (compact_loop keep n r w q))
           = take w q @ filter keep (drop r (take n q))"
  using assms
proof (induction keep n r w q rule: compact_loop.induct)
  case (1 keep n r w q)
  show ?case
  proof (cases "r < n")
    case False
    with "1.prems" show ?thesis by (simp add: compact_loop.simps)
  next
    case True
    have d: "drop r (take n q) = q ! r # drop (Suc r) (take n q)"
      using True "1.prems" by (simp add: Cons_nth_drop_Suc [symmetric])
    show ?thesis
    proof (cases "keep (q ! r)")
      case False
      then show ?thesis using "1.IH"(2) [of "q ! r"] "1.prems" True d
        by (simp add: compact_loop.simps [of keep n r w q])
    next
      case k: True
      have t: "take (Suc w) (q[w := q ! r]) = take w q @ [q ! r]"
        using True "1.prems" by (intro take_push) simp
      have u: "drop (Suc r) (take n (q[w := q ! r])) = drop (Suc r) (take n q)"
        using "1.prems" by (simp add: take_update_swap)
      show ?thesis using "1.IH"(1) [of "q ! r"] "1.prems" True d k t u
        by (simp add: compact_loop.simps [of keep n r w q])
    qed
  qed
qed

lemma compact_loop_filter [queue_simps]:
  assumes "n \<le> length q" and "compact_loop keep n 0 0 q = (q', n')"
  shows "take n' q' = filter keep (take n q)" and "length q' = length q" and "n' \<le> n"
  using compact_loop_spec [of 0 0 n q keep] assms by simp_all

lemma length_swap_remove [simp]: "length (swap_remove q n pos) = length q"
  by (simp add: swap_remove_def)

lemma mset_swap_remove:
  assumes "pos < n" "n \<le> length q"
  shows "mset (take (n - 1) (swap_remove q n pos)) = mset (take n q) - {#q ! pos#}"
proof -
  obtain m where n: "n = Suc m" using assms by (cases n) auto
  have tn: "take n q = take m q @ [q ! m]"
    using assms n by (simp add: take_Suc_conv_app_nth)
  show ?thesis
  proof (cases "pos = m")
    case True
    then show ?thesis by (simp add: swap_remove_def n tn [unfolded n] take_update_swap)
  next
    case False
    then have lt: "pos < length (take m q)" using assms n by simp
    have "take m (swap_remove q n pos) = (take m q)[pos := q ! m]"
      using n by (simp add: swap_remove_def take_update_swap)
    moreover have "mset ((take m q)[pos := q ! m]) = add_mset (q ! m) (mset (take m q) - {#take m q ! pos#})"
      by (rule mset_update [OF lt])
    moreover have "take m q ! pos = q ! pos" using lt by simp
    moreover have "q ! pos \<in># mset (take m q)"
      using lt by (metis calculation(3) in_multiset_in_set nth_mem)
    ultimately show ?thesis using tn n by (simp add: add_mset_remove_trivial_If)
  qed
qed

lemma distinct_swap_remove [queue_simps]:
  assumes "pos < n" "n \<le> length q" "distinct (take n q)"
  shows "set (take (n - 1) (swap_remove q n pos)) = set (take n q) - {q ! pos}"
    and "distinct (take (n - 1) (swap_remove q n pos))"
proof -
  let ?t = "take (n - 1) (swap_remove q n pos)"
  have m: "mset ?t = mset (take n q) - {#q ! pos#}"
    using assms by (intro mset_swap_remove)
  also have "\<dots> = mset (remove1 (q ! pos) (take n q))"
    by simp
  finally have e: "mset ?t = mset (remove1 (q ! pos) (take n q))" .
  show "set ?t = set (take n q) - {q ! pos}"
    using mset_eq_setD [OF e] assms(3) by simp
  show "distinct ?t"
    using mset_eq_imp_distinct_iff [OF e] assms(3) by simp
qed

lemma remove_all_loop_spec:
  assumes "pos \<le> n" "n \<le> length q" "x \<notin> set (take pos q)"
  shows "length (fst (remove_all_loop x pos n q)) = length q
       \<and> snd (remove_all_loop x pos n q) \<le> n
       \<and> mset (take (snd (remove_all_loop x pos n q)) (fst (remove_all_loop x pos n q)))
           = filter_mset (\<lambda>y. y \<noteq> x) (mset (take n q))"
  using assms
proof (induction x pos n q rule: remove_all_loop.induct)
  case (1 x pos n q)
  show ?case
  proof (cases "pos < n")
    case False
    with "1.prems" have "filter_mset (\<lambda>y. y \<noteq> x) (mset (take n q)) = mset (take n q)"
      by (auto simp: filter_mset_eq_conv)
    with False show ?thesis by (simp add: remove_all_loop.simps)
  next
    case True
    show ?thesis
    proof (cases "q ! pos = x")
      case False
      have "x \<notin> set (take (Suc pos) q)"
        using False True "1.prems" by (simp add: take_Suc_conv_app_nth)
      then show ?thesis using "1.IH"(2) True False "1.prems"
        by (simp add: remove_all_loop.simps [of x pos n q])
    next
      case eq: True
      have "x \<notin> set (take pos (swap_remove q n pos))"
        using "1.prems" by (simp add: swap_remove_def)
      moreover have "filter_mset (\<lambda>y. y \<noteq> x) (mset (take (n - 1) (swap_remove q n pos)))
          = filter_mset (\<lambda>y. y \<noteq> x) (mset (take n q))"
        using mset_swap_remove [OF True "1.prems"(2)] eq by simp
      moreover have "pos \<le> n - 1" "n - 1 \<le> length q" "n - 1 \<le> n"
        using True "1.prems" by simp_all
      ultimately show ?thesis using "1.IH"(1) [OF True eq] True eq
        by (auto simp: remove_all_loop.simps [of x pos n q])
    qed
  qed
qed

lemma find_pos_None: "find_pos P xs = None \<longleftrightarrow> (\<forall>x \<in> set xs. \<not> P x)"
  by (induction xs) auto

lemma find_pos_Some:
  "find_pos P xs = Some i \<Longrightarrow> i < length xs \<and> P (xs ! i) \<and> (\<forall>j < i. \<not> P (xs ! j))"
proof (induction xs arbitrary: i)
  case (Cons x xs)
  show ?case
  proof (cases "P x")
    case False
    with Cons.prems obtain k where k: "find_pos P xs = Some k" "i = Suc k" by auto
    with Cons.IH [OF k(1)] False show ?thesis by (auto simp: nth_Cons split: nat.split)
  qed (use Cons.prems in auto)
qed simp

end
