(* ===== verification/Addr.thy ===== *)
theory Addr
  imports Prelude
begin

unbundle bit_operations_syntax

text \<open>
  Address types and the virtual address layout: \<open>mem/addr.rs\<close> (addresses, frames, pages),
  \<open>mem/layout.rs\<close> (the layout constants of the specification layer) and
  \<open>arch/virt_layout.rs\<close> (PML4 slots, canonical form, the high alias of the kernel).
  The multiplications and the \<open>debug_assert!\<close> of the source panic in the dev profile, so the
  functions that contain them return an option.
\<close>

section \<open>mem/addr.rs\<close>

datatype PhysAddr = PhysAddr (pa_u64: u64)
datatype VirtAddr = VirtAddr (va_u64: u64)
datatype PhysFrame = PhysFrame (frame_number: u64)
datatype VirtPage = VirtPage (page_number: u64)

definition PAGE_SIZE :: u64 where
  "PAGE_SIZE = 4096"

definition phys_align_down :: "PhysAddr \<Rightarrow> PhysAddr" where
  "phys_align_down a = PhysAddr (pa_u64 a AND NOT (PAGE_SIZE - 1))"

definition phys_frame :: "PhysAddr \<Rightarrow> PhysFrame" where
  "phys_frame a = PhysFrame (pa_u64 a div PAGE_SIZE)"

definition virt_align_down :: "VirtAddr \<Rightarrow> VirtAddr" where
  "virt_align_down a = VirtAddr (va_u64 a AND NOT (PAGE_SIZE - 1))"

definition virt_page :: "VirtAddr \<Rightarrow> VirtPage" where
  "virt_page a = VirtPage (va_u64 a div PAGE_SIZE)"

definition frame_start_address :: "PhysFrame \<Rightarrow> PhysAddr option" where
  "frame_start_address f = map_option PhysAddr (chk_mul (frame_number f) PAGE_SIZE)"

definition page_start_address :: "VirtPage \<Rightarrow> VirtAddr option" where
  "page_start_address p = map_option VirtAddr (chk_mul (page_number p) PAGE_SIZE)"

instantiation PhysFrame :: linorder
begin

definition less_eq_PhysFrame :: "PhysFrame \<Rightarrow> PhysFrame \<Rightarrow> bool" where
  "less_eq_PhysFrame a b \<longleftrightarrow> frame_number a \<le> frame_number b"

definition less_PhysFrame :: "PhysFrame \<Rightarrow> PhysFrame \<Rightarrow> bool" where
  "less_PhysFrame a b \<longleftrightarrow> frame_number a < frame_number b"

instance
  by standard (auto simp: less_eq_PhysFrame_def less_PhysFrame_def PhysFrame.expand)

end

section \<open>mem/layout.rs\<close>

definition layout_PML4_SLOT_SIZE :: u64 where
  "layout_PML4_SLOT_SIZE = push_bit 39 1"

definition layout_USER_PML4_INDEX :: u64 where
  "layout_USER_PML4_INDEX = 32"

definition USER_SPACE_START :: u64 where
  "USER_SPACE_START = layout_USER_PML4_INDEX * layout_PML4_SLOT_SIZE"

definition USER_SPACE_END :: u64 where
  "USER_SPACE_END = USER_SPACE_START + (layout_PML4_SLOT_SIZE - 1)"

definition KERNEL_SPACE_START :: u64 where
  "KERNEL_SPACE_START = 0xffff800000000000"

definition PHYSMAP_START :: u64 where
  "PHYSMAP_START = 0xffff800000000000"

definition PHYSMAP_END :: u64 where
  "PHYSMAP_END = 0xffff87ffffffffff"

section \<open>arch/virt\_layout.rs\<close>

definition PML4_SLOT_SIZE :: u64 where
  "PML4_SLOT_SIZE = push_bit 39 1"

definition USER_PML4_INDEX :: usize where
  "USER_PML4_INDEX = 32"

definition canonicalize_virt :: "u64 \<Rightarrow> u64" where
  "canonicalize_virt addr =
     (let sign_bit = push_bit 47 (1 :: u64) in
      if addr AND sign_bit \<noteq> 0 then addr OR 0xffff000000000000
      else addr AND 0x0000ffffffffffff)"

definition pml4_index_base_addr :: "usize \<Rightarrow> u64" where
  "pml4_index_base_addr index = canonicalize_virt (push_bit 39 (of_nat index))"

definition USER_SPACE_BASE :: u64 where
  "USER_SPACE_BASE = pml4_index_base_addr USER_PML4_INDEX"

definition USER_SPACE_SIZE :: u64 where
  "USER_SPACE_SIZE = PML4_SLOT_SIZE"

definition KERNEL_ALIAS_DST_PML4_BASE_INDEX :: usize where
  "KERNEL_ALIAS_DST_PML4_BASE_INDEX = 508"

definition KERNEL_ALIAS_MAX_COPY_COUNT :: usize where
  "KERNEL_ALIAS_MAX_COPY_COUNT = 512 - KERNEL_ALIAS_DST_PML4_BASE_INDEX"

definition pml4_index :: "u64 \<Rightarrow> usize" where
  "pml4_index addr = unat (drop_bit 39 addr AND 0x1ff)"

definition kernel_high_alias_of_low :: "u64 \<Rightarrow> u64 option" where
  "kernel_high_alias_of_low low_addr =
     (let low_idx = pml4_index low_addr;
          offset_in_slot = low_addr AND (PML4_SLOT_SIZE - 1)
      in if \<not> low_idx < KERNEL_ALIAS_MAX_COPY_COUNT then None
         else chk_add (pml4_index_base_addr (KERNEL_ALIAS_DST_PML4_BASE_INDEX + low_idx)) offset_in_slot)"

fun recommend_loop :: "u64 list \<Rightarrow> nat \<Rightarrow> bool \<Rightarrow> nat \<times> bool" where
  "recommend_loop [] max_idx any = (max_idx, any)"
| "recommend_loop (a # addrs) max_idx any =
     (if a = 0 then recommend_loop addrs max_idx any
      else let idx = pml4_index a in
           recommend_loop addrs (if idx > max_idx then idx else max_idx) True)"

definition recommend_alias_copy_count_from_addrs :: "u64 list \<Rightarrow> usize" where
  "recommend_alias_copy_count_from_addrs addrs =
     (let (max_idx, any) = recommend_loop addrs 0 False;
          res = (if any then max_idx + 1 else 1);
          res = (if res = 0 then 1 else res)
      in if res > KERNEL_ALIAS_MAX_COPY_COUNT then KERNEL_ALIAS_MAX_COPY_COUNT else res)"

definition recommend_alias_copy_count_from_guards :: "u64 \<Rightarrow> u64 \<Rightarrow> usize" where
  "recommend_alias_copy_count_from_guards code_low stack_low =
     recommend_alias_copy_count_from_addrs [code_low, stack_low]"

definition recommend_alias_copy_count_from_context :: "u64 \<Rightarrow> u64 \<Rightarrow> u64 \<Rightarrow> usize" where
  "recommend_alias_copy_count_from_context code_low rsp_low rbp_low =
     recommend_alias_copy_count_from_addrs [code_low, rsp_low, rbp_low]"

section \<open>Pages and frames\<close>

lemma unat_PAGE_SIZE [simp]: "unat PAGE_SIZE = 4096"
  by (simp add: PAGE_SIZE_def)

lemma chk_mul_PAGE_SIZE_Some:
  "chk_mul n PAGE_SIZE = Some a \<Longrightarrow> unat a = unat n * 4096"
  by (auto simp: chk_mul_def unat_mult_lem [THEN iffD1] split: if_splits)

lemma unat_align_down: "unat ((a :: u64) AND NOT (PAGE_SIZE - 1)) = unat a div 4096 * 4096"
proof -
  have m: "PAGE_SIZE - 1 = mask 12" by (simp add: PAGE_SIZE_def mask_eq_exp_minus_1)
  have "a AND NOT (mask 12) = push_bit 12 (drop_bit 12 a)"
    by (rule bit_eqI) (auto simp: bit_simps)
  then have "unat (a AND NOT (mask 12)) = take_bit 64 (unat a div 4096 * 4096)"
    by (simp only: unsigned_push_bit_eq unsigned_drop_bit_eq)
       (simp add: push_bit_eq_mult drop_bit_eq_div take_bit_nat_eq_self [of "unat a"] unsigned_less [of a, simplified])
  moreover have "unat a div 4096 * 4096 < 2 ^ 64"
    using unsigned_less [of a, where ?'a = nat] by (simp add: le_less_trans [OF div_times_less_eq_dividend])
  ultimately show ?thesis by (simp add: m take_bit_eq_mod)
qed

section \<open>PML4 slots\<close>

lemma pml4_index_alt: "pml4_index a = unat a div 2 ^ 39 mod 512"
proof -
  have "drop_bit 39 a AND 0x1ff = take_bit 9 (drop_bit 39 a)"
    by (simp add: take_bit_eq_mask mask_eq_exp_minus_1)
  then show ?thesis
    by (simp add: pml4_index_def take_bit_eq_mod drop_bit_eq_div unat_div unat_mod)
qed

lemma pml4_index_less [simp]: "pml4_index a < 512"
  by (simp add: pml4_index_alt)

lemma bit_47_iff: "unat (x :: u64) < 2 ^ 48 \<Longrightarrow> bit x 47 \<longleftrightarrow> 2 ^ 47 \<le> unat x"
proof -
  assume "unat x < 2 ^ 48"
  then have "unat x div 2 ^ 47 < 2" by (simp add: less_mult_imp_div_less)
  then have "odd (unat x div 2 ^ 47) \<longleftrightarrow> unat x div 2 ^ 47 = 1" by (auto simp: less_2_cases_iff)
  also have "\<dots> \<longleftrightarrow> 2 ^ 47 \<le> unat x"
    using \<open>unat x div 2 ^ 47 < 2\<close> by (auto simp: div_eq_0_iff less_2_cases_iff)
  finally have "bit (unat x) 47 \<longleftrightarrow> 2 ^ 47 \<le> unat x" by (simp only: bit_iff_odd)
  then show ?thesis by (simp only: bit_unsigned_iff) (simp add: possible_bit_word)
qed

lemma unat_canonicalize_virt:
  assumes "unat x < 2 ^ 48"
  shows "unat (canonicalize_virt x) = (if unat x < 2 ^ 47 then unat x else unat x + 0xffff000000000000)"
proof -
  have x: "take_bit 48 x = x"
    using assms by (simp only: word_unat_eq_iff unsigned_take_bit_eq) (simp add: take_bit_nat_eq_self)
  have lo: "x AND 0x0000ffffffffffff = x"
    using x by (simp add: take_bit_eq_mask mask_eq_exp_minus_1)
  have c: "(0xffff000000000000 :: u64) = NOT (mask 48)" by (simp add: mask_eq_exp_minus_1)
  have "take_bit 48 x AND NOT (mask 48) = 0"
    by (rule bit_eqI) (auto simp: bit_simps)
  then have "x AND 0xffff000000000000 = 0" using x c by simp
  then have hi: "x OR 0xffff000000000000 = x + 0xffff000000000000"
    using word_plus_and_or [of x "0xffff000000000000"] by simp
  have "unat (x + 0xffff000000000000) = unat x + 0xffff000000000000"
    using assms by (subst unat_add_lem [THEN iffD1]) simp_all
  then show ?thesis
    using bit_47_iff [OF assms] lo hi
    by (simp add: canonicalize_virt_def Let_def bit_iff_and_push_bit_not_eq_0)
qed

lemma unat_pml4_index_base_addr:
  assumes "i < 512"
  shows "unat (pml4_index_base_addr i) = (if i < 256 then i * 2 ^ 39 else 0xffff000000000000 + i * 2 ^ 39)"
proof -
  have "unat (push_bit 39 (of_nat i :: u64)) = i * 2 ^ 39"
    using assms by (simp add: push_bit_eq_mult unat_mult_lem [THEN iffD1] unat_of_nat)
  then show ?thesis using assms
    by (simp add: pml4_index_base_addr_def unat_canonicalize_virt)
qed

lemma pml4_index_base_roundtrip: "i < 512 \<Longrightarrow> pml4_index (pml4_index_base_addr i) = i"
  using mod_mult_self1 [of i 65535 512]
  by (simp add: pml4_index_alt unat_pml4_index_base_addr add.commute)

lemma unat_PML4_SLOT_SIZE [simp]: "unat PML4_SLOT_SIZE = 2 ^ 39"
  by (simp add: PML4_SLOT_SIZE_def)

lemma unat_slot_offset: "unat (a AND (PML4_SLOT_SIZE - 1)) = unat a mod 2 ^ 39"
proof -
  have "a AND (PML4_SLOT_SIZE - 1) = take_bit 39 a"
    by (simp add: PML4_SLOT_SIZE_def take_bit_eq_mask mask_eq_exp_minus_1)
  then show ?thesis by (simp only: unsigned_take_bit_eq) (simp add: take_bit_eq_mod)
qed

lemma unat_USER_SPACE_BASE [simp]: "unat USER_SPACE_BASE = 32 * 2 ^ 39"
  by (simp add: USER_SPACE_BASE_def USER_PML4_INDEX_def unat_pml4_index_base_addr)

lemma unat_USER_SPACE_SIZE [simp]: "unat USER_SPACE_SIZE = 2 ^ 39"
  by (simp add: USER_SPACE_SIZE_def)

lemma alias_consts [simp]:
  "KERNEL_ALIAS_DST_PML4_BASE_INDEX = 508" "KERNEL_ALIAS_MAX_COPY_COUNT = 4"
  by (simp_all add: KERNEL_ALIAS_DST_PML4_BASE_INDEX_def KERNEL_ALIAS_MAX_COPY_COUNT_def)

lemma kernel_high_alias_of_low_Some:
  assumes "pml4_index low < 4"
  shows "\<exists>h. kernel_high_alias_of_low low = Some h
           \<and> unat h = 0xffff000000000000 + (508 + pml4_index low) * 2 ^ 39 + unat low mod 2 ^ 39"
proof -
  let ?b = "pml4_index_base_addr (508 + pml4_index low)" and ?o = "low AND (PML4_SLOT_SIZE - 1)"
  have b: "unat ?b = 0xffff000000000000 + (508 + pml4_index low) * 2 ^ 39"
    using assms by (simp add: unat_pml4_index_base_addr)
  have o: "unat ?o = unat low mod 2 ^ 39" by (rule unat_slot_offset)
  have lt: "unat ?b + unat ?o < 2 ^ 64"
  proof -
    have "unat low mod 2 ^ 39 < 2 ^ 39" by simp
    moreover have "(508 + pml4_index low) * 2 ^ 39 \<le> 511 * 2 ^ (39 :: nat)" using assms by simp
    ultimately show ?thesis unfolding b o by simp
  qed
  then have "unat (?b + ?o) = unat ?b + unat ?o" by (simp add: unat_add_lem [THEN iffD1])
  then show ?thesis using lt assms b o
    by (simp add: kernel_high_alias_of_low_def Let_def chk_add_def)
qed

lemma kernel_high_alias_of_low_index:
  assumes "kernel_high_alias_of_low low = Some h"
  shows "pml4_index low < 4" and "pml4_index h = 508 + pml4_index low"
    and "unat h mod 2 ^ 39 = unat low mod 2 ^ 39" and "KERNEL_SPACE_START \<le> h"
proof -
  show i: "pml4_index low < 4"
    using assms by (auto simp: kernel_high_alias_of_low_def Let_def split: if_splits)
  obtain q where q: "unat low mod 2 ^ 39 = q" "q < 2 ^ 39" by simp
  have h: "unat h = 0xffff000000000000 + (508 + pml4_index low) * 2 ^ 39 + q"
    using kernel_high_alias_of_low_Some [OF i] assms q by simp
  have hd: "unat h = q + (33553920 + 508 + pml4_index low) * 2 ^ 39" using h by simp
  have "unat h mod 2 ^ 39 = q" unfolding hd by (subst mod_mult_self1) (use q(2) in simp)
  then show "unat h mod 2 ^ 39 = unat low mod 2 ^ 39" using q(1) by simp
  have "unat h div 2 ^ 39 = 33553920 + 508 + pml4_index low"
    unfolding hd using q(2) by (subst div_mult_self1) simp_all
  then have "pml4_index h = (508 + pml4_index low + 65535 * 512) mod 512"
    by (simp add: pml4_index_alt)
  also have "\<dots> = 508 + pml4_index low" using i by (subst mod_mult_self1) simp
  finally show "pml4_index h = 508 + pml4_index low" .
  show "KERNEL_SPACE_START \<le> h"
    using h by (simp add: KERNEL_SPACE_START_def word_le_nat_alt)
qed

end
