(* ===== verification/Address_Space.thy ===== *)
theory Address_Space
  imports Addr
begin

text \<open>
  The logical memory layer: page flags and memory actions (\<open>mem/paging.rs\<close>) and the logical
  address space with its bounded table of mappings (\<open>mem/address_space.rs\<close>).  The table is an
  array of optional mappings; a \<open>Result\<close> is a sum with the error on the left, and an operation
  that fails leaves the table as it was.  The locale \<open>page_map\<close> is the contract the kernel relies
  on (a partial map from pages with bounded capacity), interpreted on the table.
\<close>

section \<open>mem/paging.rs\<close>

type_synonym PageFlags = u64

definition PRESENT :: PageFlags where
  "PRESENT = push_bit 0 1"

definition WRITABLE :: PageFlags where
  "WRITABLE = push_bit 1 1"

definition USER :: PageFlags where
  "USER = push_bit 2 1"

definition NO_EXEC :: PageFlags where
  "NO_EXEC = push_bit 63 1"

definition flags_contain :: "PageFlags \<Rightarrow> PageFlags \<Rightarrow> bool" where
  "flags_contain flags other \<longleftrightarrow> and flags other = other"

datatype MemAction =
    Map (act_page: VirtPage) (act_frame: PhysFrame) (act_flags: PageFlags)
  | Unmap (act_page: VirtPage)

section \<open>mem/address\_space.rs\<close>

datatype AddressSpaceKind = Kernel | User

record Mapping =
  m_page :: VirtPage
  m_frame :: PhysFrame
  m_flags :: PageFlags

definition MAX_MAPPINGS :: usize where
  "MAX_MAPPINGS = 64"

record AddressSpace =
  kind :: AddressSpaceKind
  root_page_frame :: "PhysFrame option"
  mappings :: "Mapping option list"

datatype AddressSpaceError = AlreadyMapped | NotMapped | CapacityExceeded

definition new_kernel :: AddressSpace where
  "new_kernel = \<lparr>kind = Kernel, root_page_frame = None, mappings = replicate MAX_MAPPINGS None\<rparr>"

definition new_user :: AddressSpace where
  "new_user = \<lparr>kind = User, root_page_frame = None, mappings = replicate MAX_MAPPINGS None\<rparr>"

definition entry_has_page :: "VirtPage \<Rightarrow> Mapping option \<Rightarrow> bool" where
  "entry_has_page page entry = (case entry of None \<Rightarrow> False | Some m \<Rightarrow> m_page m = page)"

definition entry_is_user :: "Mapping option \<Rightarrow> bool" where
  "entry_is_user entry = (case entry of None \<Rightarrow> False | Some m \<Rightarrow> flags_contain (m_flags m) USER)"

fun as_apply :: "AddressSpace \<Rightarrow> MemAction \<Rightarrow> AddressSpaceError + AddressSpace" where
  "as_apply a (Map page frame flags) =
     (if list_ex (entry_has_page page) (mappings a) then Inl AlreadyMapped
      else (case find_pos (\<lambda>entry. entry = None) (mappings a) of
              Some i \<Rightarrow> Inr (a\<lparr>mappings := (mappings a)[i :=
                          Some \<lparr>m_page = page, m_frame = frame, m_flags = flags\<rparr>]\<rparr>)
            | None \<Rightarrow> Inl CapacityExceeded))"
| "as_apply a (Unmap page) =
     (case find_pos (entry_has_page page) (mappings a) of
        Some i \<Rightarrow> Inr (a\<lparr>mappings := (mappings a)[i := None]\<rparr>)
      | None \<Rightarrow> Inl NotMapped)"

definition mapping_count :: "AddressSpace \<Rightarrow> usize" where
  "mapping_count a = length (filter (\<lambda>m. m \<noteq> None) (mappings a))"

text \<open>The mappings \<open>for_each_mapping\<close> visits, in the order it visits them.\<close>

definition each_mapping :: "AddressSpace \<Rightarrow> Mapping list" where
  "each_mapping a = map the (filter (\<lambda>m. m \<noteq> None) (mappings a))"

definition each_user_mapping_page :: "AddressSpace \<Rightarrow> VirtPage list" where
  "each_user_mapping_page a = map (\<lambda>e. m_page (the e)) (filter entry_is_user (mappings a))"

definition clear_user_mappings :: "AddressSpace \<Rightarrow> AddressSpace" where
  "clear_user_mappings a = a\<lparr>mappings := map (\<lambda>e. if entry_is_user e then None else e) (mappings a)\<rparr>"

section \<open>The table as a partial map\<close>

definition as_lookup :: "AddressSpace \<Rightarrow> VirtPage \<Rightarrow> (PhysFrame \<times> PageFlags) option" where
  "as_lookup a p = map_option (\<lambda>m. (m_frame m, m_flags m)) (find (\<lambda>m. m_page m = p) (each_mapping a))"

definition as_wf :: "AddressSpace \<Rightarrow> bool" where
  "as_wf a \<longleftrightarrow> length (mappings a) = MAX_MAPPINGS \<and> distinct (map m_page (each_mapping a))"

definition as_full :: "AddressSpace \<Rightarrow> bool" where
  "as_full a \<longleftrightarrow> mapping_count a = MAX_MAPPINGS"

definition as_insert :: "AddressSpace \<Rightarrow> VirtPage \<Rightarrow> PhysFrame \<times> PageFlags \<Rightarrow> AddressSpaceError + AddressSpace" where
  "as_insert a p v = as_apply a (Map p (fst v) (snd v))"

definition as_delete :: "AddressSpace \<Rightarrow> VirtPage \<Rightarrow> AddressSpaceError + AddressSpace" where
  "as_delete a p = as_apply a (Unmap p)"

locale page_map =
  fixes invar :: "'t \<Rightarrow> bool"
    and lookup :: "'t \<Rightarrow> 'p \<Rightarrow> 'v option"
    and full :: "'t \<Rightarrow> bool"
    and insert :: "'t \<Rightarrow> 'p \<Rightarrow> 'v \<Rightarrow> 'e + 't"
    and delete :: "'t \<Rightarrow> 'p \<Rightarrow> 'e + 't"
    and e_dup :: 'e and e_missing :: 'e and e_full :: 'e
  assumes insert_ok: "invar t \<Longrightarrow> lookup t p = None \<Longrightarrow> \<not> full t \<Longrightarrow>
      \<exists>t'. insert t p v = Inr t' \<and> invar t' \<and> lookup t' = (lookup t)(p \<mapsto> v)"
    and insert_dup: "invar t \<Longrightarrow> lookup t p \<noteq> None \<Longrightarrow> insert t p v = Inl e_dup"
    and insert_full: "invar t \<Longrightarrow> lookup t p = None \<Longrightarrow> full t \<Longrightarrow> insert t p v = Inl e_full"
    and delete_ok: "invar t \<Longrightarrow> lookup t p \<noteq> None \<Longrightarrow>
      \<exists>t'. delete t p = Inr t' \<and> invar t' \<and> lookup t' = (lookup t)(p := None) \<and> \<not> full t'"
    and delete_missing: "invar t \<Longrightarrow> lookup t p = None \<Longrightarrow> delete t p = Inl e_missing"
    and e_dup_neq_e_full: "e_dup \<noteq> e_full"
begin

lemma insert_Inr_iff:
  "invar t \<Longrightarrow> (\<exists>t'. insert t p v = Inr t') \<longleftrightarrow> lookup t p = None \<and> \<not> full t"
  using insert_ok insert_dup insert_full by (metis Inl_Inr_False)

lemma insert_then_insert:
  assumes "invar t" "insert t p v = Inr t'"
  shows "insert t' p w = Inl e_dup"
  using assms insert_ok insert_Inr_iff insert_dup by (metis fun_upd_same option.distinct(1) sum.inject(2))

lemma insert_then_delete:
  assumes "invar t" "insert t p v = Inr t'"
  shows "\<exists>t''. delete t' p = Inr t'' \<and> invar t'' \<and> lookup t'' = lookup t"
proof -
  have l: "lookup t p = None" "\<not> full t" using assms insert_Inr_iff by blast+
  with assms insert_ok obtain i: "invar t'" "lookup t' = (lookup t)(p \<mapsto> v)"
    by (metis sum.inject(2))
  then obtain t'' where "delete t' p = Inr t''" "invar t''" "lookup t'' = (lookup t')(p := None)"
    using delete_ok [of t' p] by auto
  with i l show ?thesis by (intro exI [of _ t'']) (simp add: fun_upd_idem)
qed

lemma delete_then_delete:
  assumes "invar t" "delete t p = Inr t'"
  shows "delete t' p = Inl e_missing"
  using assms delete_ok delete_missing by (metis Inl_Inr_False fun_upd_same sum.inject(2))

end

section \<open>The table implements the map\<close>

definition some_entries :: "Mapping option list \<Rightarrow> Mapping list" where
  "some_entries es = map the (filter (\<lambda>m. m \<noteq> None) es)"

lemma some_entries_simps [simp]:
  "some_entries [] = []" "some_entries (None # es) = some_entries es"
  "some_entries (Some m # es) = m # some_entries es"
  "some_entries (es @ es') = some_entries es @ some_entries es'"
  by (simp_all add: some_entries_def)

lemma each_mapping_entries: "each_mapping a = some_entries (mappings a)"
  by (simp add: each_mapping_def some_entries_def)

lemma length_some_entries: "length (some_entries es) = length (filter (\<lambda>m. m \<noteq> None) es)"
  by (simp add: some_entries_def)

lemma set_some_entries: "m \<in> set (some_entries es) \<longleftrightarrow> Some m \<in> set es"
  by (force simp: some_entries_def)

lemma split_at: "i < length xs \<Longrightarrow> xs = take i xs @ xs ! i # drop (Suc i) xs"
  by (rule id_take_nth_drop)

lemma find_None_iff_entries: "find P xs = None \<longleftrightarrow> (\<forall>x \<in> set xs. \<not> P x)"
  by (auto simp: find_None_iff)

lemma find_SomeD: "find P xs = Some x \<Longrightarrow> x \<in> set xs \<and> P x"
  by (auto simp: find_Some_iff)

lemma as_lookup_None: "as_lookup a p = None \<longleftrightarrow> \<not> list_ex (entry_has_page p) (mappings a)"
  by (auto simp: as_lookup_def find_None_iff_entries each_mapping_entries set_some_entries list_ex_iff
      entry_has_page_def split: option.splits)

lemma as_lookup_Some_iff:
  assumes "as_wf a"
  shows "as_lookup a p = Some v \<longleftrightarrow> (\<exists>m. Some m \<in> set (mappings a) \<and> m_page m = p \<and> v = (m_frame m, m_flags m))"
proof -
  have inj: "m = m'" if "m \<in> set (each_mapping a)" "m' \<in> set (each_mapping a)" "m_page m = m_page m'" for m m'
    using assms that by (auto simp: as_wf_def distinct_map inj_on_def)
  show ?thesis
  proof
    assume "as_lookup a p = Some v"
    then obtain m where "find (\<lambda>m. m_page m = p) (each_mapping a) = Some m" "v = (m_frame m, m_flags m)"
      by (auto simp: as_lookup_def)
    then show "\<exists>m. Some m \<in> set (mappings a) \<and> m_page m = p \<and> v = (m_frame m, m_flags m)"
      by (auto simp: each_mapping_entries set_some_entries dest!: find_SomeD)
  next
    assume "\<exists>m. Some m \<in> set (mappings a) \<and> m_page m = p \<and> v = (m_frame m, m_flags m)"
    then obtain m where m: "m \<in> set (each_mapping a)" "m_page m = p" "v = (m_frame m, m_flags m)"
      by (auto simp: each_mapping_entries set_some_entries)
    then obtain m' where f: "find (\<lambda>m. m_page m = p) (each_mapping a) = Some m'"
      by (cases "find (\<lambda>m. m_page m = p) (each_mapping a)") (auto simp: find_None_iff)
    then have "m' \<in> set (each_mapping a)" "m_page m' = p" by (auto dest!: find_SomeD)
    with inj m have "m' = m" by auto
    with f m show "as_lookup a p = Some v" by (simp add: as_lookup_def)
  qed
qed

lemma as_map_ok:
  assumes wf: "as_wf a" and new: "as_lookup a p = None" and room: "\<not> as_full a"
  shows "\<exists>a'. as_apply a (Map p f g) = Inr a' \<and> as_wf a' \<and> as_lookup a' = (as_lookup a)(p \<mapsto> (f, g))"
proof -
  let ?m = "\<lparr>m_page = p, m_frame = f, m_flags = g\<rparr>"
  have "None \<in> set (mappings a)"
  proof (rule ccontr)
    assume "None \<notin> set (mappings a)"
    then have "filter (\<lambda>m. m \<noteq> None) (mappings a) = mappings a"
      by (intro filter_True) metis
    with wf room show False by (simp add: as_full_def mapping_count_def as_wf_def)
  qed
  then obtain i where i: "find_pos (\<lambda>e. e = None) (mappings a) = Some i"
    by (cases "find_pos (\<lambda>e. e = None) (mappings a)") (auto simp: find_pos_None)
  note ib = find_pos_Some [OF i]
  define xs ys where xy: "xs = take i (mappings a)" "ys = drop (Suc i) (mappings a)"
  have old: "mappings a = xs @ None # ys" using split_at [of i "mappings a"] ib xy by simp
  let ?a = "a\<lparr>mappings := (mappings a)[i := Some ?m]\<rparr>"
  have upd: "(mappings a)[i := Some ?m] = xs @ Some ?m # ys"
    using ib xy by (simp add: upd_conv_take_nth_drop)
  have oldwf: "length (xs @ None # ys) = MAX_MAPPINGS" "distinct (map m_page (some_entries (xs @ None # ys)))"
    using wf unfolding as_wf_def each_mapping_entries old by simp_all
  have "p \<notin> m_page ` set (each_mapping a)"
    using new by (auto simp: as_lookup_def find_None_iff)
  then have "p \<notin> m_page ` set (some_entries (xs @ None # ys))"
    unfolding each_mapping_entries old .
  then have wf': "as_wf ?a" using oldwf by (auto simp: as_wf_def each_mapping_entries upd)
  have ents: "Some m' \<in> set (mappings ?a) \<longleftrightarrow>
      (m_page m' = p \<and> m_frame m' = f \<and> m_flags m' = g) \<or> Some m' \<in> set (mappings a)" for m'
    by (cases m') (simp add: upd, auto simp: old)
  have fresh: "m_page m' \<noteq> p" if "Some m' \<in> set (mappings a)" for m'
    using new that by (auto simp: as_lookup_None list_ex_iff entry_has_page_def split: option.splits)
  have "as_lookup ?a q = Some v \<longleftrightarrow> ((as_lookup a)(p \<mapsto> (f, g))) q = Some v" for q v
    unfolding as_lookup_Some_iff [OF wf'] ents using as_lookup_Some_iff [OF wf, of q v] fresh
    by (cases "q = p") (auto intro: exI [of _ ?m])
  then have "as_lookup ?a q = ((as_lookup a)(p \<mapsto> (f, g))) q" for q by (metis option.exhaust)
  then have "as_lookup ?a = (as_lookup a)(p \<mapsto> (f, g))" by (rule ext)
  with wf' show ?thesis using new i by (simp add: as_lookup_None)
qed

lemma as_unmap_ok:
  assumes wf: "as_wf a" and here: "as_lookup a p \<noteq> None"
  shows "\<exists>a'. as_apply a (Unmap p) = Inr a' \<and> as_wf a' \<and> as_lookup a' = (as_lookup a)(p := None) \<and> \<not> as_full a'"
proof -
  from here obtain i where i: "find_pos (entry_has_page p) (mappings a) = Some i"
    by (cases "find_pos (entry_has_page p) (mappings a)") (auto simp: find_pos_None as_lookup_None list_ex_iff)
  note ib = find_pos_Some [OF i]
  then obtain m where m: "mappings a ! i = Some m" "m_page m = p"
    by (auto simp: entry_has_page_def split: option.splits)
  define xs ys where xy: "xs = take i (mappings a)" "ys = drop (Suc i) (mappings a)"
  have old: "mappings a = xs @ Some m # ys" using split_at [of i "mappings a"] ib xy m by simp
  let ?a = "a\<lparr>mappings := (mappings a)[i := None]\<rparr>"
  have upd: "(mappings a)[i := None] = xs @ None # ys"
    using ib xy by (simp add: upd_conv_take_nth_drop)
  have oldwf: "length (xs @ Some m # ys) = MAX_MAPPINGS" "distinct (map m_page (some_entries (xs @ Some m # ys)))"
    using wf unfolding as_wf_def each_mapping_entries old by simp_all
  then have dist: "m_page m' \<noteq> p" if "Some m' \<in> set xs \<or> Some m' \<in> set ys" for m'
    using m that by (auto simp: image_iff simp flip: set_some_entries)
  have wf': "as_wf ?a" using oldwf by (auto simp: as_wf_def each_mapping_entries upd)
  have ents: "Some m' \<in> set (mappings ?a) \<longleftrightarrow> m_page m' \<noteq> p \<and> Some m' \<in> set (mappings a)" for m'
    using dist [of m'] m by (simp add: upd) (auto simp: old)
  have "as_lookup ?a q = Some v \<longleftrightarrow> ((as_lookup a)(p := None)) q = Some v" for q v
    unfolding as_lookup_Some_iff [OF wf'] ents using as_lookup_Some_iff [OF wf, of q v]
    by (cases "q = p") auto
  then have "as_lookup ?a q = ((as_lookup a)(p := None)) q" for q by (metis option.exhaust)
  then have "as_lookup ?a = (as_lookup a)(p := None)" by (rule ext)
  moreover have "\<not> as_full ?a"
  proof -
    have "length (filter (\<lambda>m. m \<noteq> None) (xs @ None # ys)) \<le> length xs + length ys"
      by (simp add: add_mono)
    with oldwf show ?thesis by (simp add: as_full_def mapping_count_def upd)
  qed
  ultimately show ?thesis using i wf' by simp
qed

lemma as_full_no_hole: "as_wf a \<Longrightarrow> as_full a \<Longrightarrow> None \<notin> set (mappings a)"
proof
  assume a: "as_wf a" "as_full a" "None \<in> set (mappings a)"
  then have "length (filter (\<lambda>m. m \<noteq> None) (mappings a)) < length (mappings a)"
    by (intro length_filter_less) auto
  with a show False by (simp add: as_full_def mapping_count_def as_wf_def)
qed

interpretation as_map: page_map as_wf as_lookup as_full as_insert as_delete
  AlreadyMapped NotMapped CapacityExceeded
proof
  fix a p and v :: "PhysFrame \<times> PageFlags"
  assume wf: "as_wf a"
  show "\<exists>t'. as_insert a p v = Inr t' \<and> as_wf t' \<and> as_lookup t' = (as_lookup a)(p \<mapsto> v)"
    if "as_lookup a p = None" "\<not> as_full a"
    using as_map_ok [OF wf that, of "fst v" "snd v"] by (simp add: as_insert_def)
  show "as_insert a p v = Inl AlreadyMapped" if "as_lookup a p \<noteq> None"
    using that by (simp add: as_insert_def as_lookup_None)
  show "as_insert a p v = Inl CapacityExceeded" if "as_lookup a p = None" "as_full a"
  proof -
    have "find_pos (\<lambda>e. e = None) (mappings a) = None"
      using as_full_no_hole [OF wf that(2)] unfolding find_pos_None by metis
    with that show ?thesis by (simp add: as_insert_def as_lookup_None)
  qed
  show "\<exists>t'. as_delete a p = Inr t' \<and> as_wf t' \<and> as_lookup t' = (as_lookup a)(p := None) \<and> \<not> as_full t'"
    if "as_lookup a p \<noteq> None"
    using as_unmap_ok [OF wf that] by (simp add: as_delete_def)
  show "as_delete a p = Inl NotMapped" if "as_lookup a p = None"
  proof -
    have "find_pos (entry_has_page p) (mappings a) = None"
      using that by (auto simp: find_pos_None as_lookup_None list_ex_iff)
    then show ?thesis by (simp add: as_delete_def)
  qed
qed simp

section \<open>Properties\<close>

lemma as_map_result:
  assumes "as_wf a" "as_apply a (Map p f g) = Inr a'"
  shows "as_wf a'" "as_lookup a' = (as_lookup a)(p \<mapsto> (f, g))"
proof -
  have i: "as_insert a p (f, g) = Inr a'" using assms(2) by (simp add: as_insert_def)
  then have "as_lookup a p = None" "\<not> as_full a" using as_map.insert_Inr_iff [OF assms(1)] by blast+
  from as_map.insert_ok [OF assms(1) this, of "(f, g)"] i show "as_wf a'" "as_lookup a' = (as_lookup a)(p \<mapsto> (f, g))" by auto
qed

text \<open>C16: mapping a page and unmapping it again is the identity on what the address space maps, a second map
  of the page in between is refused as AlreadyMapped, and a second unmap as NotMapped.\<close>

theorem map_unmap_round_trip:
  assumes "as_wf a" "as_apply a (Map p f g) = Inr a'"
  shows "as_lookup a' = (as_lookup a)(p \<mapsto> (f, g)) \<and> as_apply a' (Map p f' g') = Inl AlreadyMapped
    \<and> (\<exists>a''. as_apply a' (Unmap p) = Inr a'' \<and> as_wf a'' \<and> as_lookup a'' = as_lookup a \<and> as_apply a'' (Unmap p) = Inl NotMapped)"
proof -
  note m = as_map_result [OF assms]
  have i: "as_insert a p (f, g) = Inr a'" using assms(2) by (simp add: as_insert_def)
  obtain a'' where d: "as_delete a' p = Inr a''" "as_wf a''" "as_lookup a'' = as_lookup a"
    using as_map.insert_then_delete [OF assms(1) i] by blast
  have "as_insert a' p (f', g') = Inl AlreadyMapped" by (rule as_map.insert_then_insert [OF assms(1) i])
  moreover have "as_delete a'' p = Inl NotMapped" by (rule as_map.delete_then_delete [OF m(1) d(1)])
  ultimately show ?thesis using m d by (auto simp: as_insert_def as_delete_def)
qed

lemma new_user_wf: "as_wf new_user" "as_lookup new_user p = None" "\<not> as_full new_user"
  by (simp_all add: as_wf_def each_mapping_def new_user_def as_lookup_None list_ex_iff entry_has_page_def as_full_def
      mapping_count_def MAX_MAPPINGS_def)

theorem map_unmap_round_trip_witness:
  "\<exists>a'. as_apply new_user (Map (VirtPage 1) (PhysFrame 2) PRESENT) = Inr a' \<and> as_apply a' (Map (VirtPage 1) (PhysFrame 3) PRESENT) = Inl AlreadyMapped"
proof -
  obtain a' where a: "as_apply new_user (Map (VirtPage 1) (PhysFrame 2) PRESENT) = Inr a'"
    using as_map_ok [OF new_user_wf(1) new_user_wf(2) new_user_wf(3)] by blast
  with map_unmap_round_trip [OF new_user_wf(1) a] show ?thesis by blast
qed

text \<open>C17: the address space refuses a request exactly for the documented reasons: a map of a mapped page, a map
  into a full table of 64 entries, an unmap of a page that is not mapped; every other request succeeds.\<close>

theorem address_space_errors:
  assumes "as_wf a"
  shows "(as_apply a (Map p f g) = Inl AlreadyMapped \<longleftrightarrow> as_lookup a p \<noteq> None)
    \<and> (as_apply a (Map p f g) = Inl CapacityExceeded \<longleftrightarrow> as_lookup a p = None \<and> mapping_count a = 64)
    \<and> (as_apply a (Unmap p) = Inl NotMapped \<longleftrightarrow> as_lookup a p = None)
    \<and> ((\<exists>a'. as_apply a (Map p f g) = Inr a') \<longleftrightarrow> as_lookup a p = None \<and> mapping_count a < 64)
    \<and> ((\<exists>a'. as_apply a (Unmap p) = Inr a') \<longleftrightarrow> as_lookup a p \<noteq> None)"
proof -
  have c: "mapping_count a \<le> 64" using assms by (simp add: mapping_count_def as_wf_def MAX_MAPPINGS_def) (metis length_filter_le)
  have full: "as_full a \<longleftrightarrow> mapping_count a = 64" by (simp add: as_full_def MAX_MAPPINGS_def)
  have i: "as_apply a (Map p f g) = as_insert a p (f, g)" "as_apply a (Unmap p) = as_delete a p"
    by (simp_all add: as_insert_def as_delete_def)
  note r = as_map.insert_ok [OF assms, of p "(f, g)"] as_map.insert_dup [OF assms, of p "(f, g)"] as_map.insert_full [OF assms, of p "(f, g)"]
    as_map.delete_ok [OF assms, of p] as_map.delete_missing [OF assms, of p]
  show ?thesis
  proof (cases "as_lookup a p")
    case None
    show ?thesis
    proof (cases "as_full a")
      case True
      then show ?thesis unfolding i using r(3,5) None full by simp
    next
      case False
      then show ?thesis unfolding i using r(1,5) None full c by auto
    qed
  next
    case (Some v)
    then show ?thesis unfolding i using r(2,4) by auto
  qed
qed

theorem address_space_errors_witness:
  "as_apply new_user (Unmap (VirtPage 1)) = Inl NotMapped"
  using address_space_errors [OF new_user_wf(1), of "VirtPage 1"] new_user_wf(2) by blast

end
