(* ===== verification/Frame_Alloc.thy ===== *)
theory Frame_Alloc
  imports Addr
begin

unbundle bit_operations_syntax

text \<open>
  The physical frame allocator (\<open>mm/mod.rs\<close>, \<open>kernel/pagetable_init.rs\<close>).  The memory map is the
  boot loader's: a list of regions, each with the values its \<open>start_addr()\<close> and \<open>end_addr()\<close>
  give and whether its type is \<open>Usable\<close>.  A frame is given by its number; the x86\_64 crate's
  \<open>PhysAddr::new\<close> panics on some numbers, and which it accepts is the parameter \<open>pok\<close>.
  \<open>allocate_frame\<close> returns \<open>None\<close> for a panic, and otherwise the frame, if one is left, and the
  allocator's next state.  The abstract view of the allocator is the list \<open>remaining\<close> of the
  addresses still to be handed out.
\<close>

section \<open>mm/mod.rs\<close>

datatype MemoryRegionType = Usable | OtherRegion

record region =
  range_start_addr :: u64
  range_end_addr :: u64
  region_type :: MemoryRegionType

record FrameAlloc =
  memory_map :: "region list"
  region_index :: usize
  cur_addr :: u64
  cur_end :: u64
  has_region :: bool

definition align_up_4k :: "u64 \<Rightarrow> u64 option" where
  "align_up_4k x = do { y \<leftarrow> chk_add x (4096 - 1); Some (y AND NOT (4096 - 1)) }"

function advance_loop :: "FrameAlloc \<Rightarrow> FrameAlloc option" where
  "advance_loop me =
     (if region_index me < length (memory_map me) then
        (let region = memory_map me ! region_index me;
             me1 = me\<lparr>region_index := region_index me + 1\<rparr>
         in if region_type region \<noteq> Usable then advance_loop me1
            else do {
              cur \<leftarrow> align_up_4k (range_start_addr region);
              (if cur \<ge> range_end_addr region then advance_loop me1
               else Some (me1\<lparr>cur_addr := cur, cur_end := range_end_addr region, has_region := True\<rparr>))
            })
      else Some me)"
  by pat_completeness auto
termination
  by (relation "measure (\<lambda>me. length (memory_map me) - region_index me)") auto

declare advance_loop.simps [simp del]

definition advance_to_next_usable_region :: "FrameAlloc \<Rightarrow> FrameAlloc option" where
  "advance_to_next_usable_region me = advance_loop (me\<lparr>has_region := False\<rparr>)"

definition BootInfoFrameAllocator_new :: "region list \<Rightarrow> FrameAlloc option" where
  "BootInfoFrameAllocator_new mm =
     advance_to_next_usable_region
       \<lparr>memory_map = mm, region_index = 0, cur_addr = 0, cur_end = 0, has_region = False\<rparr>"

lemma advance_loop_progress:
  "advance_loop me = Some me' \<Longrightarrow> \<not> has_region me \<Longrightarrow> has_region me' \<Longrightarrow>
     memory_map me' = memory_map me \<and> region_index me < region_index me' \<and>
     region_index me' \<le> length (memory_map me')"
proof (induction me rule: advance_loop.induct)
  case (1 me)
  show ?case
    using "1.prems" "1.IH"
    by (subst (asm) (1) advance_loop.simps)
       (fastforce simp: Let_def split: if_splits option.splits elim!: bind_eq_Some_conv [THEN iffD1, THEN exE])
qed

function allocate_frame :: "(u64 \<Rightarrow> bool) \<Rightarrow> FrameAlloc \<Rightarrow> (PhysFrame option \<times> FrameAlloc) option" where
  "allocate_frame pok me =
     (if \<not> has_region me then Some (None, me)
      else do {
        nxt \<leftarrow> chk_add (cur_addr me) 4096;
        (if nxt \<le> cur_end me then
           (if pok (cur_addr me) then Some (Some (PhysFrame (cur_addr me div 4096)), me\<lparr>cur_addr := nxt\<rparr>)
            else None)
         else do {
           me' \<leftarrow> advance_to_next_usable_region me;
           allocate_frame pok me'
         })
      })"
  by pat_completeness auto
termination
proof (relation "measure (\<lambda>(pok, me). if has_region me then 1 + (length (memory_map me) - region_index me) else 0)", goal_cases)
  case (2 pok me nxt me')
  then show ?case
    using advance_loop_progress [of "me\<lparr>has_region := False\<rparr>" me']
    by (auto simp: advance_to_next_usable_region_def)
qed simp

declare allocate_frame.simps [simp del]

section \<open>kernel/pagetable\_init.rs\<close>

definition allocate_new_l4_table :: "(u64 \<Rightarrow> bool) \<Rightarrow> FrameAlloc \<Rightarrow> (PhysFrame option \<times> FrameAlloc) option" where
  "allocate_new_l4_table pok phys_mem = allocate_frame pok phys_mem"

section \<open>The frames still to be handed out\<close>

definition frames_between :: "nat \<Rightarrow> nat \<Rightarrow> nat list" where
  "frames_between a e = map (\<lambda>k. a + 4096 * k) [0..<(e - a) div 4096]"

definition align_up_nat :: "nat \<Rightarrow> nat" where
  "align_up_nat x = (x + 4095) div 4096 * 4096"

definition region_frames :: "region \<Rightarrow> nat list" where
  "region_frames r =
     (if region_type r = Usable
      then frames_between (align_up_nat (unat (range_start_addr r))) (unat (range_end_addr r)) else [])"

definition remaining :: "FrameAlloc \<Rightarrow> nat list" where
  "remaining me =
     (if has_region me then frames_between (unat (cur_addr me)) (unat (cur_end me))
        @ concat (map region_frames (drop (region_index me) (memory_map me)))
      else [])"

definition region_ok :: "region \<Rightarrow> bool" where
  "region_ok r \<longleftrightarrow> unat (range_start_addr r) \<le> 2 ^ 52 \<and> unat (range_end_addr r) \<le> 2 ^ 52"

definition fa_wf :: "FrameAlloc \<Rightarrow> bool" where
  "fa_wf me \<longleftrightarrow> list_all region_ok (memory_map me)
     \<and> (has_region me \<longrightarrow> unat (cur_addr me) \<le> 2 ^ 52 \<and> unat (cur_end me) \<le> 2 ^ 52
          \<and> unat (cur_addr me) mod 4096 = 0)"

locale frame_source =
  fixes invar :: "'a \<Rightarrow> bool"
    and rest :: "'a \<Rightarrow> 'f list"
    and alloc :: "'a \<Rightarrow> ('f option \<times> 'a) option"
  assumes alloc_empty: "invar a \<Longrightarrow> rest a = [] \<Longrightarrow> \<exists>a'. alloc a = Some (None, a') \<and> invar a' \<and> rest a' = []"
    and alloc_next: "invar a \<Longrightarrow> rest a = f # fs \<Longrightarrow> \<exists>a'. alloc a = Some (Some f, a') \<and> invar a' \<and> rest a' = fs"
begin

lemma alloc_returns:
  assumes "invar a"
  shows "\<exists>r a'. alloc a = Some (r, a') \<and> invar a' \<and> r = (case rest a of [] \<Rightarrow> None | f # _ \<Rightarrow> Some f)
           \<and> rest a' = tl (rest a)"
  using alloc_empty [OF assms] alloc_next [OF assms] by (cases "rest a") fastforce+

lemma alloc_fresh:
  assumes "invar a" "distinct (rest a)" "alloc a = Some (Some f, a')"
  shows "f \<in> set (rest a) \<and> f \<notin> set (rest a') \<and> distinct (rest a') \<and> set (rest a') \<subseteq> set (rest a)"
  using alloc_returns [OF assms(1)] assms(2,3) by (cases "rest a") auto

end

lemma unat_align_up:
  assumes "unat x \<le> 2 ^ 52"
  shows "\<exists>y. align_up_4k x = Some y \<and> unat y = align_up_nat (unat x)"
proof -
  have "chk_add x 4095 = Some (x + 4095)" using assms by (simp add: chk_add_def)
  moreover have "unat (x + 4095) = unat x + 4095"
    using assms by (subst unat_add_lem [THEN iffD1]) simp_all
  moreover have "unat ((x + 4095) AND NOT 4095) = unat (x + 4095) div 4096 * 4096"
    using unat_align_down [of "x + 4095"] by (simp add: PAGE_SIZE_def)
  ultimately show ?thesis by (simp add: align_up_4k_def align_up_nat_def)
qed

lemma align_up_nat_props: "align_up_nat x mod 4096 = 0" "x \<le> align_up_nat x" "x \<le> 2 ^ 52 \<Longrightarrow> align_up_nat x \<le> 2 ^ 52"
proof -
  show "align_up_nat x mod 4096 = 0" by (simp add: align_up_nat_def)
  have "(x + 4095) div 4096 * 4096 + (x + 4095) mod 4096 = x + 4095" by (rule div_mult_mod_eq)
  moreover have "(x + 4095) mod 4096 < 4096" by (rule mod_less_divisor) simp
  ultimately show "x \<le> align_up_nat x" unfolding align_up_nat_def by linarith
  assume "x \<le> 2 ^ 52"
  then have "(x + 4095) div 4096 \<le> (2 ^ 52 + 4095) div 4096" by (intro div_le_mono) simp
  also have "(2 ^ 52 + 4095) div 4096 = (2 ^ 40 :: nat)" by simp
  finally show "align_up_nat x \<le> 2 ^ 52" by (simp add: align_up_nat_def)
qed

lemma frames_between_Nil: "frames_between a e = [] \<longleftrightarrow> e < a + 4096"
  by (auto simp: frames_between_def)

lemma frames_between_Cons:
  assumes "a + 4096 \<le> e"
  shows "frames_between a e = a # frames_between (a + 4096) e"
proof -
  have "(e - a) div 4096 = Suc ((e - (a + 4096)) div 4096)"
    using assms by (simp add: le_div_geq)
  then have "[0..<(e - a) div 4096] = 0 # map Suc [0..<(e - (a + 4096)) div 4096]"
    by (simp only: upt_conv_Cons zero_less_Suc map_Suc_upt)
  then show ?thesis by (simp add: frames_between_def o_def)
qed

lemma advance_loop_skip:
  assumes "region_index me < length (memory_map me)"
    and "align_up_4k (range_start_addr (memory_map me ! region_index me)) = Some y"
    and "\<not> (region_type (memory_map me ! region_index me) = Usable \<and> y < range_end_addr (memory_map me ! region_index me))"
  shows "advance_loop me = advance_loop (me\<lparr>region_index := region_index me + 1\<rparr>)"
  using assms by (subst advance_loop.simps) (auto simp: Let_def not_less)

lemma advance_loop_enter:
  assumes "region_index me < length (memory_map me)"
    and "align_up_4k (range_start_addr (memory_map me ! region_index me)) = Some y"
    and "region_type (memory_map me ! region_index me) = Usable" "y < range_end_addr (memory_map me ! region_index me)"
  shows "advance_loop me = Some (me\<lparr>region_index := region_index me + 1, cur_addr := y,
           cur_end := range_end_addr (memory_map me ! region_index me), has_region := True\<rparr>)"
  using assms by (subst advance_loop.simps) (auto simp: Let_def not_less)

lemma advance_loop_remaining:
  assumes "list_all region_ok (memory_map me)" "\<not> has_region me"
  shows "\<exists>me'. advance_loop me = Some me' \<and> fa_wf me' \<and> memory_map me' = memory_map me
           \<and> remaining me' = concat (map region_frames (drop (region_index me) (memory_map me)))"
  using assms
proof (induction "length (memory_map me) - region_index me" arbitrary: me)
  case 0
  then show ?case by (subst advance_loop.simps) (simp add: fa_wf_def remaining_def)
next
  case (Suc k)
  let ?r = "memory_map me ! region_index me" and ?m = "me\<lparr>region_index := region_index me + 1\<rparr>"
  have lt: "region_index me < length (memory_map me)" using Suc.hyps(2) by simp
  have d: "drop (region_index me) (memory_map me) = ?r # drop (region_index me + 1) (memory_map me)"
    using lt by (simp add: Cons_nth_drop_Suc)
  have ok: "region_ok ?r" using Suc.prems lt by (simp add: list_all_length)
  then obtain y where y: "align_up_4k (range_start_addr ?r) = Some y"
      "unat y = align_up_nat (unat (range_start_addr ?r))"
    using unat_align_up [of "range_start_addr ?r"] by (auto simp: region_ok_def)
  show ?case
  proof (cases "region_type ?r = Usable \<and> y < range_end_addr ?r")
    case False
    then have "region_frames ?r = []"
      using y by (auto simp: region_frames_def frames_between_Nil word_less_nat_alt not_less)
    then show ?thesis
      using Suc.hyps(1) [of ?m] Suc.hyps(2) Suc.prems d advance_loop_skip [OF lt y(1) False] by simp
  next
    case True
    then have e: "advance_loop me = Some (me\<lparr>region_index := region_index me + 1, cur_addr := y,
           cur_end := range_end_addr ?r, has_region := True\<rparr>)"
      using advance_loop_enter [OF lt y(1)] by blast
    have "unat y mod 4096 = 0" "unat y \<le> 2 ^ 52"
      using y(2) ok align_up_nat_props(1,3) by (simp_all add: region_ok_def)
    then show ?thesis
      unfolding e using Suc.prems ok y(2) d True
      by (simp add: fa_wf_def remaining_def region_frames_def region_ok_def)
  qed
qed

section \<open>The allocator implements a frame source\<close>

lemma allocate_frame_remaining:
  assumes "fa_wf me" "\<And>a. a \<in> set (remaining me) \<Longrightarrow> pok (of_nat a)"
  shows "\<exists>me'. fa_wf me' \<and> memory_map me' = memory_map me \<and> remaining me' = tl (remaining me)
    \<and> allocate_frame pok me = Some (case remaining me of [] \<Rightarrow> None | a # _ \<Rightarrow> Some (PhysFrame (of_nat a div 4096)), me')"
  using assms
proof (induction pok me rule: allocate_frame.induct)
  case (1 pok me)
  show ?case
  proof (cases "has_region me")
    case False
    then show ?thesis using "1.prems"
      by (subst allocate_frame.simps) (simp add: remaining_def)
  next
    case True
    let ?c = "unat (cur_addr me)"
    have bd: "?c \<le> 2 ^ 52" "unat (cur_end me) \<le> 2 ^ 52" "?c mod 4096 = 0" "list_all region_ok (memory_map me)"
      using "1.prems"(1) True by (simp_all add: fa_wf_def)
    have add: "chk_add (cur_addr me) 4096 = Some (cur_addr me + 4096)" "unat (cur_addr me + 4096) = ?c + 4096"
      using bd by (simp_all add: chk_add_def unat_word_ariths)
    show ?thesis
    proof (cases "?c + 4096 \<le> unat (cur_end me)")
      case le: True
      have r: "remaining me = ?c # remaining (me\<lparr>cur_addr := cur_addr me + 4096\<rparr>)"
        using frames_between_Cons [OF le] True add(2) by (simp add: remaining_def)
      have "pok (cur_addr me)" using "1.prems"(2) [of ?c] r by simp
      moreover have "fa_wf (me\<lparr>cur_addr := cur_addr me + 4096\<rparr>)"
        using "1.prems"(1) le add(2) bd by (simp add: fa_wf_def mod_simps)
      ultimately show ?thesis
        unfolding r using le add True
        by (subst allocate_frame.simps) (simp add: word_le_nat_alt)
    next
      case gt: False
      let ?o = "me\<lparr>has_region := False\<rparr>"
      obtain me' where me': "advance_to_next_usable_region me = Some me'" "fa_wf me'" "memory_map me' = memory_map me"
          "remaining me' = concat (map region_frames (drop (region_index me) (memory_map me)))"
        using advance_loop_remaining [of ?o] bd(4) by (auto simp: advance_to_next_usable_region_def)
      have r: "remaining me = remaining me'"
        using gt True me'(4) frames_between_Nil [of ?c] by (simp add: remaining_def)
      have nle: "\<not> cur_addr me + 4096 \<le> cur_end me" using gt add(2) by (simp add: word_le_nat_alt)
      have "allocate_frame pok me = allocate_frame pok me'"
        using True add nle me'(1) by (subst allocate_frame.simps) simp
      then show ?thesis
        using "1.IH" [OF _ _ nle me'(1)] True add(1) me'(2,3) r "1.prems"(2) by simp
    qed
  qed
qed

interpretation boot_alloc: frame_source
  "\<lambda>me. fa_wf me \<and> (\<forall>a \<in> set (remaining me). pok (of_nat a))"
  "\<lambda>me. map (\<lambda>a. PhysFrame (of_nat a div 4096)) (remaining me)"
  "allocate_frame pok" for pok
proof (unfold_locales, goal_cases)
  case (1 a)
  with allocate_frame_remaining [of a pok] show ?case by auto
next
  case (2 a f fs)
  with allocate_frame_remaining [of a pok] show ?case by (cases "remaining a") auto
qed

section \<open>Which frames a fresh allocator hands out\<close>

definition usable_disjoint :: "region list \<Rightarrow> bool" where
  "usable_disjoint mm \<longleftrightarrow> (\<forall>j < length mm. \<forall>i < j.
     region_type (mm ! i) = Usable \<longrightarrow> region_type (mm ! j) = Usable \<longrightarrow>
       range_end_addr (mm ! i) \<le> range_start_addr (mm ! j) \<or> range_end_addr (mm ! j) \<le> range_start_addr (mm ! i))"

lemma set_frames_between: "set (frames_between a e) \<subseteq> {x. a \<le> x \<and> x + 4096 \<le> e \<and> x mod 4096 = a mod 4096}"
proof
  fix x assume "x \<in> set (frames_between a e)"
  then obtain k where k: "x = a + 4096 * k" "k < (e - a) div 4096"
    by (auto simp: frames_between_def)
  then have "Suc k * 4096 \<le> (e - a) div 4096 * 4096" by (intro mult_le_mono1) simp
  also have "\<dots> \<le> e - a" by simp
  finally have "x + 4096 \<le> e" using k by simp
  then show "x \<in> {x. a \<le> x \<and> x + 4096 \<le> e \<and> x mod 4096 = a mod 4096}" using k by simp
qed

lemma distinct_frames_between: "distinct (frames_between a e)"
  by (simp add: frames_between_def distinct_map inj_on_def)

lemma set_region_frames:
  assumes "a \<in> set (region_frames r)"
  shows "region_type r = Usable" "unat (range_start_addr r) \<le> a" "a + 4096 \<le> unat (range_end_addr r)" "a mod 4096 = 0"
proof -
  have u: "region_type r = Usable"
    "a \<in> set (frames_between (align_up_nat (unat (range_start_addr r))) (unat (range_end_addr r)))"
    using assms by (auto simp: region_frames_def split: if_splits)
  then show "region_type r = Usable" "unat (range_start_addr r) \<le> a" "a + 4096 \<le> unat (range_end_addr r)" "a mod 4096 = 0"
    using set_frames_between align_up_nat_props(1,2) [of "unat (range_start_addr r)"] by fastforce+
qed

lemma usable_disjoint_Cons:
  assumes "usable_disjoint (r # mm)"
  shows "usable_disjoint mm"
    and "s \<in> set mm \<Longrightarrow> region_type r = Usable \<Longrightarrow> region_type s = Usable \<Longrightarrow>
      range_end_addr r \<le> range_start_addr s \<or> range_end_addr s \<le> range_start_addr r"
proof -
  show "usable_disjoint mm"
    unfolding usable_disjoint_def
  proof (intro allI impI)
    fix j i assume a: "j < length mm" "i < j" "region_type (mm ! i) = Usable" "region_type (mm ! j) = Usable"
    then show "range_end_addr (mm ! i) \<le> range_start_addr (mm ! j) \<or> range_end_addr (mm ! j) \<le> range_start_addr (mm ! i)"
      using assms [unfolded usable_disjoint_def, rule_format, of "Suc j" "Suc i"] by simp
  qed
  assume "s \<in> set mm" and u: "region_type r = Usable" "region_type s = Usable"
  then obtain k where "k < length mm" "mm ! k = s" by (auto simp: in_set_conv_nth)
  then show "range_end_addr r \<le> range_start_addr s \<or> range_end_addr s \<le> range_start_addr r"
    using assms [unfolded usable_disjoint_def, rule_format, of "Suc k" 0] u by simp
qed

lemma distinct_region_frames:
  "usable_disjoint mm \<Longrightarrow> distinct (concat (map region_frames mm))"
proof (induction mm)
  case (Cons r mm)
  have "distinct (region_frames r)" by (simp add: region_frames_def distinct_frames_between)
  moreover have "set (region_frames r) \<inter> set (concat (map region_frames mm)) = {}"
  proof (rule ccontr)
    assume "set (region_frames r) \<inter> set (concat (map region_frames mm)) \<noteq> {}"
    then obtain a s where a: "a \<in> set (region_frames r)" "s \<in> set mm" "a \<in> set (region_frames s)" by auto
    show False
      using usable_disjoint_Cons(2) [OF Cons.prems a(2)] set_region_frames [OF a(1)] set_region_frames [OF a(3)]
      by (auto simp: word_le_nat_alt)
  qed
  ultimately show ?case using Cons.IH [OF usable_disjoint_Cons(1) [OF Cons.prems]] by simp
qed simp

fun allocate_frames :: "(u64 \<Rightarrow> bool) \<Rightarrow> nat \<Rightarrow> FrameAlloc \<Rightarrow> (PhysFrame list \<times> FrameAlloc) option" where
  "allocate_frames pok 0 me = Some ([], me)"
| "allocate_frames pok (Suc n) me = do {
     (f, me1) \<leftarrow> allocate_frame pok me;
     (fs, me2) \<leftarrow> allocate_frames pok n me1;
     Some ((case f of None \<Rightarrow> fs | Some x \<Rightarrow> x # fs), me2)
   }"

lemma allocate_frames_take:
  assumes "fa_wf me" "\<forall>a \<in> set (remaining me). pok (of_nat a)"
  shows "\<exists>me'. allocate_frames pok n me = Some (map (\<lambda>a. PhysFrame (of_nat a div 4096)) (take n (remaining me)), me')"
  using assms
proof (induction n arbitrary: me)
  case (Suc n)
  obtain me' where me': "fa_wf me'" "remaining me' = tl (remaining me)"
    "allocate_frame pok me = Some (case remaining me of [] \<Rightarrow> None | a # _ \<Rightarrow> Some (PhysFrame (of_nat a div 4096)), me')"
    using allocate_frame_remaining [of me pok] Suc.prems by blast
  moreover have "\<forall>a \<in> set (remaining me'). pok (of_nat a)"
    using Suc.prems(2) me'(2) by (cases "remaining me") auto
  ultimately show ?case using Suc.IH [of me'] by (cases "remaining me") auto
qed simp

lemma BootInfoFrameAllocator_new_remaining:
  assumes "list_all region_ok mm"
  shows "\<exists>fa. BootInfoFrameAllocator_new mm = Some fa \<and> fa_wf fa \<and> remaining fa = concat (map region_frames mm)"
  using advance_loop_remaining [of "\<lparr>memory_map = mm, region_index = 0, cur_addr = 0, cur_end = 0, has_region = False\<rparr>"]
    assms by (auto simp: BootInfoFrameAllocator_new_def advance_to_next_usable_region_def)

lemma inj_frame_number:
  "inj_on (\<lambda>a. PhysFrame (of_nat a div 4096)) {a. a mod 4096 = 0 \<and> a < 2 ^ 64}"
proof (rule inj_onI)
  fix a b :: nat
  assume ab: "a \<in> {a. a mod 4096 = 0 \<and> a < 2 ^ 64}" "b \<in> {a. a mod 4096 = 0 \<and> a < 2 ^ 64}"
    and "PhysFrame (of_nat a div 4096) = PhysFrame (of_nat b div 4096)"
  then have "unat (of_nat a div 4096 :: u64) = unat (of_nat b div 4096 :: u64)" by simp
  then have "a div 4096 = b div 4096"
    using ab by (simp add: unat_div unat_of_nat)
  moreover have "a = a div 4096 * 4096" "b = b div 4096 * 4096"
    using ab div_mult_mod_eq [of a 4096] div_mult_mod_eq [of b 4096] by simp_all
  ultimately show "a = b" by simp
qed

text \<open>C18: on a memory map whose addresses fit the 52-bit physical address space and whose usable
  regions do not overlap, creating the allocator and taking any number \<open>n\<close> of frames never panics
  and hands out pairwise distinct frames, each a whole 4 KiB frame inside a usable region; frames
  are lost only when the map is exhausted.\<close>

theorem allocator_frames_distinct_usable:
  assumes "list_all region_ok mm" "usable_disjoint mm" "\<And>a. unat a < 2 ^ 52 \<Longrightarrow> pok a"
  shows "\<exists>fa fs fa'. BootInfoFrameAllocator_new mm = Some fa \<and> allocate_frames pok n fa = Some (fs, fa')
    \<and> distinct fs \<and> length fs = min n (length (concat (map region_frames mm)))
    \<and> (\<forall>f \<in> set fs. \<exists>r \<in> set mm. \<exists>a. region_type r = Usable \<and> f = PhysFrame (of_nat a div 4096) \<and> a mod 4096 = 0
          \<and> unat (range_start_addr r) \<le> a \<and> a + 4096 \<le> unat (range_end_addr r))"
proof -
  let ?all = "concat (map region_frames mm)" and ?F = "\<lambda>a. PhysFrame (of_nat a div 4096)"
  obtain fa where fa: "BootInfoFrameAllocator_new mm = Some fa" "fa_wf fa" "remaining fa = ?all"
    using BootInfoFrameAllocator_new_remaining [OF assms(1)] by blast
  have in_map: "\<exists>r \<in> set mm. region_type r = Usable \<and> unat (range_start_addr r) \<le> a
      \<and> a + 4096 \<le> unat (range_end_addr r) \<and> a mod 4096 = 0 \<and> a + 4096 \<le> 2 ^ 52" if "a \<in> set ?all" for a
  proof -
    from that obtain r where r: "r \<in> set mm" "a \<in> set (region_frames r)" by auto
    then have "region_ok r" using assms(1) by (simp add: list_all_iff)
    then have "a + 4096 \<le> 2 ^ 52" using set_region_frames(3) [OF r(2)] unfolding region_ok_def by linarith
    with set_region_frames [OF r(2)] show ?thesis by (intro bexI [OF _ r(1)] conjI)
  qed
  have small: "a < 2 ^ 52" if "a \<in> set ?all" for a using in_map [OF that] by (elim bexE conjE) linarith
  have "\<forall>a \<in> set (remaining fa). pok (of_nat a)"
    unfolding fa(3)
  proof
    fix a assume "a \<in> set ?all"
    then have "unat (of_nat a :: u64) < 2 ^ 52" using small [of a] by (simp add: unat_of_nat)
    then show "pok (of_nat a)" by (rule assms(3))
  qed
  then obtain fa' where "allocate_frames pok n fa = Some (map ?F (take n ?all), fa')"
    using allocate_frames_take [OF fa(2), of pok n] unfolding fa(3) by blast
  moreover have "distinct (map ?F (take n ?all))"
  proof -
    have "set (take n ?all) \<subseteq> {a. a mod 4096 = 0 \<and> a < 2 ^ 64}"
    proof
      fix a assume "a \<in> set (take n ?all)"
      then have a: "a \<in> set ?all" by (rule in_set_takeD)
      show "a \<in> {a. a mod 4096 = 0 \<and> a < 2 ^ 64}" using in_map [OF a] small [OF a] by (elim bexE conjE) simp
    qed
    then have "inj_on ?F (set (take n ?all))" by (rule inj_on_subset [OF inj_frame_number])
    then show ?thesis using distinct_region_frames [OF assms(2)] by (simp add: distinct_map)
  qed
  moreover have "\<forall>f \<in> set (map ?F (take n ?all)). \<exists>r \<in> set mm. \<exists>a. region_type r = Usable \<and> f = ?F a \<and> a mod 4096 = 0
          \<and> unat (range_start_addr r) \<le> a \<and> a + 4096 \<le> unat (range_end_addr r)"
  proof
    fix f assume "f \<in> set (map ?F (take n ?all))"
    then obtain a where a: "a \<in> set (take n ?all)" and f: "f = ?F a" unfolding set_map by blast
    from in_map [OF in_set_takeD [OF a]] f show "\<exists>r \<in> set mm. \<exists>a. region_type r = Usable \<and> f = ?F a \<and> a mod 4096 = 0
          \<and> unat (range_start_addr r) \<le> a \<and> a + 4096 \<le> unat (range_end_addr r)"
      by (elim bexE conjE) (intro bexI exI conjI)
  qed
  moreover have "length (map ?F (take n ?all)) = min n (length ?all)" by (simp only: length_map length_take min.commute)
  ultimately show ?thesis using fa(1) by (intro exI conjI)
qed

theorem allocator_frames_distinct_usable_witness:
  "\<exists>fa fs fa'. BootInfoFrameAllocator_new
       [\<lparr>range_start_addr = 0, range_end_addr = 4096, region_type = OtherRegion\<rparr>,
        \<lparr>range_start_addr = 4097, range_end_addr = 20480, region_type = Usable\<rparr>] = Some fa
     \<and> allocate_frames (\<lambda>a. a < 0x10000000000000) 2 fa = Some (fs, fa') \<and> distinct fs \<and> length fs = 2"
proof -
  let ?mm = "[\<lparr>range_start_addr = 0, range_end_addr = 4096, region_type = OtherRegion\<rparr>,
        \<lparr>range_start_addr = 4097, range_end_addr = 20480, region_type = Usable\<rparr>]"
  have "list_all region_ok ?mm" "usable_disjoint ?mm"
    by (simp_all add: region_ok_def usable_disjoint_def less_Suc_eq)
  moreover have "length (concat (map region_frames ?mm)) = 3" 
    by (simp add: region_frames_def frames_between_def align_up_nat_def)
  ultimately show ?thesis
    using allocator_frames_distinct_usable [of ?mm "\<lambda>a. a < 0x10000000000000" 2]
    by (fastforce simp: word_less_nat_alt)
qed

end
