(* ===== verification/Machine.thy ===== *)
theory Machine
  imports Address_Space Frame_Alloc
begin

text \<open>
  What the kernel runs on.

  \<^item> \<open>Env\<close> is the part of the system whose code is not in the repository, as a parameter \<open>E\<close> of
    every definition that uses it: the build's Cargo features that select code, the x86\_64 crate
    (\<open>PhysAddr::new\<close> and \<open>VirtAddr::new\<close>, which panic on some values, the page table entry
    accessors and flag constants, \<open>OffsetPageTable\<close> with \<open>map_to\<close>, \<open>unmap\<close> and \<open>translate_addr\<close>)
    and the CPU (register values, a load or a store through the page tables of CR3, the page fault
    it raises).  The memory these act on is the type variable \<open>'m\<close>.
  \<^item> \<open>Machine\<close> holds CR3, that memory and the static variables of \<open>arch/paging.rs\<close>,
    \<open>arch/interrupts.rs\<close>, \<open>logging\<close> (the VGA switch) and the demo hooks.  The page fault statics are
    read and written by the code through their high-alias addresses, which name the same cells.

  What the code logs is not part of the machine: the console is in \<open>Logging\<close>, the log records are in \<open>Log_Records\<close>.
\<close>

section \<open>The environment\<close>

datatype MapToError = FrameAllocationFailed | ParentEntryHugePage | PageAlreadyMapped u64

datatype UnmapError = UnmapParentEntryHugePage | PageNotMapped | InvalidFrameAddress u64

text \<open>An \<open>OffsetPageTable\<close> is given by the address of its level 4 table and the offset of the
  physical memory map; a page fault by its error code, instruction and stack pointer.\<close>

record OffsetPageTable =
  l4_table :: u64
  phys_offset :: u64

record cpu_fault =
  flt_err :: u64
  flt_rip :: u64
  flt_rsp :: u64

type_synonym frame_allocator = "FrameAlloc \<Rightarrow> (PhysFrame option \<times> FrameAlloc) option"

record 'm Env =
  pf_demo :: bool
  ignore_user_pf_demo :: bool
  ring3_mailbox :: bool
  ring3_mailbox_loop :: bool
  dead_partner_test :: bool
  endpoint_close_test :: bool
  evil_double_map :: bool
  evil_unmap_not_mapped :: bool
  ipc_demo_single_slow :: bool
  phys_addr_ok :: "u64 \<Rightarrow> bool"
  virt_addr_ok :: "u64 \<Rightarrow> bool"
  X_PRESENT :: u64
  X_WRITABLE :: u64
  X_USER_ACCESSIBLE :: u64
  X_NO_EXECUTE :: u64
  pte_is_unused :: "u64 \<Rightarrow> bool"
  pte_flags :: "u64 \<Rightarrow> u64"
  pte_addr :: "u64 \<Rightarrow> u64"
  pte_unused :: u64
  pml4_get :: "'m \<Rightarrow> u64 \<Rightarrow> usize \<Rightarrow> u64"
  pml4_set :: "'m \<Rightarrow> u64 \<Rightarrow> usize \<Rightarrow> u64 \<Rightarrow> 'm"
  pt_map_to :: "OffsetPageTable \<Rightarrow> u64 \<Rightarrow> u64 \<Rightarrow> u64 \<Rightarrow> frame_allocator \<Rightarrow> 'm \<Rightarrow> FrameAlloc
      \<Rightarrow> ((MapToError + unit) \<times> 'm \<times> FrameAlloc) option"
  pt_unmap :: "OffsetPageTable \<Rightarrow> u64 \<Rightarrow> 'm \<Rightarrow> (UnmapError + unit) \<times> 'm"
  pt_translate :: "OffsetPageTable \<Rightarrow> u64 \<Rightarrow> 'm \<Rightarrow> u64 option"
  regs_at :: "nat \<Rightarrow> u64 \<times> u64 \<times> u64"
  recover_label :: u64
  undef_reg :: u64
  cr2_of_fault :: "u64 \<Rightarrow> u64"
  cpu_store :: "u64 \<Rightarrow> u64 \<Rightarrow> u64 \<Rightarrow> 'm \<Rightarrow> cpu_fault + 'm"
  cpu_load :: "u64 \<Rightarrow> u64 \<Rightarrow> 'm \<Rightarrow> cpu_fault + u64"
  high_exec :: "u64 \<Rightarrow> u64 \<Rightarrow> u64"

section \<open>The machine state\<close>

record PageFaultInfo =
  pf_addr :: u64
  pf_err :: u64
  pf_rip :: u64
  pf_rsp :: u64
  is_user_fault :: bool

record 'm Machine =
  cr3 :: u64
  mem :: 'm
  reg_reads :: nat
  vga_enabled :: bool
  PHYSICAL_MEMORY_OFFSET :: u64
  ALLOW_REAL_CR3_SWITCH :: bool
  GUARD_CODE_VIRT :: u64
  GUARD_STACK_VIRT :: u64
  GUARD_CODE_PHYS :: u64
  GUARD_STACK_PHYS :: u64
  GUARD_CODE_HIGH_VIRT :: u64
  GUARD_STACK_HIGH_VIRT :: u64
  ALIAS_COPY_COUNT :: usize
  RING3_DEMO_USER_ROOT_PHYS :: u64
  RING3_DEMO_KERNEL_ROOT_PHYS :: u64
  PF_GUARD_ACTIVE :: u64
  PF_GUARD_RECOVER_RIP :: u64
  PF_GUARD_HIT :: u64
  LAST_PF_VALID :: u64
  LAST_PF_ADDR :: u64
  LAST_PF_ERR :: u64
  LAST_PF_RIP :: u64
  LAST_PF_RSP :: u64
  LAST_PF_IS_USER :: u64
  DEMO_USER_ROOT_PHYS :: u64
  DEMO_KERNEL_ROOT_PHYS :: u64
  DEAD_PARTNER_FIRED :: bool
  EVIL_MAP_STAGE :: nat
  EVIL_UNMAP_FIRED :: bool

definition set_vga_enabled :: "bool \<Rightarrow> 'm Machine \<Rightarrow> 'm Machine" where
  "set_vga_enabled v h = h\<lparr>vga_enabled := v\<rparr>"

definition PhysAddr_new :: "'m Env \<Rightarrow> u64 \<Rightarrow> u64 option" where
  "PhysAddr_new E a = (if phys_addr_ok E a then Some a else None)"

definition VirtAddr_new :: "'m Env \<Rightarrow> u64 \<Rightarrow> u64 option" where
  "VirtAddr_new E a = (if virt_addr_ok E a then Some a else None)"

end
