(* ===== verification/Arch_Paging.thy ===== *)
theory Arch_Paging
  imports Machine
begin

unbundle bit_operations_syntax

text \<open>
  The paging layer (\<open>arch/paging.rs\<close>): the ring 3 demo roots, the page fault guard and its fixup
  (with the \<open>#PF\<close> handler of \<open>arch/interrupts.rs\<close>), the checks made before CR3 is written, the
  address space switch, mapping and unmapping, the kernel's high alias and the user page tables.
  A panic, a failed assertion or a halt is \<open>None\<close>.
\<close>

section \<open>Ring 3 demo roots\<close>

definition set_ring3_demo_roots :: "PhysFrame \<Rightarrow> PhysFrame \<Rightarrow> 'm Machine \<Rightarrow> 'm Machine option" where
  "set_ring3_demo_roots user_root kernel_root h = do {
     u \<leftarrow> frame_start_address user_root;
     k \<leftarrow> frame_start_address kernel_root;
     Some (h\<lparr>RING3_DEMO_USER_ROOT_PHYS := pa_u64 u, RING3_DEMO_KERNEL_ROOT_PHYS := pa_u64 k\<rparr>)
   }"

definition peek_ring3_demo_roots :: "'m Machine \<Rightarrow> (PhysFrame \<times> PhysFrame) option" where
  "peek_ring3_demo_roots h =
     (let u_phys = RING3_DEMO_USER_ROOT_PHYS h; k_phys = RING3_DEMO_KERNEL_ROOT_PHYS h in
      if u_phys = 0 \<or> k_phys = 0 then None
      else Some (PhysFrame (u_phys div PAGE_SIZE), PhysFrame (k_phys div PAGE_SIZE)))"

definition cache_demo_roots_if_needed :: "'m Machine \<Rightarrow> ((PhysFrame \<times> PhysFrame) option \<times> 'm Machine) option" where
  "cache_demo_roots_if_needed h =
     (let u = DEMO_USER_ROOT_PHYS h; k = DEMO_KERNEL_ROOT_PHYS h in
      if u \<noteq> 0 \<and> k \<noteq> 0 then Some (Some (PhysFrame (u div PAGE_SIZE), PhysFrame (k div PAGE_SIZE)), h)
      else (case peek_ring3_demo_roots h of
              None \<Rightarrow> Some (None, h)
            | Some (user_root, kernel_root) \<Rightarrow> do {
                ua \<leftarrow> frame_start_address user_root;
                ka \<leftarrow> frame_start_address kernel_root;
                Some (Some (user_root, kernel_root),
                      h\<lparr>DEMO_USER_ROOT_PHYS := pa_u64 ua, DEMO_KERNEL_ROOT_PHYS := pa_u64 ka\<rparr>)
              }))"

section \<open>The page fault guard\<close>

definition guard_u64_ptr :: "u64 \<Rightarrow> u64 option" where
  "guard_u64_ptr addr_u64 =
     (if pml4_index addr_u64 < KERNEL_ALIAS_MAX_COPY_COUNT then kernel_high_alias_of_low addr_u64
      else Some addr_u64)"

definition record_page_fault :: "PageFaultInfo \<Rightarrow> 'm Machine \<Rightarrow> 'm Machine" where
  "record_page_fault info h =
     h\<lparr>LAST_PF_ADDR := pf_addr info, LAST_PF_ERR := pf_err info, LAST_PF_RIP := pf_rip info,
       LAST_PF_RSP := pf_rsp info, LAST_PF_IS_USER := (if is_user_fault info then 1 else 0),
       LAST_PF_VALID := 1\<rparr>"

definition take_last_page_fault :: "'m Machine \<Rightarrow> PageFaultInfo option \<times> 'm Machine" where
  "take_last_page_fault h =
     (if LAST_PF_VALID h = 0 then (None, h)
      else (Some \<lparr>pf_addr = LAST_PF_ADDR h, pf_err = LAST_PF_ERR h, pf_rip = LAST_PF_RIP h,
                  pf_rsp = LAST_PF_RSP h, is_user_fault = (LAST_PF_IS_USER h \<noteq> 0)\<rparr>,
            h\<lparr>LAST_PF_VALID := 0\<rparr>))"

definition is_user_space_addr_u64 :: "u64 \<Rightarrow> bool" where
  "is_user_space_addr_u64 addr \<longleftrightarrow> addr \<ge> USER_SPACE_BASE \<and> addr < USER_SPACE_BASE + USER_SPACE_SIZE"

definition pf_guard_try_fixup :: "'m Machine \<Rightarrow> u64 option \<times> 'm Machine" where
  "pf_guard_try_fixup h =
     (if PF_GUARD_ACTIVE h = 0 then (None, h)
      else (let rip = PF_GUARD_RECOVER_RIP h in
            if rip = 0 then (None, h)
            else (Some rip, h\<lparr>PF_GUARD_HIT := 1, PF_GUARD_ACTIVE := 0\<rparr>)))"

text \<open>The \<open>#PF\<close> handler: record, try the fixup, otherwise halt.  The result is the address at which
  execution resumes.\<close>

definition page_fault_handler :: "u64 \<Rightarrow> cpu_fault \<Rightarrow> 'm Machine \<Rightarrow> (u64 \<times> 'm Machine) option" where
  "page_fault_handler cr2 flt h =
     (let h1 = record_page_fault \<lparr>pf_addr = cr2, pf_err = flt_err flt, pf_rip = flt_rip flt,
                                   pf_rsp = flt_rsp flt, is_user_fault = False\<rparr> h
      in case pf_guard_try_fixup h1 of
           (Some recover_rip, h2) \<Rightarrow> Some (recover_rip, h2)
         | (None, h2) \<Rightarrow> None)"

text \<open>The guarded assembly blocks.  A fault resumes at the label after the block, with the output
  register as it was.\<close>

definition guarded_enter :: "'m Env \<Rightarrow> 'm Machine \<Rightarrow> 'm Machine" where
  "guarded_enter E h = h\<lparr>PF_GUARD_RECOVER_RIP := recover_label E, PF_GUARD_ACTIVE := 1\<rparr>"

definition guarded_load :: "'m Env \<Rightarrow> u64 \<Rightarrow> 'm Machine \<Rightarrow> (u64 \<times> 'm Machine) option" where
  "guarded_load E p h =
     (case cpu_load E (cr3 h) p (mem h) of
        Inr v \<Rightarrow> Some (v, h\<lparr>PF_GUARD_ACTIVE := 0\<rparr>)
      | Inl flt \<Rightarrow> do { (rip, h') \<leftarrow> page_fault_handler (cr2_of_fault E p) flt h; Some (undef_reg E, h') })"

definition guarded_rw_block :: "'m Env \<Rightarrow> u64 \<Rightarrow> u64 \<Rightarrow> 'm Machine \<Rightarrow> (u64 \<times> 'm Machine) option" where
  "guarded_rw_block E p v h =
     (let h1 = guarded_enter E h in
      case cpu_store E (cr3 h1) p v (mem h1) of
        Inr m' \<Rightarrow> guarded_load E p (h1\<lparr>mem := m'\<rparr>)
      | Inl flt \<Rightarrow> do { (rip, h') \<leftarrow> page_fault_handler (cr2_of_fault E p) flt h1; Some (undef_reg E, h') })"

definition guarded_read_block :: "'m Env \<Rightarrow> u64 \<Rightarrow> 'm Machine \<Rightarrow> (u64 \<times> 'm Machine) option" where
  "guarded_read_block E p h = guarded_load E p (guarded_enter E h)"

definition guarded_result :: "u64 \<Rightarrow> 'm Machine \<Rightarrow> (PageFaultInfo + u64) \<times> 'm Machine" where
  "guarded_result read_back h =
     (if PF_GUARD_HIT h \<noteq> 0 then
        (case take_last_page_fault h of
           (Some info, h') \<Rightarrow> (Inl info, h')
         | (None, h') \<Rightarrow> (Inl \<lparr>pf_addr = 0, pf_err = 0, pf_rip = 0, pf_rsp = 0, is_user_fault = True\<rparr>, h'))
      else (Inr read_back, h))"

definition guarded_user_rw_u64 :: "'m Env \<Rightarrow> u64 \<Rightarrow> u64 \<Rightarrow> 'm Machine \<Rightarrow> ((PageFaultInfo + u64) \<times> 'm Machine) option" where
  "guarded_user_rw_u64 E ptr value h = do {
     (read_back, h1) \<leftarrow> guarded_rw_block E ptr value (h\<lparr>LAST_PF_VALID := 0, PF_GUARD_HIT := 0\<rparr>);
     Some (guarded_result read_back h1)
   }"

section \<open>Address translation\<close>

datatype PagingApplyError = MapFailed | UnmapFailed

definition x_contains :: "u64 \<Rightarrow> u64 \<Rightarrow> bool" where
  "x_contains flags other \<longleftrightarrow> flags AND other = other"

definition enforce_user_mapping_policy :: "'m Env \<Rightarrow> u64 \<Rightarrow> u64 \<Rightarrow> unit option" where
  "enforce_user_mapping_policy E virt flags =
     (let in_user_slot = is_user_space_addr_u64 virt;
          user_accessible = x_contains flags (X_USER_ACCESSIBLE E)
      in if user_accessible \<and> \<not> in_user_slot then None
         else if \<not> user_accessible \<and> in_user_slot then None
         else Some ())"

definition phys_to_virt :: "'m Env \<Rightarrow> u64 \<Rightarrow> 'm Machine \<Rightarrow> u64 option" where
  "phys_to_virt E phys h = do { a \<leftarrow> chk_add (PHYSICAL_MEMORY_OFFSET h) phys; VirtAddr_new E a }"

definition phys_u64_to_virt_ptr :: "u64 \<Rightarrow> 'm Machine \<Rightarrow> u64 option" where
  "phys_u64_to_virt_ptr phys h = chk_add (PHYSICAL_MEMORY_OFFSET h) phys"

definition PHYSMAP_PML4_COPY_COUNT :: usize where
  "PHYSMAP_PML4_COPY_COUNT = 4"

definition assert_no_physmap_user_slot_collision :: "'m Machine \<Rightarrow> unit option" where
  "assert_no_physmap_user_slot_collision h =
     (let physmap_pml4 = pml4_index (PHYSICAL_MEMORY_OFFSET h) in
      if USER_PML4_INDEX \<ge> 256 then None
      else if physmap_pml4 = USER_PML4_INDEX then None
      else if physmap_pml4 < 256 \<and> physmap_pml4 \<le> USER_PML4_INDEX
                \<and> USER_PML4_INDEX < min (physmap_pml4 + PHYSMAP_PML4_COPY_COUNT) 256 then None
      else Some ())"

definition paging_init :: "u64 \<Rightarrow> 'm Machine \<Rightarrow> 'm Machine option" where
  "paging_init physical_memory_offset h =
     (let h1 = h\<lparr>PHYSICAL_MEMORY_OFFSET := physical_memory_offset\<rparr> in
      do { assert_no_physmap_user_slot_collision h1; Some h1 })"

definition to_x86_flags :: "'m Env \<Rightarrow> PageFlags \<Rightarrow> u64" where
  "to_x86_flags E flags =
     (let res0 = 0;
          res1 = (if flags_contain flags PRESENT then res0 OR X_PRESENT E else res0);
          res2 = (if flags_contain flags WRITABLE then res1 OR X_WRITABLE E else res1);
          res3 = (if flags_contain flags USER then res2 OR X_USER_ACCESSIBLE E else res2)
      in if flags_contain flags NO_EXEC then res3 OR X_NO_EXECUTE E else res3)"

definition active_level_4_table :: "'m Env \<Rightarrow> 'm Machine \<Rightarrow> u64 option" where
  "active_level_4_table E h = phys_to_virt E (cr3 h) h"

definition init_offset_page_table :: "'m Env \<Rightarrow> 'm Machine \<Rightarrow> OffsetPageTable option" where
  "init_offset_page_table E h = do {
     l4 \<leftarrow> active_level_4_table E h;
     off \<leftarrow> VirtAddr_new E (PHYSICAL_MEMORY_OFFSET h);
     Some \<lparr>l4_table = l4, phys_offset = off\<rparr>
   }"

definition init_offset_page_table_for_root :: "'m Env \<Rightarrow> PhysFrame \<Rightarrow> 'm Machine \<Rightarrow> OffsetPageTable option" where
  "init_offset_page_table_for_root E root h = do {
     a \<leftarrow> frame_start_address root;
     pml4_phys \<leftarrow> PhysAddr_new E (pa_u64 a);
     pml4_virt \<leftarrow> phys_to_virt E pml4_phys h;
     off \<leftarrow> VirtAddr_new E (PHYSICAL_MEMORY_OFFSET h);
     Some \<lparr>l4_table = pml4_virt, phys_offset = off\<rparr>
   }"

definition debug_physmap_can_access_phys :: "'m Env \<Rightarrow> u64 \<Rightarrow> 'm Machine \<Rightarrow> bool option" where
  "debug_physmap_can_access_phys E phys_u64 h = do {
     a \<leftarrow> chk_add (PHYSICAL_MEMORY_OFFSET h) phys_u64;
     virt \<leftarrow> VirtAddr_new E a;
     mapper \<leftarrow> init_offset_page_table E h;
     Some (pt_translate E mapper virt (mem h) \<noteq> None)
   }"

definition translate_u64 :: "'m Env \<Rightarrow> OffsetPageTable \<Rightarrow> u64 \<Rightarrow> 'm Machine \<Rightarrow> u64 option" where
  "translate_u64 E mapper v h = do {
     va \<leftarrow> VirtAddr_new E v;
     Some (case pt_translate E mapper va (mem h) of None \<Rightarrow> 0 | Some p \<Rightarrow> p)
   }"

section \<open>Checks before a CR3 write, and the switch\<close>

definition read_rip_rsp_rbp :: "'m Env \<Rightarrow> 'm Machine \<Rightarrow> (u64 \<times> u64 \<times> u64) \<times> 'm Machine" where
  "read_rip_rsp_rbp E h = (regs_at E (reg_reads h), h\<lparr>reg_reads := reg_reads h + 1\<rparr>)"

definition preflight_physmap :: "'m Env \<Rightarrow> u64 \<Rightarrow> u64 \<Rightarrow> 'm Machine \<Rightarrow> unit option" where
  "preflight_physmap E cur_ptr tgt_ptr h =
     (let physmap_pml4 = pml4_index (PHYSICAL_MEMORY_OFFSET h);
          cur_e = pml4_get E (mem h) cur_ptr physmap_pml4;
          tgt_e = pml4_get E (mem h) tgt_ptr physmap_pml4
      in if pte_is_unused E cur_e \<or> \<not> x_contains (pte_flags E cur_e) (X_PRESENT E) then None
         else if pte_is_unused E tgt_e \<or> \<not> x_contains (pte_flags E tgt_e) (X_PRESENT E) then None
         else if x_contains (pte_flags E tgt_e) (X_USER_ACCESSIBLE E) then None
         else if pte_addr E tgt_e \<noteq> pte_addr E cur_e \<or> pte_flags E tgt_e \<noteq> pte_flags E cur_e then None
         else Some ())"

definition preflight_guards :: "'m Env \<Rightarrow> OffsetPageTable \<Rightarrow> 'm Machine \<Rightarrow> unit option" where
  "preflight_guards E tgt_mapper h =
     (let code_low = GUARD_CODE_VIRT h; stack_low = GUARD_STACK_VIRT h;
          code_high = GUARD_CODE_HIGH_VIRT h; stack_high = GUARD_STACK_HIGH_VIRT h;
          exp_code_phys = GUARD_CODE_PHYS h; exp_stack_phys = GUARD_STACK_PHYS h
      in do {
        is_user_root \<leftarrow>
          (if code_low \<noteq> 0 \<and> stack_low \<noteq> 0 then do {
             code_phys_tgt \<leftarrow> translate_u64 E tgt_mapper code_low h;
             stack_phys_tgt \<leftarrow> translate_u64 E tgt_mapper stack_low h;
             Some (code_phys_tgt = 0 \<and> stack_phys_tgt = 0)
           } else Some False);
        (if \<not> is_user_root \<and> code_low \<noteq> 0 \<and> stack_low \<noteq> 0 \<and> exp_code_phys \<noteq> 0 \<and> exp_stack_phys \<noteq> 0 then do {
           code_phys_tgt \<leftarrow> translate_u64 E tgt_mapper code_low h;
           stack_phys_tgt \<leftarrow> translate_u64 E tgt_mapper stack_low h;
           (if code_phys_tgt \<noteq> exp_code_phys \<or> stack_phys_tgt \<noteq> exp_stack_phys then None else Some ())
         } else Some ());
        (if code_high \<noteq> 0 \<and> stack_high \<noteq> 0 \<and> exp_code_phys \<noteq> 0 \<and> exp_stack_phys \<noteq> 0 then do {
           code_phys_tgt \<leftarrow> translate_u64 E tgt_mapper code_high h;
           stack_phys_tgt \<leftarrow> translate_u64 E tgt_mapper stack_high h;
           (if code_phys_tgt \<noteq> exp_code_phys \<or> stack_phys_tgt \<noteq> exp_stack_phys then None else Some ())
         } else Some ())
      })"

definition preflight_check_before_cr3_write :: "'m Env \<Rightarrow> PhysFrame \<Rightarrow> 'm Machine \<Rightarrow> 'm Machine option" where
  "preflight_check_before_cr3_write E target h = do {
     assert_no_physmap_user_slot_collision h;
     ta \<leftarrow> frame_start_address target;
     let target_phys_u64 = pa_u64 ta in
     if cr3 h = target_phys_u64 then Some h
     else (case read_rip_rsp_rbp E h of ((rip, rsp, rbp), h1) \<Rightarrow> do {
       tgt_mapper \<leftarrow> init_offset_page_table_for_root E target h1;
       rip_phys_tgt \<leftarrow> translate_u64 E tgt_mapper rip h1;
       rsp_phys_tgt \<leftarrow> translate_u64 E tgt_mapper rsp h1;
       rbp_phys_tgt \<leftarrow> translate_u64 E tgt_mapper rbp h1;
       (if rip_phys_tgt = 0 \<or> rsp_phys_tgt = 0 then None else Some ());
       cur_pml4_ptr \<leftarrow> active_level_4_table E h1;
       tgt_pml4_phys \<leftarrow> PhysAddr_new E target_phys_u64;
       tgt_pml4_ptr \<leftarrow> phys_to_virt E tgt_pml4_phys h1;
       preflight_physmap E cur_pml4_ptr tgt_pml4_ptr h1;
       preflight_guards E tgt_mapper h1;
       Some h1
     })
   }"

definition configure_cr3_switch_safety :: "'m Env \<Rightarrow> u64 \<Rightarrow> u64 \<Rightarrow> 'm Machine \<Rightarrow> 'm Machine option" where
  "configure_cr3_switch_safety E code_addr stack_addr h = do {
     mapper \<leftarrow> init_offset_page_table E h;
     code_p \<leftarrow> translate_u64 E mapper code_addr h;
     stack_p \<leftarrow> translate_u64 E mapper stack_addr h;
     (if code_p = 0 \<or> stack_p = 0 then Some (h\<lparr>ALLOW_REAL_CR3_SWITCH := False\<rparr>)
      else do {
        code_high \<leftarrow> kernel_high_alias_of_low code_addr;
        stack_high \<leftarrow> kernel_high_alias_of_low stack_addr;
        Some (h\<lparr>GUARD_CODE_VIRT := code_addr, GUARD_STACK_VIRT := stack_addr,
                GUARD_CODE_PHYS := code_p, GUARD_STACK_PHYS := stack_p,
                GUARD_CODE_HIGH_VIRT := code_high, GUARD_STACK_HIGH_VIRT := stack_high,
                ALLOW_REAL_CR3_SWITCH := True\<rparr>)
      })
   }"

definition switch_address_space_quiet :: "'m Env \<Rightarrow> PhysFrame \<Rightarrow> 'm Machine \<Rightarrow> 'm Machine option" where
  "switch_address_space_quiet E frame h = do {
     a \<leftarrow> frame_start_address frame;
     phys \<leftarrow> PhysAddr_new E (pa_u64 a);
     let h1 = h\<lparr>cr3 := phys\<rparr> in
     if cr3 h1 \<noteq> pa_u64 a then None else Some h1
   }"

definition switch_address_space_quiet_nocheck :: "'m Env \<Rightarrow> PhysFrame \<Rightarrow> 'm Machine \<Rightarrow> 'm Machine option" where
  "switch_address_space_quiet_nocheck E frame h = do {
     a \<leftarrow> frame_start_address frame;
     phys \<leftarrow> PhysAddr_new E (pa_u64 a);
     Some (h\<lparr>cr3 := phys\<rparr>)
   }"

definition switch_address_space :: "'m Env \<Rightarrow> PhysFrame option \<Rightarrow> 'm Machine \<Rightarrow> 'm Machine option" where
  "switch_address_space E root h =
     (case root of
        Some frame \<Rightarrow>
          (if \<not> ALLOW_REAL_CR3_SWITCH h then Some h
           else do {
             h1 \<leftarrow> preflight_check_before_cr3_write E frame h;
             switch_address_space_quiet E frame h1
           })
      | None \<Rightarrow> Some h)"

definition debug_translate_in_root :: "'m Env \<Rightarrow> PhysFrame \<Rightarrow> u64 \<Rightarrow> 'm Machine \<Rightarrow> unit option" where
  "debug_translate_in_root E root virt_addr_u64 h = do {
     mapper \<leftarrow> init_offset_page_table_for_root E root h;
     v \<leftarrow> VirtAddr_new E virt_addr_u64;
     Some ()
   }"

definition guarded_user_rw_u64_in_root ::
    "'m Env \<Rightarrow> PhysFrame \<Rightarrow> PhysFrame \<Rightarrow> u64 \<Rightarrow> u64 \<Rightarrow> 'm Machine \<Rightarrow> ((PageFaultInfo + u64) \<times> 'm Machine) option" where
  "guarded_user_rw_u64_in_root E user_root kernel_root ptr value h = do {
     h1 \<leftarrow> switch_address_space_quiet E user_root (h\<lparr>LAST_PF_VALID := 0, PF_GUARD_HIT := 0\<rparr>);
     (read_back, h2) \<leftarrow> guarded_rw_block E ptr value h1;
     h3 \<leftarrow> switch_address_space_quiet E kernel_root h2;
     Some (guarded_result read_back h3)
   }"

definition guarded_user_read_u64_in_root ::
    "'m Env \<Rightarrow> PhysFrame \<Rightarrow> PhysFrame \<Rightarrow> u64 \<Rightarrow> 'm Machine \<Rightarrow> ((PageFaultInfo + u64) \<times> 'm Machine) option" where
  "guarded_user_read_u64_in_root E user_root kernel_root ptr h = do {
     h1 \<leftarrow> switch_address_space_quiet E user_root (h\<lparr>LAST_PF_VALID := 0, PF_GUARD_HIT := 0\<rparr>);
     (read_back, h2) \<leftarrow> guarded_read_block E ptr h1;
     h3 \<leftarrow> switch_address_space_quiet E kernel_root h2;
     Some (guarded_result read_back h3)
   }"

section \<open>The kernel's high alias\<close>

definition install_alias_entry :: "'m Env \<Rightarrow> u64 \<Rightarrow> usize \<Rightarrow> 'm Machine \<Rightarrow> 'm Machine option" where
  "install_alias_entry E pml4 src h =
     (let dst = KERNEL_ALIAS_DST_PML4_BASE_INDEX + src;
          e = pml4_get E (mem h) pml4 src
      in if pte_is_unused E e then Some h
         else if x_contains (pte_flags E e) (X_USER_ACCESSIBLE E) then None
         else Some (h\<lparr>mem := pml4_set E (mem h) pml4 dst e\<rparr>))"

definition kernel_high_alias_exec_test_target :: "u64 \<Rightarrow> u64" where
  "kernel_high_alias_exec_test_target x = x + 0x1111222233334444"

definition run_kernel_high_alias_exec_test :: "'m Env \<Rightarrow> u64 \<Rightarrow> unit option" where
  "run_kernel_high_alias_exec_test E low_addr = do {
     high_addr \<leftarrow> kernel_high_alias_of_low low_addr;
     let arg = 0x0123456789ABCDEF in
     if high_exec E high_addr arg \<noteq> kernel_high_alias_exec_test_target arg then None else Some ()
   }"

definition install_kernel_high_alias_from_current :: "'m Env \<Rightarrow> u64 \<Rightarrow> 'm Machine \<Rightarrow> 'm Machine option" where
  "install_kernel_high_alias_from_current E test_fn_addr h =
     (let code_low = GUARD_CODE_VIRT h; stack_low = GUARD_STACK_VIRT h;
          copy_count = KERNEL_ALIAS_MAX_COPY_COUNT;
          h1 = h\<lparr>reg_reads := reg_reads h + 1, ALIAS_COPY_COUNT := copy_count\<rparr>
      in do {
        pml4 \<leftarrow> active_level_4_table E h1;
        h2 \<leftarrow> foldM (install_alias_entry E pml4) [0..<copy_count] h1;
        (if code_low \<noteq> 0 \<and> stack_low \<noteq> 0 \<and> GUARD_CODE_PHYS h2 \<noteq> 0 \<and> GUARD_STACK_PHYS h2 \<noteq> 0 then do {
           code_high \<leftarrow> kernel_high_alias_of_low code_low;
           stack_high \<leftarrow> kernel_high_alias_of_low stack_low;
           mapper \<leftarrow> init_offset_page_table E h2;
           code_p \<leftarrow> translate_u64 E mapper code_high h2;
           stack_p \<leftarrow> translate_u64 E mapper stack_high h2;
           (if code_p \<noteq> GUARD_CODE_PHYS h2 \<or> stack_p \<noteq> GUARD_STACK_PHYS h2 then None else Some ())
         } else Some ());
        run_kernel_high_alias_exec_test E test_fn_addr;
        Some h2
      })"

section \<open>Map and unmap\<close>

type_synonym 'm apply_result = "(PagingApplyError + unit) \<times> FrameAlloc \<times> 'm Machine"

definition mapper_for :: "'m Env \<Rightarrow> PhysFrame option \<Rightarrow> 'm Machine \<Rightarrow> OffsetPageTable option" where
  "mapper_for E root h =
     (case root of Some r \<Rightarrow> init_offset_page_table_for_root E r h | None \<Rightarrow> init_offset_page_table E h)"

fun apply_mem_action_with_mapper ::
    "'m Env \<Rightarrow> MemAction \<Rightarrow> PhysFrame option \<Rightarrow> FrameAlloc \<Rightarrow> 'm Machine \<Rightarrow> 'm apply_result option" where
  "apply_mem_action_with_mapper E (Map page frame flags) root phys_mem h = do {
     va \<leftarrow> page_start_address page;
     fa \<leftarrow> frame_start_address frame;
     let xflags = to_x86_flags E flags in do {
     virt_u64 \<leftarrow> (if x_contains xflags (X_USER_ACCESSIBLE E) then chk_add USER_SPACE_BASE (va_u64 va) else Some (va_u64 va));
     virt \<leftarrow> VirtAddr_new E virt_u64;
     enforce_user_mapping_policy E virt xflags;
     phys \<leftarrow> PhysAddr_new E (pa_u64 fa);
     mapper \<leftarrow> mapper_for E root h;
     (res, m', phys_mem') \<leftarrow> pt_map_to E mapper virt phys xflags (allocate_frame (phys_addr_ok E)) (mem h) phys_mem;
     Some (case res of Inr _ \<Rightarrow> Inr () | Inl _ \<Rightarrow> Inl MapFailed, phys_mem', h\<lparr>mem := m'\<rparr>)
   } }"
| "apply_mem_action_with_mapper E (Unmap page) root phys_mem h = do {
     va \<leftarrow> page_start_address page;
     virt_u64 \<leftarrow> (if root \<noteq> None then chk_add USER_SPACE_BASE (va_u64 va) else Some (va_u64 va));
     virt \<leftarrow> VirtAddr_new E virt_u64;
     mapper \<leftarrow> mapper_for E root h;
     (case pt_unmap E mapper virt (mem h) of (res, m') \<Rightarrow>
        Some (case res of Inr _ \<Rightarrow> Inr () | Inl _ \<Rightarrow> Inl UnmapFailed, phys_mem, h\<lparr>mem := m'\<rparr>))
   }"

definition apply_mem_action :: "'m Env \<Rightarrow> MemAction \<Rightarrow> FrameAlloc \<Rightarrow> 'm Machine \<Rightarrow> 'm apply_result option" where
  "apply_mem_action E action phys_mem h = apply_mem_action_with_mapper E action None phys_mem h"

definition apply_mem_action_in_root ::
    "'m Env \<Rightarrow> MemAction \<Rightarrow> PhysFrame \<Rightarrow> FrameAlloc \<Rightarrow> 'm Machine \<Rightarrow> 'm apply_result option" where
  "apply_mem_action_in_root E action root phys_mem h = apply_mem_action_with_mapper E action (Some root) phys_mem h"

section \<open>The page table of a user address space\<close>

definition copy_pml4_entry :: "'m Env \<Rightarrow> u64 \<Rightarrow> u64 \<Rightarrow> usize \<Rightarrow> 'm \<Rightarrow> 'm option" where
  "copy_pml4_entry E cur_p4 user_p4 i m =
     (let e = pml4_get E m cur_p4 i in
      if pte_is_unused E e then Some m
      else if x_contains (pte_flags E e) (X_USER_ACCESSIBLE E) then None
      else Some (pml4_set E m user_p4 i e))"

definition alias_count :: "'m Machine \<Rightarrow> usize" where
  "alias_count h =
     (let n = ALIAS_COPY_COUNT h in
      if n = 0 then KERNEL_ALIAS_MAX_COPY_COUNT else min n KERNEL_ALIAS_MAX_COPY_COUNT)"

definition init_user_pml4_from_current :: "'m Env \<Rightarrow> PhysFrame \<Rightarrow> 'm Machine \<Rightarrow> 'm Machine option" where
  "init_user_pml4_from_current E new_root h = do {
     na \<leftarrow> frame_start_address new_root;
     cur_p4 \<leftarrow> phys_u64_to_virt_ptr (cr3 h) h;
     user_p4 \<leftarrow> phys_u64_to_virt_ptr (pa_u64 na) h;
     let physmap_pml4 = pml4_index (PHYSICAL_MEMORY_OFFSET h) in do {
     assert_no_physmap_user_slot_collision h;
     let m0 = fold (\<lambda>i m. pml4_set E m user_p4 i (pte_unused E)) [0..<512] (mem h) in do {
     m1 \<leftarrow> foldM (copy_pml4_entry E cur_p4 user_p4) [physmap_pml4..<min (physmap_pml4 + PHYSMAP_PML4_COPY_COUNT) 256] m0;
     (let e = pml4_get E m1 user_p4 physmap_pml4 in
      if pte_is_unused E e \<or> \<not> x_contains (pte_flags E e) (X_PRESENT E) then None else Some ());
     m2 \<leftarrow> foldM (copy_pml4_entry E cur_p4 user_p4) [256..<512] m1;
     m3 \<leftarrow> foldM (copy_pml4_entry E cur_p4 user_p4)
             (takeWhile (\<lambda>idx. idx < 512) (map ((+) KERNEL_ALIAS_DST_PML4_BASE_INDEX) [0..<alias_count h])) m2;
     Some (h\<lparr>mem := pml4_set E m3 user_p4 USER_PML4_INDEX (pte_unused E)\<rparr>)
   } } }"

section \<open>Guarded accesses\<close>

lemma record_fields [simp]:
  "PF_GUARD_ACTIVE (record_page_fault i h) = PF_GUARD_ACTIVE h" "PF_GUARD_RECOVER_RIP (record_page_fault i h) = PF_GUARD_RECOVER_RIP h"
  "cr3 (record_page_fault i h) = cr3 h" "mem (record_page_fault i h) = mem h"
  by (simp_all add: record_page_fault_def)

text \<open>With the guard up, a page fault never halts: it is recorded, and execution resumes after the block.\<close>

lemma guarded_fault:
  assumes "PF_GUARD_ACTIVE h \<noteq> 0" "PF_GUARD_RECOVER_RIP h \<noteq> 0"
  shows "page_fault_handler c f h = Some (PF_GUARD_RECOVER_RIP h,
    (record_page_fault \<lparr>pf_addr = c, pf_err = flt_err f, pf_rip = flt_rip f, pf_rsp = flt_rsp f, is_user_fault = False\<rparr> h)
      \<lparr>PF_GUARD_HIT := 1, PF_GUARD_ACTIVE := 0\<rparr>)"
  using assms by (simp add: page_fault_handler_def pf_guard_try_fixup_def)

definition fault_info :: "u64 \<Rightarrow> cpu_fault \<Rightarrow> PageFaultInfo" where
  "fault_info c f = \<lparr>pf_addr = c, pf_err = flt_err f, pf_rip = flt_rip f, pf_rsp = flt_rsp f, is_user_fault = False\<rparr>"

text \<open>What a store followed by a load does in the address space \<open>c\<close>: the first fault, or the value read
  back and the new memory.\<close>

definition rw_outcome :: "'m Env \<Rightarrow> u64 \<Rightarrow> u64 \<Rightarrow> u64 \<Rightarrow> 'm \<Rightarrow> (PageFaultInfo + u64) \<times> 'm" where
  "rw_outcome E c p v m =
     (case cpu_store E c p v m of
        Inl f \<Rightarrow> (Inl (fault_info (cr2_of_fault E p) f), m)
      | Inr m' \<Rightarrow> (case cpu_load E c p m' of
           Inl f \<Rightarrow> (Inl (fault_info (cr2_of_fault E p) f), m')
         | Inr x \<Rightarrow> (Inr x, m')))"

definition outcome :: "(PageFaultInfo + u64) \<times> 'm \<Rightarrow> u64 \<Rightarrow> (PageFaultInfo + u64) \<times> 'm Machine \<Rightarrow> bool" where
  "outcome out c r \<longleftrightarrow> fst r = fst out \<and> mem (snd r) = snd out \<and> cr3 (snd r) = c \<and> PF_GUARD_ACTIVE (snd r) = 0"

lemma guarded_rw_block_post:
  assumes "recover_label E \<noteq> 0" "PF_GUARD_HIT h = 0"
  shows "post True (guarded_rw_block E p v h)
    (\<lambda>(x, h'). cr3 h' = cr3 h \<and> outcome (rw_outcome E (cr3 h) p v (mem h)) c (guarded_result x (h'\<lparr>cr3 := c\<rparr>)))"
proof (cases "cpu_store E (cr3 h) p v (mem h)")
  case (Inl f)
  then show ?thesis
    using assms by (simp add: guarded_rw_block_def guarded_enter_def guarded_fault rw_outcome_def fault_info_def
      guarded_result_def take_last_page_fault_def record_page_fault_def outcome_def)
next
  case (Inr m')
  then show ?thesis
    using assms by (cases "cpu_load E (cr3 h) p m'") (simp_all add: guarded_rw_block_def guarded_enter_def guarded_load_def guarded_fault
      rw_outcome_def fault_info_def guarded_result_def take_last_page_fault_def record_page_fault_def outcome_def)
qed

lemma quiet_switch:
  assumes "frame_start_address f = Some a" "phys_addr_ok E (pa_u64 a)"
  shows "switch_address_space_quiet E f h = Some (h\<lparr>cr3 := pa_u64 a\<rparr>)"
  using assms by (simp add: switch_address_space_quiet_def PhysAddr_new_def)

text \<open>C13: a guarded write and read back of a user address in the user's page tables never halts the kernel, even
  when the access faults: it returns the value read back, or the recorded fault of the first access
  that failed, with CR3 on the kernel's page tables, the guard down, and the memory as the accesses
  left it.\<close>

theorem guarded_access_returns:
  assumes "frame_start_address user_root = Some u" "phys_addr_ok E (pa_u64 u)"
    "frame_start_address kernel_root = Some k" "phys_addr_ok E (pa_u64 k)" "recover_label E \<noteq> 0"
  shows "\<exists>r h'. guarded_user_rw_u64_in_root E user_root kernel_root p v h = Some (r, h')
    \<and> r = fst (rw_outcome E (pa_u64 u) p v (mem h)) \<and> mem h' = snd (rw_outcome E (pa_u64 u) p v (mem h))
    \<and> cr3 h' = pa_u64 k \<and> PF_GUARD_ACTIVE h' = 0"
proof -
  let ?h = "h\<lparr>LAST_PF_VALID := 0, PF_GUARD_HIT := 0, cr3 := pa_u64 u\<rparr>"
  obtain x h2 where b: "guarded_rw_block E p v ?h = Some (x, h2)"
      "outcome (rw_outcome E (pa_u64 u) p v (mem h)) (pa_u64 k) (guarded_result x (h2\<lparr>cr3 := pa_u64 k\<rparr>))"
    using post_strictD [OF guarded_rw_block_post [OF assms(5), of ?h p v "pa_u64 k"]] by auto
  then show ?thesis
    by (simp add: guarded_user_rw_u64_in_root_def quiet_switch [OF assms(1,2)] quiet_switch [OF assms(3,4)] outcome_def prod_eq_iff)
qed

section \<open>The page table of a user address space, entry by entry\<close>

text \<open>The code reaches every table through the physical memory map, so the pointers it uses are those of
  page-aligned physical addresses inside the map's window: the slots \<open>init_user_pml4_from_current\<close> copies.
  Other virtual addresses may name the same memory (the high alias repeats the low slots), and nothing
  is assumed of them.\<close>

definition physmap_table :: "u64 \<Rightarrow> u64 \<Rightarrow> bool" where
  "physmap_table off b \<longleftrightarrow> off \<le> b \<and> unat (b - off) mod 4096 = 0 \<and> unat (b - off) < PHYSMAP_PML4_COPY_COUNT * 2 ^ 39"

text \<open>What is assumed of a table: it is a page of memory that is not part of the active page tables (so that
  writing it leaves the translation alone), and the window maps distinct pointers to distinct pages.  Then
  an entry written there changes this entry and no other entry seen through the window.\<close>

definition inactive_table :: "'m Env \<Rightarrow> u64 \<Rightarrow> u64 \<Rightarrow> bool" where
  "inactive_table E off a \<longleftrightarrow> physmap_table off a \<and> (\<forall>m i e b j. physmap_table off b \<longrightarrow> i < 512 \<longrightarrow> j < 512 \<longrightarrow>
     pml4_get E (pml4_set E m a i e) b j = (if a = b \<and> i = j then e else pml4_get E m b j))"

lemma inactive_tableD:
  assumes "inactive_table E off a" "physmap_table off b" "i < 512" "j < 512"
  shows "pml4_get E (pml4_set E m a i e) b j = (if a = b \<and> i = j then e else pml4_get E m b j)"
  using assms by (simp add: inactive_table_def)

definition shareable :: "'m Env \<Rightarrow> u64 \<Rightarrow> bool" where
  "shareable E e \<longleftrightarrow> pte_is_unused E e \<or> \<not> x_contains (pte_flags E e) (X_USER_ACCESSIBLE E)"

lemma copy_entries:
  assumes "inactive_table E off usr" "physmap_table off cur" "cur \<noteq> usr"
    "foldM (copy_pml4_entry E cur usr) is m = Some m'" "\<forall>i \<in> set is. i < 512"
  shows "(\<forall>b j. physmap_table off b \<longrightarrow> j < 512 \<longrightarrow> pml4_get E m' b j =
      (if b = usr \<and> j \<in> set is \<and> \<not> pte_is_unused E (pml4_get E m cur j) then pml4_get E m cur j else pml4_get E m b j))
    \<and> (\<forall>j \<in> set is. shareable E (pml4_get E m cur j))"
  using assms(4,5)
proof (induction "is" arbitrary: m)
  case (Cons i "is")
  obtain m1 where m1: "copy_pml4_entry E cur usr i m = Some m1" "foldM (copy_pml4_entry E cur usr) is m1 = Some m'"
    using Cons.prems(1) by (auto split: bind_splits)
  have i: "i < 512" "\<forall>i \<in> set is. i < 512" using Cons.prems(2) by auto
  have g: "pml4_get E m1 b j = (if b = usr \<and> j = i \<and> \<not> pte_is_unused E (pml4_get E m cur i) then pml4_get E m cur i else pml4_get E m b j)"
      if "physmap_table off b" "j < 512" for b j
    using m1(1) inactive_tableD [OF assms(1) that(1) i(1) that(2)] by (auto simp: copy_pml4_entry_def Let_def split: if_splits)
  have c: "pml4_get E m1 cur j = pml4_get E m cur j" if "j < 512" for j using g [OF assms(2) that] assms(3) by simp
  have s: "shareable E (pml4_get E m cur i)" using m1(1) by (auto simp: copy_pml4_entry_def shareable_def Let_def split: if_splits)
  note IH = Cons.IH [OF m1(2) i(2)]
  show ?case
  proof (intro conjI allI impI ballI)
    fix b and j :: usize assume b: "physmap_table off b" "j < 512"
    show "pml4_get E m' b j = (if b = usr \<and> j \<in> set (i # is) \<and> \<not> pte_is_unused E (pml4_get E m cur j)
        then pml4_get E m cur j else pml4_get E m b j)"
      using IH g [OF b] c [OF b(2)] b by auto
  next
    fix j assume "j \<in> set (i # is)"
    then show "shareable E (pml4_get E m cur j)" using IH s c i by auto
  qed
qed simp

lemma clear_entries:
  assumes "inactive_table E off usr" "physmap_table off b" "j < 512" "\<forall>i \<in> set is. i < 512"
  shows "pml4_get E (fold (\<lambda>i m. pml4_set E m usr i (pte_unused E)) is m) b j
    = (if b = usr \<and> j \<in> set is then pte_unused E else pml4_get E m b j)"
  using assms(4)
proof (induction "is" arbitrary: m)
  case (Cons i "is")
  then show ?case using inactive_tableD [OF assms(1,2) _ assms(3), of i m "pte_unused E"] by auto
qed simp

text \<open>The slots a user table shares with the kernel: the physical memory map's and the upper half.\<close>

definition kernel_slot :: "'m Machine \<Rightarrow> usize \<Rightarrow> bool" where
  "kernel_slot h i \<longleftrightarrow> (let p = pml4_index (PHYSICAL_MEMORY_OFFSET h) in p \<le> i \<and> i < p + PHYSMAP_PML4_COPY_COUNT \<and> i < 256 \<or> 256 \<le> i \<and> i < 512)"

lemma alias_slots: "i \<in> set (takeWhile (\<lambda>idx. idx < 512) (map ((+) KERNEL_ALIAS_DST_PML4_BASE_INDEX) [0..<n])) \<Longrightarrow> 256 \<le> i \<and> i < 512"
  by (auto dest!: set_takeWhileD simp: KERNEL_ALIAS_DST_PML4_BASE_INDEX_def)

lemma user_slot_not_kernel: "assert_no_physmap_user_slot_collision h \<noteq> None \<Longrightarrow> \<not> kernel_slot h USER_PML4_INDEX"
  by (auto simp: assert_no_physmap_user_slot_collision_def kernel_slot_def Let_def USER_PML4_INDEX_def split: if_splits)

lemma init_user_pml4_steps:
  assumes "frame_start_address root = Some a" "init_user_pml4_from_current E root h = Some h'"
    "cur = PHYSICAL_MEMORY_OFFSET h + cr3 h" "usr = PHYSICAL_MEMORY_OFFSET h + pa_u64 a"
  obtains m1 m2 m3 where
    "foldM (copy_pml4_entry E cur usr) [pml4_index (PHYSICAL_MEMORY_OFFSET h)..<min (pml4_index (PHYSICAL_MEMORY_OFFSET h) + PHYSMAP_PML4_COPY_COUNT) 256]
       (fold (\<lambda>i m. pml4_set E m usr i (pte_unused E)) [0..<512] (mem h)) = Some m1"
    "foldM (copy_pml4_entry E cur usr) [256..<512] m1 = Some m2"
    "foldM (copy_pml4_entry E cur usr) (takeWhile (\<lambda>idx. idx < 512) (map ((+) KERNEL_ALIAS_DST_PML4_BASE_INDEX) [0..<alias_count h])) m2 = Some m3"
    "h' = h\<lparr>mem := pml4_set E m3 usr USER_PML4_INDEX (pte_unused E)\<rparr>" "assert_no_physmap_user_slot_collision h \<noteq> None"
proof -
  note d = assms(2) [unfolded init_user_pml4_from_current_def assms(1) bind.bind_lunit Let_def]
  obtain c u where cu: "phys_u64_to_virt_ptr (cr3 h) h = Some c" "phys_u64_to_virt_ptr (pa_u64 a) h = Some u"
    using d by (cases "phys_u64_to_virt_ptr (cr3 h) h"; cases "phys_u64_to_virt_ptr (pa_u64 a) h") simp_all
  then have e: "c = cur" "u = usr" using assms(3,4) by (simp_all add: phys_u64_to_virt_ptr_def chk_add_def split: if_splits)
  note d = d [unfolded cu e bind.bind_lunit]
  show ?thesis using d unfolding bind_eq_Some_conv option.inject by (elim exE conjE) (rule that; (assumption | erule sym | simp only: option.simps not_False_eq_True))
qed

text \<open>C12: the level 4 table built for a user address space, on a frame that is not part of the active page
  tables, has exactly the kernel's entries in the slots it shares with the kernel: the upper half and, in
  the lower half, only the (at most four) slots of the physical memory map.  None of them is accessible to
  user code, every other slot is empty, the user slot among them, and building the table changes no other
  table reached through the physical memory map.  (The repository's README says that the lower half of
  the table remains empty; it does not, wherever the physical memory map lies in it.)\<close>

theorem user_table_isolated:
  assumes "inactive_table E off usr" "physmap_table off cur" "cur \<noteq> usr" "frame_start_address root = Some a"
    "init_user_pml4_from_current E root h = Some h'"
    "off = PHYSICAL_MEMORY_OFFSET h" "cur = off + cr3 h" "usr = off + pa_u64 a"
  shows "(\<forall>i < 512. pml4_get E (mem h') usr i =
           (if kernel_slot h i \<and> \<not> pte_is_unused E (pml4_get E (mem h) cur i) then pml4_get E (mem h) cur i else pte_unused E))
    \<and> (\<forall>i < 512. kernel_slot h i \<longrightarrow> shareable E (pml4_get E (mem h) cur i)) \<and> \<not> kernel_slot h USER_PML4_INDEX
    \<and> (\<forall>b i. physmap_table off b \<longrightarrow> i < 512 \<longrightarrow> b \<noteq> usr \<longrightarrow> pml4_get E (mem h') b i = pml4_get E (mem h) b i)"
proof -
  have usr: "physmap_table off usr" using assms(1) by (simp add: inactive_table_def)
  let ?p = "pml4_index (PHYSICAL_MEMORY_OFFSET h)" and ?S = "pml4_set E"
  define low where "low = [?p..<min (?p + PHYSMAP_PML4_COPY_COUNT) 256]"
  define up where "up = [256..<512 :: usize]"
  define al where "al = takeWhile (\<lambda>idx. idx < 512) (map ((+) KERNEL_ALIAS_DST_PML4_BASE_INDEX) [0..<alias_count h])"
  define every where "every = [0..<512 :: usize]"
  define m0 where "m0 = fold (\<lambda>i m. ?S m usr i (pte_unused E)) every (mem h)"
  obtain m1 m2 m3 where m: "foldM (copy_pml4_entry E cur usr) low m0 = Some m1" "foldM (copy_pml4_entry E cur usr) up m1 = Some m2"
      "foldM (copy_pml4_entry E cur usr) al m2 = Some m3" "h' = h\<lparr>mem := ?S m3 usr USER_PML4_INDEX (pte_unused E)\<rparr>"
      and nc: "assert_no_physmap_user_slot_collision h \<noteq> None"
    by (rule init_user_pml4_steps [OF assms(4,5) assms(7,8) [unfolded assms(6)], folded low_def up_def al_def every_def, folded m0_def])
  note slot = user_slot_not_kernel [OF nc]
  have sets: "set low = {?p..<min (?p + PHYSMAP_PML4_COPY_COUNT) 256}" "set up = {256..<512}" "set every = {0..<512}"
    by (simp_all only: low_def up_def every_def set_upt)
  have al: "256 \<le> i" "i < 512" if "i \<in> set al" for i using alias_slots [of i "alias_count h"] that by (simp_all only: al_def)
  have r: "\<forall>i \<in> set low. i < 512" "\<forall>i \<in> set up. i < 512" "\<forall>i \<in> set al. i < 512" "\<forall>i \<in> set every. i < 512"
    using al unfolding sets by auto
  have c0: "pml4_get E m0 b j = (if b = usr then pte_unused E else pml4_get E (mem h) b j)" if "physmap_table off b" "j < 512" for b j
    using clear_entries [OF assms(1) that r(4)] that unfolding m0_def sets by simp
  note c1 = copy_entries [OF assms(1-3) m(1)] and c2 = copy_entries [OF assms(1-3) m(2)]
    and c3 = copy_entries [OF assms(1-3) m(3)]
  have cur: "pml4_get E m0 cur j = pml4_get E (mem h) cur j" "pml4_get E m1 cur j = pml4_get E (mem h) cur j"
      "pml4_get E m2 cur j = pml4_get E (mem h) cur j" if "j < 512" for j
    using c0 [OF assms(2) that] c1 [OF r(1)] c2 [OF r(2)] assms(2,3) that by auto
  have fin: "pml4_get E (mem h') b i = (if b = usr \<and> i = USER_PML4_INDEX then pte_unused E else pml4_get E m3 b i)"
    if "physmap_table off b" "i < 512" for b i
    using inactive_tableD [OF assms(1) that(1) _ that(2), of USER_PML4_INDEX m3 "pte_unused E"] m(4) by (auto simp: USER_PML4_INDEX_def)
  have ks: "kernel_slot h i \<longleftrightarrow> i \<in> set low \<or> i \<in> set up" if "i < 512" for i
    using that unfolding sets kernel_slot_def Let_def by auto
  show ?thesis
  proof (intro conjI allI impI)
    fix i :: usize assume i: "i < 512"
    show "pml4_get E (mem h') usr i =
        (if kernel_slot h i \<and> \<not> pte_is_unused E (pml4_get E (mem h) cur i) then pml4_get E (mem h) cur i else pte_unused E)"
      using fin [OF usr i] c0 [OF usr i] c1 [OF r(1)] c2 [OF r(2)] c3 [OF r(3)] cur [OF i] ks [OF i] al [of i] sets(2) slot usr i
      by auto
    show "shareable E (pml4_get E (mem h) cur i)" if "kernel_slot h i"
      using ks [OF i] that c1 [OF r(1)] c2 [OF r(2)] cur [OF i] by auto
  next
    fix b and i :: usize assume b: "physmap_table off b" "i < 512" "b \<noteq> usr"
    then show "pml4_get E (mem h') b i = pml4_get E (mem h) b i"
      using fin [OF b(1,2)] c0 [OF b(1,2)] c1 [OF r(1)] c2 [OF r(2)] c3 [OF r(3)] by auto
  qed (rule slot)
qed

section \<open>Address space switches\<close>

lemma translate_nonzero: "translate_u64 E t v h = Some p \<Longrightarrow> p \<noteq> 0 \<Longrightarrow> pt_translate E t v (mem h) = Some p"
  by (auto simp: translate_u64_def VirtAddr_new_def split: if_splits option.splits)

definition target_table :: "PhysAddr \<Rightarrow> 'm Machine \<Rightarrow> OffsetPageTable" where
  "target_table a h = \<lparr>l4_table = PHYSICAL_MEMORY_OFFSET h + pa_u64 a, phys_offset = PHYSICAL_MEMORY_OFFSET h\<rparr>"

text \<open>A table under which the kernel keeps running: it maps the instruction and stack pointers, has the current
  table's entry for the physical memory map, present and not accessible to user code, and, once the guard
  addresses are configured, maps their high aliases to the same physical addresses.\<close>

definition keeps_kernel :: "'m Env \<Rightarrow> OffsetPageTable \<Rightarrow> u64 \<Rightarrow> u64 \<Rightarrow> 'm Machine \<Rightarrow> bool" where
  "keeps_kernel E t rip rsp h \<longleftrightarrow>
     (let i = pml4_index (PHYSICAL_MEMORY_OFFSET h); tgt = pml4_get E (mem h) (l4_table t) i;
          cur = pml4_get E (mem h) (PHYSICAL_MEMORY_OFFSET h + cr3 h) i in
      pt_translate E t rip (mem h) \<notin> {None, Some 0} \<and> pt_translate E t rsp (mem h) \<notin> {None, Some 0}
      \<and> pte_addr E tgt = pte_addr E cur \<and> pte_flags E tgt = pte_flags E cur
      \<and> x_contains (pte_flags E tgt) (X_PRESENT E) \<and> \<not> x_contains (pte_flags E tgt) (X_USER_ACCESSIBLE E)
      \<and> (0 \<notin> {GUARD_CODE_HIGH_VIRT h, GUARD_STACK_HIGH_VIRT h, GUARD_CODE_PHYS h, GUARD_STACK_PHYS h} \<longrightarrow>
           pt_translate E t (GUARD_CODE_HIGH_VIRT h) (mem h) = Some (GUARD_CODE_PHYS h)
         \<and> pt_translate E t (GUARD_STACK_HIGH_VIRT h) (mem h) = Some (GUARD_STACK_PHYS h)))"

lemma preflight_guards_high:
  assumes "preflight_guards E t h = Some z"
    "0 \<notin> {GUARD_CODE_HIGH_VIRT h, GUARD_STACK_HIGH_VIRT h, GUARD_CODE_PHYS h, GUARD_STACK_PHYS h}"
  shows "pt_translate E t (GUARD_CODE_HIGH_VIRT h) (mem h) = Some (GUARD_CODE_PHYS h)"
    "pt_translate E t (GUARD_STACK_HIGH_VIRT h) (mem h) = Some (GUARD_STACK_PHYS h)"
proof -
  have nz: "GUARD_CODE_HIGH_VIRT h \<noteq> 0" "GUARD_STACK_HIGH_VIRT h \<noteq> 0" "GUARD_CODE_PHYS h \<noteq> 0" "GUARD_STACK_PHYS h \<noteq> 0"
    using assms(2) by auto
  then have c: "GUARD_CODE_HIGH_VIRT h \<noteq> 0 \<and> GUARD_STACK_HIGH_VIRT h \<noteq> 0 \<and> GUARD_CODE_PHYS h \<noteq> 0 \<and> GUARD_STACK_PHYS h \<noteq> 0" by blast
  note d = assms(1) [unfolded preflight_guards_def Let_def if_P [OF c] bind_eq_Some_conv]
  obtain p q where "translate_u64 E t (GUARD_CODE_HIGH_VIRT h) h = Some p" "translate_u64 E t (GUARD_STACK_HIGH_VIRT h) h = Some q"
      "(if p \<noteq> GUARD_CODE_PHYS h \<or> q \<noteq> GUARD_STACK_PHYS h then None else Some ()) = Some z"
    using d by (elim exE conjE) (rule that; assumption)
  then show "pt_translate E t (GUARD_CODE_HIGH_VIRT h) (mem h) = Some (GUARD_CODE_PHYS h)"
    "pt_translate E t (GUARD_STACK_HIGH_VIRT h) (mem h) = Some (GUARD_STACK_PHYS h)"
    using nz by (auto intro: translate_nonzero split: if_splits)
qed

lemma preflight_spec:
  assumes "preflight_check_before_cr3_write E f h = Some h'" "frame_start_address f = Some a" "cr3 h \<noteq> pa_u64 a"
    "regs_at E (reg_reads h) = (rip, rsp, rbp)"
  shows "keeps_kernel E (target_table a h) rip rsp h" "h' = h\<lparr>reg_reads := reg_reads h + 1\<rparr>"
proof -
  let ?h = "h\<lparr>reg_reads := reg_reads h + 1\<rparr>" and ?t = "target_table a h"
  have r: "read_rip_rsp_rbp E h = ((rip, rsp, rbp), ?h)" using assms(4) by (simp add: read_rip_rsp_rbp_def)
  note d = assms(1) [unfolded preflight_check_before_cr3_write_def assms(2) Let_def r prod.case bind.bind_lunit if_not_P [OF assms(3)]]
  obtain m p q y ph cur tgt z w where m: "init_offset_page_table_for_root E f ?h = Some m" "translate_u64 E m rip ?h = Some p"
      "translate_u64 E m rsp ?h = Some q" "(if p = 0 \<or> q = 0 then None else Some ()) = Some y" "active_level_4_table E ?h = Some cur"
      "PhysAddr_new E (pa_u64 a) = Some ph" "phys_to_virt E ph ?h = Some tgt" "preflight_physmap E cur tgt ?h = Some z"
      "preflight_guards E m ?h = Some w" "?h = h'"
    using d unfolding bind_eq_Some_conv option.inject by (elim exE conjE) (rule that; assumption)
  have pq: "p \<noteq> 0" "q \<noteq> 0" "ph = pa_u64 a" using m(4,6) by (auto simp: PhysAddr_new_def split: if_splits)
  have t: "m = ?t" using m(1) assms(2) by (auto simp: init_offset_page_table_for_root_def target_table_def PhysAddr_new_def VirtAddr_new_def
      phys_to_virt_def chk_add_def split: if_splits)
  have "cur = PHYSICAL_MEMORY_OFFSET h + cr3 h" "tgt = l4_table ?t"
    using m(5,7) pq by (auto simp: active_level_4_table_def phys_to_virt_def chk_add_def VirtAddr_new_def target_table_def split: if_splits)
  then show "keeps_kernel E ?t rip rsp h"
    using m(8) translate_nonzero [OF m(2) pq(1)] translate_nonzero [OF m(3) pq(2)] preflight_guards_high [OF m(9)] pq(1,2) t
    by (auto simp: keeps_kernel_def preflight_physmap_def Let_def split: if_splits)
  show "h' = ?h" using m(10) by simp
qed

text \<open>C14: the checked switch of address space, \<open>switch_address_space\<close>, never leaves the kernel on a table it
  could not run on: without a root, or while real switching is not enabled, nothing changes; otherwise,
  if it returns, CR3 holds the requested root, memory is unchanged, and unless CR3 already held that root
  the table keeps the kernel mapped (instruction and stack pointers, the physical memory map, the
  high aliases of the configured guard addresses).  The unchecked \<open>switch_address_space_quiet\<close> that other
  paths use is not covered.\<close>

theorem switch_keeps_kernel_mapped:
  assumes "switch_address_space E root h = Some h'" "regs_at E (reg_reads h) = (rip, rsp, rbp)"
  shows "mem h' = mem h \<and> (root = None \<or> \<not> ALLOW_REAL_CR3_SWITCH h \<longrightarrow> h' = h)
    \<and> (\<forall>f. root = Some f \<and> ALLOW_REAL_CR3_SWITCH h \<longrightarrow>
        (\<exists>a. frame_start_address f = Some a \<and> cr3 h' = pa_u64 a
          \<and> (cr3 h = pa_u64 a \<or> keeps_kernel E (target_table a h) rip rsp h)))"
proof (cases "root = None \<or> \<not> ALLOW_REAL_CR3_SWITCH h")
  case True
  then show ?thesis using assms(1) by (auto simp: switch_address_space_def split: option.splits)
next
  case False
  then obtain f where f: "root = Some f" "ALLOW_REAL_CR3_SWITCH h" by (cases root) auto
  obtain h1 where h1: "preflight_check_before_cr3_write E f h = Some h1" "switch_address_space_quiet E f h1 = Some h'"
    using assms(1) f by (auto simp: switch_address_space_def split: bind_splits)
  then obtain a where a: "frame_start_address f = Some a" and q: "h' = h1\<lparr>cr3 := pa_u64 a\<rparr>"
    by (auto simp: switch_address_space_quiet_def PhysAddr_new_def Let_def split: bind_splits if_splits)
  have "mem h1 = mem h \<and> (cr3 h = pa_u64 a \<or> keeps_kernel E (target_table a h) rip rsp h)"
  proof (cases "cr3 h = pa_u64 a")
    case True
    then have "h1 = h" using h1(1) a by (auto simp: preflight_check_before_cr3_write_def split: bind_splits)
    then show ?thesis using True by simp
  qed (use preflight_spec [OF h1(1) a _ assms(2)] in simp)
  then show ?thesis using q a f by simp
qed

end
