(* ===== verification/Endpoint.thy ===== *)
theory Endpoint
  imports Prelude
begin

text \<open>
  The IPC endpoint (\<open>kernel/ipc.rs\<close>, \<open>struct Endpoint\<close> and its methods): one receive waiter, and a
  send and a reply queue held as arrays with a length, whose order the code leaves abstract
  (removal swaps in the last element).  The locale \<open>task_bag\<close> is what a client of such a queue
  relies on: a bounded duplicate-free collection of task indices; it is interpreted on the send
  queue and on the reply queue.
\<close>

type_synonym TaskId = u64
type_synonym EndpointId = usize
type_synonym AddressSpaceId = usize

definition MAX_TASKS :: usize where
  "MAX_TASKS = 3"

definition MAX_ENDPOINTS :: usize where
  "MAX_ENDPOINTS = 2"

section \<open>The endpoint and its methods\<close>

record Endpoint =
  ep_id :: EndpointId
  ep_owner :: "TaskId option"
  is_closed :: bool
  recv_waiter :: "usize option"
  send_queue :: "usize list"
  sq_len :: usize
  reply_queue :: "usize list"
  e_rq_len :: usize

definition Endpoint_new :: "EndpointId \<Rightarrow> Endpoint" where
  "Endpoint_new i = \<lparr>ep_id = i, ep_owner = None, is_closed = False, recv_waiter = None,
     send_queue = replicate MAX_TASKS 0, sq_len = 0, reply_queue = replicate MAX_TASKS 0, e_rq_len = 0\<rparr>"

definition send_queue_contains :: "Endpoint \<Rightarrow> usize \<Rightarrow> bool" where
  "send_queue_contains e idx = array_contains (send_queue e) (sq_len e) idx"

definition reply_queue_contains :: "Endpoint \<Rightarrow> usize \<Rightarrow> bool" where
  "reply_queue_contains e idx = array_contains (reply_queue e) (e_rq_len e) idx"

definition try_enqueue_sender :: "Endpoint \<Rightarrow> usize \<Rightarrow> bool \<times> Endpoint" where
  "try_enqueue_sender e idx =
     (if sq_len e \<ge> MAX_TASKS then (False, e)
      else if send_queue_contains e idx then (True, e)
      else (True, e\<lparr>send_queue := (send_queue e)[sq_len e := idx], sq_len := sq_len e + 1\<rparr>))"

definition dequeue_sender :: "Endpoint \<Rightarrow> usize option \<times> Endpoint" where
  "dequeue_sender e =
     (if sq_len e = 0 then (None, e)
      else (let last_pos = sq_len e - 1 in (Some (send_queue e ! last_pos), e\<lparr>sq_len := sq_len e - 1\<rparr>)))"

definition try_enqueue_reply_waiter :: "Endpoint \<Rightarrow> usize \<Rightarrow> bool \<times> Endpoint" where
  "try_enqueue_reply_waiter e idx =
     (if e_rq_len e \<ge> MAX_TASKS then (False, e)
      else if reply_queue_contains e idx then (True, e)
      else (True, e\<lparr>reply_queue := (reply_queue e)[e_rq_len e := idx], e_rq_len := e_rq_len e + 1\<rparr>))"

definition remove_reply_waiter_at :: "Endpoint \<Rightarrow> usize \<Rightarrow> usize option \<times> Endpoint" where
  "remove_reply_waiter_at e pos =
     (if pos \<ge> e_rq_len e then (None, e)
      else (Some (reply_queue e ! pos),
            e\<lparr>reply_queue := swap_remove (reply_queue e) (e_rq_len e) pos, e_rq_len := e_rq_len e - 1\<rparr>))"

definition remove_sender_idx :: "Endpoint \<Rightarrow> usize \<Rightarrow> bool \<times> Endpoint" where
  "remove_sender_idx e idx =
     (case find_pos (\<lambda>x. x = idx) (take (sq_len e) (send_queue e)) of
        Some pos \<Rightarrow> (True, e\<lparr>send_queue := swap_remove (send_queue e) (sq_len e) pos, sq_len := sq_len e - 1\<rparr>)
      | None \<Rightarrow> (False, e))"

section \<open>A bounded bag of tasks\<close>

definition sq :: "Endpoint \<Rightarrow> usize list" where
  "sq e = take (sq_len e) (send_queue e)"

definition rq :: "Endpoint \<Rightarrow> usize list" where
  "rq e = take (e_rq_len e) (reply_queue e)"

definition ep_wf :: "Endpoint \<Rightarrow> bool" where
  "ep_wf e \<longleftrightarrow> length (send_queue e) = MAX_TASKS \<and> sq_len e \<le> MAX_TASKS \<and> distinct (sq e)
            \<and> length (reply_queue e) = MAX_TASKS \<and> e_rq_len e \<le> MAX_TASKS \<and> distinct (rq e)"

locale task_bag =
  fixes invar :: "'q \<Rightarrow> bool"
    and elems :: "'q \<Rightarrow> usize list"
    and push :: "'q \<Rightarrow> usize \<Rightarrow> bool \<times> 'q"
  assumes invar_distinct: "invar q \<Longrightarrow> distinct (elems q) \<and> length (elems q) \<le> MAX_TASKS"
    and push_room: "invar q \<Longrightarrow> length (elems q) < MAX_TASKS \<Longrightarrow> push q x = (b, q') \<Longrightarrow>
      b \<and> invar q' \<and> set (elems q') = insert x (set (elems q))"
    and push_full: "invar q \<Longrightarrow> length (elems q) = MAX_TASKS \<Longrightarrow> push q x = (False, q)"
begin

text \<open>A queue that holds only some of the tasks other than \<open>x\<close> always takes \<open>x\<close>.\<close>

lemma push_other:
  assumes "invar q" "set (elems q) \<subseteq> {..<MAX_TASKS} - {x}" "x < MAX_TASKS" "push q x = (b, q')"
  shows "b \<and> invar q' \<and> set (elems q') = insert x (set (elems q))"
proof -
  have "length (elems q) = card (set (elems q))"
    using invar_distinct [OF assms(1)] by (simp add: distinct_card)
  also have "\<dots> \<le> card ({..<MAX_TASKS} - {x})" using assms(2) by (intro card_mono) auto
  also have "\<dots> < MAX_TASKS" using assms(3) by simp
  finally show ?thesis using push_room [OF assms(1) _ assms(4)] by blast
qed

text \<open>No task is ever in a queue twice, whatever sequence of tasks is pushed.\<close>

lemma push_all_distinct:
  assumes "invar q"
  shows "invar (fold (\<lambda>x q. snd (push q x)) xs q)"
  using assms
proof (induction xs arbitrary: q)
  case (Cons x xs)
  obtain b q' where p: "push q x = (b, q')" by fastforce
  consider "length (elems q) < MAX_TASKS" | "length (elems q) = MAX_TASKS"
    using invar_distinct [OF Cons.prems] by linarith
  then have "invar q'"
    using push_room [OF Cons.prems _ p] push_full [OF Cons.prems, of x] p Cons.prems by cases auto
  with Cons.IH p show ?case by simp
qed simp

text \<open>Pushing no more tasks than there is room for loses none of them.\<close>

lemma push_all_set:
  assumes "invar q" "card (set (elems q) \<union> set xs) \<le> MAX_TASKS"
  shows "set (elems (fold (\<lambda>x q. snd (push q x)) xs q)) = set (elems q) \<union> set xs"
  using assms
proof (induction xs arbitrary: q)
  case (Cons x xs)
  obtain b q' where p: "push q x = (b, q')" by fastforce
  note d = invar_distinct [OF Cons.prems(1)]
  have "invar q' \<and> set (elems q') = insert x (set (elems q))"
  proof (cases "length (elems q) < MAX_TASKS")
    case False
    then have "card (set (elems q) \<union> set (x # xs)) \<le> card (set (elems q))"
      using Cons.prems(2) d by (simp add: distinct_card)
    then have "set (elems q) = set (elems q) \<union> set (x # xs)" by (intro card_seteq) auto
    then have "x \<in> set (elems q)" by auto
    moreover have "q' = q" using push_full [OF Cons.prems(1), of x] False d p by simp
    ultimately show ?thesis using Cons.prems(1) by auto
  qed (use push_room [OF Cons.prems(1) _ p] in blast)
  then show ?case using Cons.IH [of q'] Cons.prems(2) p by simp
qed simp

end

lemma push_sender:
  assumes "ep_wf e" "sq_len e < MAX_TASKS"
  shows "fst (try_enqueue_sender e x) \<and> ep_wf (snd (try_enqueue_sender e x))
    \<and> set (sq (snd (try_enqueue_sender e x))) = insert x (set (sq e)) \<and> rq (snd (try_enqueue_sender e x)) = rq e"
proof (cases "send_queue_contains e x")
  case True
  then have "x \<in> set (sq e)" using assms by (simp add: send_queue_contains_def sq_def ep_wf_def array_contains_iff)
  with True assms show ?thesis by (auto simp: try_enqueue_sender_def)
next
  case False
  let ?e = "e\<lparr>send_queue := (send_queue e)[sq_len e := x], sq_len := sq_len e + 1\<rparr>"
  have "x \<notin> set (sq e)"
    using False assms by (simp add: send_queue_contains_def sq_def ep_wf_def array_contains_iff)
  moreover have "sq ?e = sq e @ [x]" using assms by (simp add: sq_def ep_wf_def take_push)
  ultimately show ?thesis using False assms by (simp add: try_enqueue_sender_def ep_wf_def rq_def)
qed

lemma push_reply_waiter:
  assumes "ep_wf e" "e_rq_len e < MAX_TASKS"
  shows "fst (try_enqueue_reply_waiter e x) \<and> ep_wf (snd (try_enqueue_reply_waiter e x))
    \<and> set (rq (snd (try_enqueue_reply_waiter e x))) = insert x (set (rq e)) \<and> sq (snd (try_enqueue_reply_waiter e x)) = sq e"
proof (cases "reply_queue_contains e x")
  case True
  then have "x \<in> set (rq e)" using assms by (simp add: reply_queue_contains_def rq_def ep_wf_def array_contains_iff)
  with True assms show ?thesis by (auto simp: try_enqueue_reply_waiter_def)
next
  case False
  let ?e = "e\<lparr>reply_queue := (reply_queue e)[e_rq_len e := x], e_rq_len := e_rq_len e + 1\<rparr>"
  have "x \<notin> set (rq e)"
    using False assms by (simp add: reply_queue_contains_def rq_def ep_wf_def array_contains_iff)
  moreover have "rq ?e = rq e @ [x]" using assms by (simp add: rq_def ep_wf_def take_push)
  ultimately show ?thesis using False assms by (simp add: try_enqueue_reply_waiter_def ep_wf_def sq_def)
qed

lemma length_sq: "ep_wf e \<Longrightarrow> length (sq e) = sq_len e"
  and length_rq: "ep_wf e \<Longrightarrow> length (rq e) = e_rq_len e"
  by (simp_all add: ep_wf_def sq_def rq_def)

interpretation send_bag: task_bag ep_wf sq try_enqueue_sender
proof (unfold_locales, goal_cases)
  case (1 e)
  then show ?case by (simp add: ep_wf_def length_sq)
next
  case (2 e x b e')
  with push_sender [of e x] show ?case by (simp add: length_sq)
next
  case (3 e x)
  then show ?case by (simp add: try_enqueue_sender_def length_sq)
qed

interpretation reply_bag: task_bag ep_wf rq try_enqueue_reply_waiter
proof (unfold_locales, goal_cases)
  case (1 e)
  then show ?case by (simp add: ep_wf_def length_rq)
next
  case (2 e x b e')
  with push_reply_waiter [of e x] show ?case by (simp add: length_rq)
next
  case (3 e x)
  then show ?case by (simp add: try_enqueue_reply_waiter_def length_rq)
qed

section \<open>Removal\<close>

lemma dequeue_sender_spec:
  assumes "ep_wf e" "dequeue_sender e = (Some i, e')"
  shows "ep_wf e' \<and> i \<in> set (sq e) \<and> set (sq e') = set (sq e) - {i} \<and> sq_len e' < sq_len e
      \<and> rq e' = rq e \<and> e' = e\<lparr>sq_len := sq_len e - 1\<rparr>"
proof -
  obtain n where n: "sq_len e = Suc n" "n < MAX_TASKS" "i = send_queue e ! n" "e' = e\<lparr>sq_len := n\<rparr>"
    using assms by (cases "sq_len e") (auto simp: dequeue_sender_def ep_wf_def Let_def)
  have "sq e = sq e' @ [i]"
    using n assms(1) by (simp add: sq_def ep_wf_def take_Suc_conv_app_nth)
  then show ?thesis using assms(1) n by (auto simp: ep_wf_def rq_def)
qed

lemma dequeue_sender_None: "ep_wf e \<Longrightarrow> dequeue_sender e = (None, e') \<Longrightarrow> e' = e \<and> sq e = []"
  by (auto simp: dequeue_sender_def sq_def Let_def split: if_splits)

lemma remove_reply_waiter_at_spec:
  assumes "ep_wf e" "pos < e_rq_len e" "remove_reply_waiter_at e pos = (r, e')"
  shows "r = Some (rq e ! pos) \<and> ep_wf e' \<and> set (rq e') = set (rq e) - {rq e ! pos} \<and> sq e' = sq e
      \<and> e_rq_len e' = e_rq_len e - 1"
proof -
  have "pos < e_rq_len e" "e_rq_len e \<le> length (reply_queue e)" "distinct (take (e_rq_len e) (reply_queue e))"
    using assms by (simp_all add: ep_wf_def rq_def)
  note d = distinct_swap_remove [OF this]
  have "rq e ! pos = reply_queue e ! pos" using assms(2) by (simp add: rq_def)
  moreover have "e' = e\<lparr>reply_queue := swap_remove (reply_queue e) (e_rq_len e) pos, e_rq_len := e_rq_len e - 1\<rparr>"
      "r = Some (reply_queue e ! pos)"
    using assms(2,3) by (simp_all add: remove_reply_waiter_at_def)
  moreover have "e_rq_len e - 1 \<le> MAX_TASKS" using assms(1) unfolding ep_wf_def by linarith
  ultimately show ?thesis using assms(1) d by (simp add: ep_wf_def sq_def rq_def)
qed

lemma remove_sender_idx_spec:
  assumes "ep_wf e" "remove_sender_idx e idx = (b, e')"
  shows "b = (idx \<in> set (sq e)) \<and> ep_wf e' \<and> set (sq e') = set (sq e) - {idx} \<and> rq e' = rq e"
proof (cases "find_pos (\<lambda>x. x = idx) (sq e)")
  case None
  then have "b = False" "e' = e"
    using assms(2) by (simp_all add: remove_sender_idx_def sq_def)
  moreover have "idx \<notin> set (sq e)" using None by (auto simp: find_pos_None)
  ultimately have "idx \<notin> set (sq e)" "b = False" "e' = e" by blast+
  then show ?thesis using assms(1) by simp
next
  case (Some pos)
  have p: "pos < sq_len e" "send_queue e ! pos = idx" "idx \<in> set (sq e)"
    using find_pos_Some [OF Some] by (auto simp: sq_def intro: nth_mem)
  have "pos < sq_len e" "sq_len e \<le> length (send_queue e)" "distinct (take (sq_len e) (send_queue e))"
    using assms p by (simp_all add: ep_wf_def sq_def)
  note d = distinct_swap_remove [OF this]
  have "b = True" "e' = e\<lparr>send_queue := swap_remove (send_queue e) (sq_len e) pos, sq_len := sq_len e - 1\<rparr>"
    using assms(2) Some by (simp_all add: remove_sender_idx_def sq_def)
  moreover have "sq_len e - 1 \<le> MAX_TASKS" using assms(1) unfolding ep_wf_def by linarith
  ultimately show ?thesis using assms(1) d p by (simp add: ep_wf_def sq_def rq_def)
qed

text \<open>Repeated dequeuing, until the send queue reports that it is empty.\<close>

function drain_senders :: "Endpoint \<Rightarrow> usize list \<times> Endpoint" where
  "drain_senders e = (case dequeue_sender e of
      (None, e') \<Rightarrow> ([], e')
    | (Some j, e') \<Rightarrow> (case drain_senders e' of (js, e'') \<Rightarrow> (j # js, e'')))"
  by auto
termination
  by (relation "measure sq_len") (auto simp: dequeue_sender_def Let_def split: if_splits)

declare drain_senders.simps [simp del]

lemma drain_senders_spec:
  "ep_wf e \<Longrightarrow> drain_senders e = (js, e') \<Longrightarrow> distinct js \<and> set js = set (sq e) \<and> sq e' = [] \<and> rq e' = rq e"
proof (induction e arbitrary: js e' rule: drain_senders.induct)
  case (1 e)
  obtain r e1 where d: "dequeue_sender e = (r, e1)" by fastforce
  show ?case
  proof (cases r)
    case None
    then show ?thesis using dequeue_sender_None [OF 1(2), of e1] 1(3) d by (simp add: drain_senders.simps [of e])
  next
    case (Some j)
    obtain ks e2 where k: "drain_senders e1 = (ks, e2)" by fastforce
    note s = dequeue_sender_spec [OF 1(2) d [unfolded Some]]
    have "distinct ks \<and> set ks = set (sq e1) \<and> sq e2 = [] \<and> rq e2 = rq e1"
      using 1(1) [OF d [symmetric] Some _ k] s by blast
    moreover have "js = j # ks" "e' = e2" using 1(3) d Some k by (simp_all add: drain_senders.simps [of e])
    ultimately show ?thesis using s by auto
  qed
qed

lemma Endpoint_new_wf: "ep_wf (Endpoint_new i)" "sq (Endpoint_new i) = []" "rq (Endpoint_new i) = []"
  by (simp_all add: Endpoint_new_def ep_wf_def sq_def rq_def)

lemma try_enqueue_sender_rq: "rq (snd (try_enqueue_sender e x)) = rq e"
  by (simp add: try_enqueue_sender_def rq_def)

text \<open>C21: the send queue neither loses a sender nor delivers one twice.  Whatever tasks are enqueued, in whatever
  order and however often, into a fresh endpoint, as long as they are at most MAX_TASKS different ones: the
  queue then holds exactly these tasks, each once; a further task is accepted exactly when there is room;
  one dequeue returns a queued task and removes exactly it; and dequeuing until the queue is empty returns
  each enqueued task exactly once.  The reply queue is not touched.\<close>

theorem send_queue_round:
  assumes "e = fold (\<lambda>x e. snd (try_enqueue_sender e x)) xs (Endpoint_new i)" "card (set xs) \<le> MAX_TASKS"
  shows "distinct (sq e) \<and> set (sq e) = set xs \<and> rq e = []
    \<and> (\<forall>x. fst (try_enqueue_sender e x) \<longleftrightarrow> card (set xs) < MAX_TASKS)
    \<and> (xs \<noteq> [] \<longrightarrow> (\<exists>j e'. dequeue_sender e = (Some j, e') \<and> j \<in> set xs \<and> set (sq e') = set xs - {j} \<and> distinct (sq e') \<and> rq e' = []))
    \<and> (\<exists>ys e'. drain_senders e = (ys, e') \<and> distinct ys \<and> set ys = set xs \<and> sq e' = [] \<and> rq e' = [])"
proof -
  have wf: "ep_wf e" using send_bag.push_all_distinct [OF Endpoint_new_wf(1)] by (simp add: assms(1))
  have s: "set (sq e) = set xs" using send_bag.push_all_set [OF Endpoint_new_wf(1), of i xs] assms by (simp add: Endpoint_new_wf)
  have "rq (fold (\<lambda>x e. snd (try_enqueue_sender e x)) xs e0) = rq e0" for e0
    by (induction xs arbitrary: e0) (simp_all add: try_enqueue_sender_rq)
  then have r: "rq e = []" by (simp add: assms(1) Endpoint_new_wf)
  have d: "distinct (sq e)" using send_bag.invar_distinct [OF wf] by blast
  then have l: "sq_len e = card (set xs)" using length_sq [OF wf] s by (metis distinct_card)
  have deq: "\<exists>j e'. dequeue_sender e = (Some j, e') \<and> j \<in> set xs \<and> set (sq e') = set xs - {j} \<and> distinct (sq e') \<and> rq e' = []" if "xs \<noteq> []"
  proof -
    have "sq e \<noteq> []" using that s by auto
    then obtain j e' where j: "dequeue_sender e = (Some j, e')"
      using dequeue_sender_None [OF wf] by (cases "dequeue_sender e"; cases "fst (dequeue_sender e)") auto
    note k = dequeue_sender_spec [OF wf j]
    then have "distinct (sq e')" using send_bag.invar_distinct [of e'] by blast
    then show ?thesis using j k s r by auto
  qed
  obtain ys e' where "drain_senders e = (ys, e')" by fastforce
  moreover have "fst (try_enqueue_sender e x) \<longleftrightarrow> card (set xs) < MAX_TASKS" for x
    using l by (auto simp: try_enqueue_sender_def)
  ultimately show ?thesis using d s r deq drain_senders_spec [OF wf] by simp
qed

theorem send_queue_round_witness:
  "\<exists>e. e = fold (\<lambda>x e. snd (try_enqueue_sender e x)) [1, 2, 1] (Endpoint_new 0) \<and> set (sq e) = {1, 2}
    \<and> (\<exists>j e'. dequeue_sender e = (Some j, e') \<and> j \<in> {1, 2} \<and> set (sq e') = {1, 2} - {j})
    \<and> (\<exists>ys e'. drain_senders e = (ys, e') \<and> distinct ys \<and> set ys = {1, 2} \<and> sq e' = [])"
proof -
  have s: "set [1, 2, 1 :: usize] = {1, 2}" "[1, 2, 1 :: usize] \<noteq> []" by auto
  then have c: "card (set [1, 2, 1 :: usize]) \<le> MAX_TASKS" by (simp only: s(1)) (simp add: MAX_TASKS_def)
  from send_queue_round [OF refl c, of 0] s show ?thesis by metis
qed

end
