(* ===== verification/Kernel_State.thy ===== *)
theory Kernel_State
  imports Arch_Paging Endpoint
begin

unbundle bit_operations_syntax

text \<open>
  The kernel's state (\<open>kernel/mod.rs\<close>): tasks, blocked reasons, syscalls, log events, counters and
  \<open>KernelState\<close>, its construction, and the event log, a ring buffer that keeps the last
  \<open>EVENT_LOG_CAP\<close> events.  Where a constructor name would occur in two enums of the source it
  carries the enum's name as a prefix (\<open>Sys\<close> for \<open>Syscall\<close>, \<open>Act\<close> for \<open>KernelAction\<close>).  The field \<open>hw\<close> is the
  machine the kernel acts on.  The fields only the features \<open>kill_cleanup_test\<close> and \<open>pf_demo\<close>
  declare are never read by the code and are left out.
\<close>

section \<open>Constants and types\<close>

definition EVENT_LOG_CAP :: usize where "EVENT_LOG_CAP = 1024"
definition KERNEL_ASID_INDEX :: usize where "KERNEL_ASID_INDEX = 0"
definition FIRST_USER_ASID_INDEX :: usize where "FIRST_USER_ASID_INDEX = 1"
definition TASK0_INDEX :: usize where "TASK0_INDEX = 0"
definition TASK1_INDEX :: usize where "TASK1_INDEX = 1"
definition TASK2_INDEX :: usize where "TASK2_INDEX = 2"
definition TASK0_ID :: TaskId where "TASK0_ID = 1"
definition TASK1_ID :: TaskId where "TASK1_ID = 2"
definition TASK2_ID :: TaskId where "TASK2_ID = 3"
definition DEMO_VIRT_PAGE_INDEX_TASK0 :: u64 where "DEMO_VIRT_PAGE_INDEX_TASK0 = 0x100"
definition DEMO_VIRT_PAGE_INDEX_USER :: u64 where "DEMO_VIRT_PAGE_INDEX_USER = 0x110"
definition IPC_DEMO_EP0 :: EndpointId where "IPC_DEMO_EP0 = 0"

datatype TaskState = Ready | Running | Blocked | Dead

datatype BlockedReason =
    Sleep
  | IpcRecv (br_ep: EndpointId)
  | IpcSend (br_ep: EndpointId)
  | IpcReply (br_partner: TaskId) (br_ep: EndpointId)

datatype Syscall =
    SysIpcRecv (sc_ep: EndpointId)
  | SysIpcSend (sc_ep: EndpointId) (sc_msg: u64)
  | SysIpcReply (sc_ep: EndpointId) (sc_msg: u64)
  | SysPageMap (sc_page: VirtPage) (sc_flags: PageFlags)
  | SysPageUnmap (sc_page: VirtPage)

record Task =
  t_id :: TaskId
  t_state :: TaskState
  priority :: u8
  runtime_ticks :: u64
  time_slice_used :: u64
  address_space_id :: AddressSpaceId
  blocked_reason :: "BlockedReason option"
  last_msg :: "u64 option"
  last_reply :: "u64 option"
  last_syscall_ret :: "u64 option"
  last_syscall_ret_unread :: bool
  pending_send_msg :: "u64 option"
  pending_syscall :: "Syscall option"

datatype TaskKillReason = UserPageFault u64 u64 u64 | DemoInjected u64

datatype LogEvent =
    TickStarted u64 | TimerUpdated u64 | FrameAllocated
  | TaskSwitched TaskId | TaskStateChanged TaskId TaskState
  | ReadyQueued TaskId | ReadyDequeued TaskId | WaitQueued TaskId | WaitDequeued TaskId
  | RuntimeUpdated TaskId u64 | QuantumExpired TaskId u64
  | MemActionApplied TaskId AddressSpaceId MemAction
  | SyscallIssued TaskId | SyscallHandled TaskId
  | IpcRecvCalled TaskId EndpointId | IpcRecvBlocked TaskId EndpointId
  | IpcSendCalled TaskId EndpointId u64 | IpcSendBlocked TaskId EndpointId
  | IpcDelivered TaskId TaskId EndpointId u64
  | IpcReplyCalled TaskId EndpointId TaskId | IpcReplyDelivered TaskId TaskId EndpointId
  | TaskKilled TaskId TaskKillReason

datatype KernelActivity = Idle | UpdatingTimer | AllocatingFrame | MappingDemoPage

datatype KernelAction = ActNone | ActUpdateTimer | ActAllocateFrame | ActMemDemo

record KernelCounters =
  sched_switches :: u64
  ipc_send_fast :: u64
  ipc_send_slow :: u64
  ipc_recv_fast :: u64
  ipc_recv_slow :: u64
  ipc_reply_delivered :: u64
  task_killed_user_pf :: u64
  task_killed_demo_injected :: u64

definition KernelCounters_new :: KernelCounters where
  "KernelCounters_new = \<lparr>sched_switches = 0, ipc_send_fast = 0, ipc_send_slow = 0, ipc_recv_fast = 0,
     ipc_recv_slow = 0, ipc_reply_delivered = 0, task_killed_user_pf = 0, task_killed_demo_injected = 0\<rparr>"

record 'm KernelState =
  phys_mem :: FrameAlloc
  tick_count :: u64
  time_ticks :: u64
  should_halt :: bool
  activity :: KernelActivity
  address_spaces :: "AddressSpace list"
  tasks :: "Task list"
  num_tasks :: usize
  current_task :: usize
  ready_queue :: "usize list"
  rq_len :: usize
  wait_queue :: "usize list"
  wq_len :: usize
  event_log :: "LogEvent option list"
  event_log_head :: usize
  event_log_len :: usize
  quantum :: u64
  mem_demo_mapped :: "bool list"
  mem_demo_stage :: "u8 list"
  mem_demo_frame :: "PhysFrame option list"
  endpoints :: "Endpoint list"
  demo_msgs_delivered :: u8
  demo_replies_sent :: u8
  demo_sent_by_task2 :: bool
  demo_sent_by_task1 :: bool
  demo_early_sent_by_task0 :: bool
  counters :: KernelCounters
  halt_dumped_no_user_tasks :: bool
  hw :: "'m Machine"

text \<open>Writing one task, one endpoint or one address space in place.\<close>

definition upd_task :: "usize \<Rightarrow> (Task \<Rightarrow> Task) \<Rightarrow> 'm KernelState \<Rightarrow> 'm KernelState" where
  "upd_task i f s = s\<lparr>tasks := (tasks s)[i := f (tasks s ! i)]\<rparr>"

definition upd_endpoint :: "usize \<Rightarrow> (Endpoint \<Rightarrow> Endpoint) \<Rightarrow> 'm KernelState \<Rightarrow> 'm KernelState" where
  "upd_endpoint j f s = s\<lparr>endpoints := (endpoints s)[j := f (endpoints s ! j)]\<rparr>"

definition upd_aspace :: "usize \<Rightarrow> AddressSpace \<Rightarrow> 'm KernelState \<Rightarrow> 'm KernelState" where
  "upd_aspace i a s = s\<lparr>address_spaces := (address_spaces s)[i := a]\<rparr>"

section \<open>Construction\<close>

definition new_task :: "TaskId \<Rightarrow> TaskState \<Rightarrow> u8 \<Rightarrow> AddressSpaceId \<Rightarrow> Task" where
  "new_task i st prio a = \<lparr>t_id = i, t_state = st, priority = prio, runtime_ticks = 0, time_slice_used = 0,
     address_space_id = a, blocked_reason = None, last_msg = None, last_reply = None,
     last_syscall_ret = None, last_syscall_ret_unread = False, pending_send_msg = None, pending_syscall = None\<rparr>"

definition on_kernel_state_init :: "'m Env \<Rightarrow> 'm KernelState \<Rightarrow> 'm KernelState" where
  "on_kernel_state_init E ks =
     (if endpoint_close_test E then upd_endpoint IPC_DEMO_EP0 (\<lambda>e. e\<lparr>ep_owner := Some TASK2_ID\<rparr>) ks else ks)"

definition new_user_root :: "'m Env \<Rightarrow> usize \<Rightarrow> AddressSpace list \<times> FrameAlloc \<times> 'm Machine
    \<Rightarrow> (AddressSpace list \<times> FrameAlloc \<times> 'm Machine) option" where
  "new_user_root E as_idx z = (case z of (ass, pm, h) \<Rightarrow> do {
     (r, pm1) \<leftarrow> allocate_new_l4_table (phys_addr_ok E) pm;
     (case r of
        None \<Rightarrow> Some (ass, pm1, h)
      | Some user_root \<Rightarrow> do {
          h1 \<leftarrow> init_user_pml4_from_current E user_root h;
          Some (ass[as_idx := (ass ! as_idx)\<lparr>root_page_frame := Some user_root\<rparr>], pm1, h1)
        })
   })"

definition KernelState_new :: "'m Env \<Rightarrow> region list \<Rightarrow> 'm Machine \<Rightarrow> 'm KernelState option" where
  "KernelState_new E boot_map h = do {
     pm \<leftarrow> BootInfoFrameAllocator_new boot_map;
     let root_frame_for_task0 = PhysFrame (cr3 h div PAGE_SIZE);
         ass0 = [new_kernel\<lparr>root_page_frame := Some root_frame_for_task0\<rparr>, new_user, new_user]
     in do {
     (ass, pm1, h1) \<leftarrow> foldM (new_user_root E) [FIRST_USER_ASID_INDEX..<MAX_TASKS] (ass0, pm, h);
     Some (on_kernel_state_init E
       \<lparr>phys_mem = pm1, tick_count = 0, time_ticks = 0, should_halt = False, activity = Idle,
        address_spaces = ass,
        tasks = [new_task TASK0_ID Running 1 KERNEL_ASID_INDEX,
                 new_task TASK1_ID Ready 3 FIRST_USER_ASID_INDEX,
                 new_task TASK2_ID Ready 2 (FIRST_USER_ASID_INDEX + 1)],
        num_tasks = MAX_TASKS, current_task = TASK0_INDEX,
        ready_queue = [TASK1_INDEX, TASK2_INDEX, 0], rq_len = 2,
        wait_queue = replicate MAX_TASKS 0, wq_len = 0,
        event_log = replicate EVENT_LOG_CAP None, event_log_head = 0, event_log_len = 0,
        quantum = 5,
        mem_demo_mapped = replicate MAX_TASKS False, mem_demo_stage = replicate MAX_TASKS 0,
        mem_demo_frame = replicate MAX_TASKS None,
        endpoints = [Endpoint_new 0, Endpoint_new 1],
        demo_msgs_delivered = 0, demo_replies_sent = 0,
        demo_sent_by_task2 = False, demo_sent_by_task1 = False, demo_early_sent_by_task0 = False,
        counters = KernelCounters_new, halt_dumped_no_user_tasks = False, hw = h1\<rparr>)
   } }"

section \<open>The event log\<close>

definition push_event :: "LogEvent \<Rightarrow> 'm KernelState \<Rightarrow> 'm KernelState" where
  "push_event ev s =
     (if EVENT_LOG_CAP = 0 then s
      else (let pos = (event_log_head s + event_log_len s) mod EVENT_LOG_CAP;
                s1 = s\<lparr>event_log := (event_log s)[pos := Some ev]\<rparr>
            in if event_log_len s1 < EVENT_LOG_CAP then s1\<lparr>event_log_len := event_log_len s1 + 1\<rparr>
               else s1\<lparr>event_log_head := (event_log_head s1 + 1) mod EVENT_LOG_CAP\<rparr>))"

text \<open>The events \<open>dump_events\<close> writes, in its order.\<close>

definition dumped_events :: "'m KernelState \<Rightarrow> LogEvent list" where
  "dumped_events s = List.map_filter (\<lambda>i. event_log s ! ((event_log_head s + i) mod EVENT_LOG_CAP)) [0..<event_log_len s]"

section \<open>Syscall results\<close>

definition set_last_syscall_ret_for_current :: "u64 \<Rightarrow> 'm KernelState \<Rightarrow> 'm KernelState" where
  "set_last_syscall_ret_for_current ret s =
     (let idx = current_task s in
      if idx \<ge> num_tasks s then s
      else if t_state (tasks s ! idx) = Dead then s
      else upd_task idx (\<lambda>t. t\<lparr>last_syscall_ret := Some ret, last_syscall_ret_unread := True\<rparr>) s)"

definition take_unread_last_syscall_ret :: "usize \<Rightarrow> 'm KernelState \<Rightarrow> u64 option \<times> 'm KernelState" where
  "take_unread_last_syscall_ret idx s =
     (if idx \<ge> num_tasks s then (None, s)
      else if t_state (tasks s ! idx) = Dead then (None, s)
      else if \<not> last_syscall_ret_unread (tasks s ! idx) then (None, s)
      else (last_syscall_ret (tasks s ! idx),
            upd_task idx (\<lambda>t. t\<lparr>last_syscall_ret_unread := False, last_syscall_ret := None\<rparr>) s))"

section \<open>Counting and simple queries\<close>

definition is_kernel_task_index :: "'m KernelState \<Rightarrow> usize \<Rightarrow> bool" where
  "is_kernel_task_index s idx =
     (if idx \<ge> num_tasks s then False
      else (let as_idx = address_space_id (tasks s ! idx) in
            if as_idx \<ge> num_tasks s then False
            else kind (address_spaces s ! as_idx) = Kernel))"

definition alive_user_task_count :: "'m KernelState \<Rightarrow> usize" where
  "alive_user_task_count s = length (filter (\<lambda>i.
     t_state (tasks s ! i) \<noteq> Dead
     \<and> (let as_idx = address_space_id (tasks s ! i) in
        as_idx < num_tasks s \<and> kind (address_spaces s ! as_idx) = User)) [0..<num_tasks s])"

definition demo_page_for_task :: "usize \<Rightarrow> VirtPage" where
  "demo_page_for_task task_idx =
     VirtPage (if task_idx = TASK0_INDEX then DEMO_VIRT_PAGE_INDEX_TASK0
               else if task_idx = TASK1_INDEX then DEMO_VIRT_PAGE_INDEX_USER
               else if task_idx = TASK2_INDEX then DEMO_VIRT_PAGE_INDEX_USER
               else DEMO_VIRT_PAGE_INDEX_TASK0)"

fun next_activity_and_action :: "KernelActivity \<Rightarrow> KernelActivity \<times> KernelAction" where
  "next_activity_and_action Idle = (UpdatingTimer, ActNone)"
| "next_activity_and_action UpdatingTimer = (AllocatingFrame, ActUpdateTimer)"
| "next_activity_and_action AllocatingFrame = (MappingDemoPage, ActAllocateFrame)"
| "next_activity_and_action MappingDemoPage = (Idle, ActMemDemo)"

section \<open>The event log is a bounded queue\<close>

text \<open>The live entries of the ring are present and its positions are in range.\<close>

definition log_wf :: "'m KernelState \<Rightarrow> bool" where
  "log_wf s \<longleftrightarrow> length (event_log s) = EVENT_LOG_CAP \<and> event_log_len s \<le> EVENT_LOG_CAP \<and> event_log_head s < EVENT_LOG_CAP
     \<and> (\<forall>i < event_log_len s. event_log s ! ((event_log_head s + i) mod EVENT_LOG_CAP) \<noteq> None)"

lemma dumped_events_map:
  assumes "log_wf s"
  shows "dumped_events s = map (\<lambda>i. the (event_log s ! ((event_log_head s + i) mod EVENT_LOG_CAP))) [0..<event_log_len s]"
proof -
  have "List.map_filter f xs = map (\<lambda>i. the (f i)) xs" if "\<forall>x \<in> set xs. f x \<noteq> None" for f :: "nat \<Rightarrow> LogEvent option" and xs
    using that by (induction xs) (auto simp: List.map_filter_simps)
  then show ?thesis using assms by (simp add: dumped_events_def log_wf_def)
qed

lemma ring_pos_inj:
  fixes i j n h :: nat
  assumes "i < n" "j < n" "(h + i) mod n = (h + j) mod n"
  shows "i = j"
proof -
  have "i = j" if "i \<le> j" "j < n" "(h + i) mod n = (h + j) mod n" for i j
  proof -
    have "n dvd (h + j) - (h + i)" using that(1,3) by (metis add_le_mono1 add.commute mod_eq_dvd_iff_nat)
    then have "n dvd j - i" by simp
    then show ?thesis using that by (metis dvd_imp_le diff_le_self le_trans linorder_not_le zero_less_diff diff_is_0_eq le_antisym)
  qed
  then show ?thesis using assms by (metis linear)
qed

lemma push_event_room:
  assumes "log_wf s" "event_log_len s < EVENT_LOG_CAP"
  shows "log_wf (push_event ev s)" "dumped_events (push_event ev s) = dumped_events s @ [ev]"
proof -
  let ?C = EVENT_LOG_CAP and ?H = "event_log_head s" and ?L = "event_log_len s"
  let ?pos = "(?H + ?L) mod ?C"
  have C: "0 < ?C" by (simp add: EVENT_LOG_CAP_def)
  have s': "push_event ev s = s\<lparr>event_log := (event_log s)[?pos := Some ev], event_log_len := ?L + 1\<rparr>"
    using assms(2) C by (simp add: push_event_def Let_def)
  have nth: "event_log (push_event ev s) ! ((?H + i) mod ?C) = (if i = ?L then Some ev else event_log s ! ((?H + i) mod ?C))"
    if "i \<le> ?L" for i
    using that assms ring_pos_inj [of i ?C ?L ?H] C by (auto simp: s' log_wf_def nth_list_update)
  show w: "log_wf (push_event ev s)"
    using assms nth unfolding log_wf_def by (auto simp: s' less_Suc_eq_le)
  show "dumped_events (push_event ev s) = dumped_events s @ [ev]"
    unfolding dumped_events_map [OF w] dumped_events_map [OF assms(1)] using nth by (simp add: s')
qed

lemma push_event_full:
  assumes "log_wf s" "event_log_len s = EVENT_LOG_CAP"
  shows "log_wf (push_event ev s)" "dumped_events (push_event ev s) = tl (dumped_events s) @ [ev]"
proof -
  let ?C = EVENT_LOG_CAP and ?H = "event_log_head s"
  have C: "0 < ?C" by (simp add: EVENT_LOG_CAP_def)
  have H: "?H < ?C" "length (event_log s) = ?C" using assms(1) by (auto simp: log_wf_def)
  have s': "push_event ev s = s\<lparr>event_log := (event_log s)[?H := Some ev], event_log_head := (?H + 1) mod ?C\<rparr>"
    using assms(2) C H by (simp add: push_event_def Let_def)
  have pos: "((?H + 1) mod ?C + i) mod ?C = (?H + Suc i) mod ?C" for i by (simp add: mod_add_left_eq)
  have last_pos: "(?H + Suc i) mod ?C = ?H \<longleftrightarrow> Suc i = ?C" if "i < ?C" for i
  proof (cases "Suc i = ?C")
    case False
    then show ?thesis using that ring_pos_inj [of "Suc i" ?C 0 ?H] H by auto
  qed (use H in simp)
  have nth: "event_log (push_event ev s) ! (((?H + 1) mod ?C + i) mod ?C)
      = (if Suc i = ?C then Some ev else event_log s ! ((?H + Suc i) mod ?C))" if "i < ?C" for i
    using last_pos [OF that] H C unfolding pos by (auto simp: s')
  have old: "event_log s ! ((?H + i) mod ?C) \<noteq> None" if "i < ?C" for i using assms that by (simp add: log_wf_def)
  show w: "log_wf (push_event ev s)"
  proof -
    have "event_log (push_event ev s) ! ((event_log_head (push_event ev s) + i) mod ?C) \<noteq> None"
      if "i < event_log_len (push_event ev s)" for i
      using nth [of i] old [of "Suc i"] that assms(2) by (auto simp: s')
    then show ?thesis using assms(2) H C by (simp add: log_wf_def s')
  qed
  show "dumped_events (push_event ev s) = tl (dumped_events s) @ [ev]"
  proof (rule nth_equalityI)
    show "length (dumped_events (push_event ev s)) = length (tl (dumped_events s) @ [ev])"
      using C assms(2) unfolding dumped_events_map [OF w] dumped_events_map [OF assms(1)] by (simp add: s')
    fix i assume "i < length (dumped_events (push_event ev s))"
    then have i: "i < ?C" using assms(2) unfolding dumped_events_map [OF w] by (simp add: s')
    have "dumped_events (push_event ev s) ! i = (if Suc i = ?C then ev else the (event_log s ! ((?H + Suc i) mod ?C)))"
      using nth [OF i] i assms(2) unfolding dumped_events_map [OF w] by (simp add: s')
    also have "\<dots> = (tl (dumped_events s) @ [ev]) ! i"
      using i assms(2) unfolding dumped_events_map [OF assms(1)] by (auto simp: nth_append nth_tl)
    finally show "dumped_events (push_event ev s) ! i = (tl (dumped_events s) @ [ev]) ! i" .
  qed
qed

text \<open>What a reader of such a log relies on: it has the most recent entries, in order.\<close>

definition last_n :: "nat \<Rightarrow> 'a list \<Rightarrow> 'a list" where
  "last_n n xs = drop (length xs - n) xs"

locale recent_log =
  fixes invar :: "'s \<Rightarrow> bool"
    and entries :: "'s \<Rightarrow> 'e list"
    and push :: "'e \<Rightarrow> 's \<Rightarrow> 's"
    and cap :: nat
  assumes push_invar: "invar s \<Longrightarrow> invar (push e s)"
    and push_entries: "invar s \<Longrightarrow> entries (push e s) = last_n cap (entries s @ [e])"
    and entries_bounded: "invar s \<Longrightarrow> length (entries s) \<le> cap"
begin

lemma last_n_snoc: "last_n n (last_n n xs @ [y]) = last_n n (xs @ [y])"
  by (cases "n \<le> length xs") (auto simp: last_n_def drop_append Suc_diff_le)

lemma pushes_entries:
  assumes "invar s"
  shows "invar (fold push es s) \<and> entries (fold push es s) = last_n cap (entries s @ es)"
  using assms
proof (induction es rule: rev_induct)
  case Nil
  then show ?case using entries_bounded by (simp add: last_n_def)
next
  case (snoc e es)
  then show ?case using push_invar push_entries last_n_snoc by (simp flip: append_assoc)
qed

end

lemma length_dumped: "log_wf s \<Longrightarrow> length (dumped_events s) = event_log_len s"
  by (simp add: dumped_events_map)

interpretation event_queue: recent_log log_wf dumped_events push_event EVENT_LOG_CAP
proof (unfold_locales, goal_cases)
  case (1 s e)
  then show ?case using push_event_room(1) push_event_full(1) by (metis log_wf_def le_neq_implies_less)
next
  case (2 s e)
  then consider "event_log_len s < EVENT_LOG_CAP" | "event_log_len s = EVENT_LOG_CAP" unfolding log_wf_def by linarith
  moreover have one: "Suc 0 - EVENT_LOG_CAP = 0" by (simp add: EVENT_LOG_CAP_def)
  ultimately show ?case
    using push_event_room(2) [OF 2] push_event_full(2) [OF 2] length_dumped [OF 2] one
    by cases (auto simp: last_n_def drop_Suc)
next
  case (3 s)
  then show ?case using length_dumped [OF 3] unfolding log_wf_def by linarith
qed

end
