(* ===== verification/Scheduler.thy ===== *)
theory Scheduler
  imports Kernel_State
begin

text \<open>
  The scheduler (\<open>kernel/mod.rs\<close>): the ready and wait queues, the choice of the next task, blocking
  and waking, time slices.  The queues are arrays of task indices with a length that no operation
  lets exceed \<open>MAX_TASKS\<close>, and a queue is seen through its live prefix.  An operation that may panic
  (an index that the code does not check, a counter overflow, a failed switch of address space)
  returns an option.
\<close>

section \<open>Queues\<close>

definition is_in_ready_queue :: "'m KernelState \<Rightarrow> usize \<Rightarrow> bool" where
  "is_in_ready_queue s idx = array_contains (ready_queue s) (rq_len s) idx"

definition is_in_wait_queue :: "'m KernelState \<Rightarrow> usize \<Rightarrow> bool" where
  "is_in_wait_queue s idx = array_contains (wait_queue s) (wq_len s) idx"

definition ready_queue_contains :: "'m KernelState \<Rightarrow> usize \<Rightarrow> bool" where
  "ready_queue_contains s idx = array_contains (ready_queue s) (rq_len s) idx"

definition remove_from_ready_queue :: "usize \<Rightarrow> 'm KernelState \<Rightarrow> bool \<times> 'm KernelState" where
  "remove_from_ready_queue idx s =
     (if rq_len s = 0 then (False, s)
      else (case compact_loop (\<lambda>v. v \<noteq> idx) (rq_len s) 0 0 (ready_queue s) of (q, write_pos) \<Rightarrow>
              (array_contains (ready_queue s) (rq_len s) idx, s\<lparr>ready_queue := q, rq_len := write_pos\<rparr>)))"

definition remove_from_wait_queue :: "usize \<Rightarrow> 'm KernelState \<Rightarrow> bool \<times> 'm KernelState" where
  "remove_from_wait_queue idx s =
     (if idx \<ge> num_tasks s then (False, s)
      else (case find_pos (\<lambda>v. v = idx) (take (wq_len s) (wait_queue s)) of
              Some pos \<Rightarrow> (True, push_event (WaitDequeued (t_id (tasks s ! idx)))
                 (s\<lparr>wait_queue := swap_remove (wait_queue s) (wq_len s) pos, wq_len := wq_len s - 1\<rparr>))
            | None \<Rightarrow> (False, s)))"

definition enqueue_ready :: "usize \<Rightarrow> 'm KernelState \<Rightarrow> 'm KernelState" where
  "enqueue_ready idx s =
     (if rq_len s \<ge> MAX_TASKS \<or> idx \<ge> num_tasks s then s
      else if is_in_ready_queue s idx then s
      else if t_state (tasks s ! idx) \<noteq> Ready then s
      else push_event (ReadyQueued (t_id (tasks s ! idx)))
             (s\<lparr>ready_queue := (ready_queue s)[rq_len s := idx], rq_len := rq_len s + 1\<rparr>))"

definition ready_only :: "'m KernelState \<Rightarrow> usize \<Rightarrow> bool" where
  "ready_only s idx = (idx < num_tasks s \<and> t_state (tasks s ! idx) = Ready)"

definition compact_ready_queue_to_ready_only :: "'m KernelState \<Rightarrow> 'm KernelState" where
  "compact_ready_queue_to_ready_only s =
     (case compact_loop (ready_only s) (rq_len s) 0 0 (ready_queue s) of (q, write_pos) \<Rightarrow>
        s\<lparr>ready_queue := q, rq_len := write_pos\<rparr>)"

definition best_step :: "'m KernelState \<Rightarrow> usize \<Rightarrow> usize \<times> usize \<times> u8 \<Rightarrow> usize \<times> usize \<times> u8" where
  "best_step s pos b =
     (case b of (best_pos, best_idx, best_prio) \<Rightarrow>
        (let idx = ready_queue s ! pos in
         if idx \<ge> num_tasks s then b
         else (let prio = priority (tasks s ! idx) in if prio > best_prio then (pos, idx, prio) else b)))"

definition dequeue_ready_highest_priority :: "'m KernelState \<Rightarrow> usize option \<times> 'm KernelState" where
  "dequeue_ready_highest_priority s =
     (if rq_len s = 0 then (None, s)
      else (let s1 = compact_ready_queue_to_ready_only s in
        if rq_len s1 = 0 then (None, s1)
        else (let best_idx0 = ready_queue s1 ! 0 in
          if best_idx0 \<ge> num_tasks s1 then (None, s1\<lparr>rq_len := 0\<rparr>)
          else (case fold (best_step s1) [1..<rq_len s1] (0, best_idx0, priority (tasks s1 ! best_idx0)) of
                  (best_pos, best_idx, best_prio) \<Rightarrow>
                    (Some best_idx, push_event (ReadyDequeued (t_id (tasks s1 ! best_idx)))
                       (s1\<lparr>ready_queue := swap_remove (ready_queue s1) (rq_len s1) best_pos, rq_len := rq_len s1 - 1\<rparr>))))))"

definition enqueue_wait :: "usize \<Rightarrow> 'm KernelState \<Rightarrow> 'm KernelState" where
  "enqueue_wait idx s =
     (if wq_len s \<ge> MAX_TASKS \<or> idx \<ge> num_tasks s then s
      else if is_in_wait_queue s idx then s
      else if t_state (tasks s ! idx) \<noteq> Blocked then s
      else if blocked_reason (tasks s ! idx) = None then s
      else push_event (WaitQueued (t_id (tasks s ! idx)))
             (s\<lparr>wait_queue := (wait_queue s)[wq_len s := idx], wq_len := wq_len s + 1\<rparr>))"

section \<open>Waking and blocking\<close>

definition wake_task_to_ready :: "usize \<Rightarrow> 'm KernelState \<Rightarrow> 'm KernelState" where
  "wake_task_to_ready idx s =
     (if idx \<ge> num_tasks s then s
      else if t_state (tasks s ! idx) = Dead then s
      else if t_state (tasks s ! idx) = Ready \<or> t_state (tasks s ! idx) = Running then
        upd_task idx (\<lambda>t. t\<lparr>blocked_reason := None\<rparr>) s
      else (let s1 = upd_task idx (\<lambda>t. t\<lparr>t_state := Ready, blocked_reason := None, time_slice_used := 0\<rparr>) s;
                s2 = (if \<not> ready_queue_contains s1 idx \<and> rq_len s1 < MAX_TASKS
                      then s1\<lparr>ready_queue := (ready_queue s1)[rq_len s1 := idx], rq_len := rq_len s1 + 1\<rparr>
                      else s1)
            in push_event (TaskStateChanged (t_id (tasks s2 ! idx)) Ready) s2))"

definition maybe_wake_one_sleep_task :: "'m KernelState \<Rightarrow> 'm KernelState" where
  "maybe_wake_one_sleep_task s =
     (case find (\<lambda>idx. idx < num_tasks s \<and> t_state (tasks s ! idx) \<noteq> Dead
                   \<and> blocked_reason (tasks s ! idx) = Some Sleep) (take (wq_len s) (wait_queue s)) of
        Some idx \<Rightarrow> wake_task_to_ready idx s
      | None \<Rightarrow> s)"

definition block_task :: "usize \<Rightarrow> BlockedReason \<Rightarrow> 'm KernelState \<Rightarrow> 'm KernelState" where
  "block_task idx reason s =
     (if idx \<ge> num_tasks s then s
      else if t_state (tasks s ! idx) = Dead then s
      else (let tid = t_id (tasks s ! idx); s1 = snd (remove_from_ready_queue idx s) in
        if t_state (tasks s1 ! idx) = Blocked then
          (let prev_reason = blocked_reason (tasks s1 ! idx);
               s2 = push_event (TaskStateChanged tid Blocked)
                      (upd_task idx (\<lambda>t. t\<lparr>blocked_reason := Some reason, time_slice_used := 0\<rparr>) s1)
           in if reason = Sleep \<and> prev_reason \<noteq> Some Sleep then enqueue_wait idx s2 else s2)
        else
          (let s2 = push_event (TaskStateChanged tid Blocked)
                      (upd_task idx (\<lambda>t. t\<lparr>t_state := Blocked, blocked_reason := Some reason, time_slice_used := 0\<rparr>) s1)
           in if reason = Sleep then enqueue_wait idx s2 else s2)))"

definition IPC_ERR_DEAD_PARTNER :: u64 where
  "IPC_ERR_DEAD_PARTNER = 0xDEADDEADDEADDEAD"

definition block_current :: "BlockedReason \<Rightarrow> 'm KernelState \<Rightarrow> 'm KernelState option" where
  "block_current reason s = do {
     let idx = current_task s in do {
     t \<leftarrow> nth_chk (tasks s) idx;
     (if t_state t = Dead then Some s
      else (let as_idx = address_space_id t in
        if as_idx < num_tasks s \<and> kind (address_spaces s ! as_idx) = Kernel \<and> reason \<noteq> Sleep then
          Some (upd_task idx (\<lambda>t. t\<lparr>last_reply := Some IPC_ERR_DEAD_PARTNER, pending_send_msg := None\<rparr>) s)
        else Some (block_task idx reason s)))
   } }"

section \<open>Choosing the next task\<close>

definition switch_to_kernel :: "'m Env \<Rightarrow> 'm KernelState \<Rightarrow> 'm KernelState option" where
  "switch_to_kernel E s = do {
     kernel_root \<leftarrow> root_page_frame (address_spaces s ! KERNEL_ASID_INDEX);
     h \<leftarrow> switch_address_space_quiet E kernel_root (hw s);
     Some (s\<lparr>hw := set_vga_enabled True h\<rparr>)
   }"

definition demote_previous :: "usize \<Rightarrow> 'm KernelState \<Rightarrow> 'm KernelState" where
  "demote_previous prev_idx s =
     (if prev_idx < num_tasks s \<and> t_state (tasks s ! prev_idx) = Running then
        (let s1 = push_event (TaskStateChanged (t_id (tasks s ! prev_idx)) Ready)
                    (upd_task prev_idx (\<lambda>t. t\<lparr>t_state := Ready, blocked_reason := None, time_slice_used := 0\<rparr>) s)
         in if prev_idx \<noteq> TASK0_INDEX then enqueue_ready prev_idx s1 else s1)
      else s)"

definition run_idle :: "'m Env \<Rightarrow> 'm KernelState \<Rightarrow> 'm KernelState option" where
  "run_idle E s =
     (let idle_idx = TASK0_INDEX in
      if t_state (tasks s ! idle_idx) = Dead then Some (s\<lparr>should_halt := True\<rparr>)
      else do {
        s1 \<leftarrow> switch_to_kernel E
          ((upd_task idle_idx (\<lambda>t. t\<lparr>t_state := Running, blocked_reason := None, time_slice_used := 0\<rparr>) s)
             \<lparr>current_task := idle_idx\<rparr>);
        let tid = t_id (tasks s1 ! idle_idx) in
        Some (push_event (TaskStateChanged tid Running) (push_event (TaskSwitched tid) s1))
      })"

definition run_next :: "'m Env \<Rightarrow> usize \<Rightarrow> 'm KernelState \<Rightarrow> 'm KernelState option" where
  "run_next E prev_idx s =
     (case dequeue_ready_highest_priority s of
        (None, s1) \<Rightarrow> Some (s1\<lparr>should_halt := True\<rparr>)
      | (Some next_idx, s1) \<Rightarrow>
          (if next_idx \<ge> num_tasks s1 then Some (s1\<lparr>should_halt := True\<rparr>)
           else (let next_id = t_id (tasks s1 ! next_idx);
                     as_idx = address_space_id (tasks s1 ! next_idx);
                     s2 = (upd_task next_idx (\<lambda>t. t\<lparr>t_state := Running, time_slice_used := 0, blocked_reason := None\<rparr>) s1)
                            \<lparr>current_task := next_idx\<rparr>
                 in do {
                   a \<leftarrow> nth_chk (address_spaces s2) as_idx;
                   s3 \<leftarrow> (case kind a of
                      User \<Rightarrow> do { h \<leftarrow> switch_address_space E (root_page_frame a) (set_vga_enabled False (hw s2));
                                   Some (s2\<lparr>hw := h\<rparr>) }
                    | Kernel \<Rightarrow> switch_to_kernel E s2);
                   n \<leftarrow> (if next_idx \<noteq> prev_idx then chk_inc (sched_switches (counters s3))
                          else Some (sched_switches (counters s3)));
                   Some (push_event (TaskStateChanged next_id Running) (push_event (TaskSwitched next_id)
                     (s3\<lparr>counters := (counters s3)\<lparr>sched_switches := n\<rparr>\<rparr>)))
                 })))"

definition schedule_next_task :: "'m Env \<Rightarrow> 'm KernelState \<Rightarrow> 'm KernelState option" where
  "schedule_next_task E s = do {
     let prev_idx = current_task s in do {
     t \<leftarrow> nth_chk (tasks s) prev_idx;
     a \<leftarrow> nth_chk (address_spaces s) (address_space_id t);
     let s1 = s\<lparr>hw := set_vga_enabled (kind a = Kernel) (hw s)\<rparr>;
         s2 = demote_previous prev_idx (compact_ready_queue_to_ready_only s1);
         s3 = (if rq_len s2 = 0 \<and> wq_len s2 > 0
               then compact_ready_queue_to_ready_only (maybe_wake_one_sleep_task s2) else s2)
     in if rq_len s3 = 0 then run_idle E s3 else run_next E prev_idx s3
   } }"

section \<open>Time accounting\<close>

definition update_runtime_for :: "usize \<Rightarrow> 'm KernelState \<Rightarrow> 'm KernelState option" where
  "update_runtime_for ran_idx s =
     (if ran_idx \<ge> num_tasks s then Some s
      else if t_state (tasks s ! ran_idx) = Dead then Some s
      else do {
        n \<leftarrow> chk_inc (runtime_ticks (tasks s ! ran_idx));
        Some (push_event (RuntimeUpdated (t_id (tasks s ! ran_idx)) n)
          (upd_task ran_idx (\<lambda>t. t\<lparr>runtime_ticks := n\<rparr>) s))
      })"

definition maybe_block_task :: "usize \<Rightarrow> 'm KernelState \<Rightarrow> bool" where
  "maybe_block_task ran_idx s =
     (if ran_idx \<ge> num_tasks s then False
      else if t_state (tasks s ! ran_idx) = Dead then False
      else if ran_idx \<noteq> current_task s then False
      else False)"

definition update_time_slice_for_and_maybe_schedule :: "'m Env \<Rightarrow> usize \<Rightarrow> 'm KernelState \<Rightarrow> 'm KernelState option" where
  "update_time_slice_for_and_maybe_schedule E ran_idx s =
     (if ran_idx \<ge> num_tasks s then Some s
      else if t_state (tasks s ! ran_idx) = Dead then Some s
      else if ran_idx \<noteq> current_task s then Some s
      else if t_state (tasks s ! ran_idx) \<noteq> Running then Some s
      else do {
        n \<leftarrow> chk_inc (time_slice_used (tasks s ! ran_idx));
        let s1 = upd_task ran_idx (\<lambda>t. t\<lparr>time_slice_used := n\<rparr>) s in
        if n \<ge> quantum s1 then
          (let s2 = push_event (QuantumExpired (t_id (tasks s ! ran_idx)) n) s1 in
           if rq_len s2 = 0 then Some (upd_task ran_idx (\<lambda>t. t\<lparr>time_slice_used := 0\<rparr>) s2)
           else schedule_next_task E s2)
        else Some s1
      })"

definition prepare_ring3_loop_current_task :: "'m KernelState \<Rightarrow> 'm KernelState" where
  "prepare_ring3_loop_current_task s =
     (let t0 = TASK0_INDEX; t1 = TASK1_INDEX in
      if t1 \<ge> num_tasks s then s\<lparr>should_halt := True\<rparr>
      else if t_state (tasks s ! t1) = Dead then s\<lparr>should_halt := True\<rparr>
      else (let s1 = (if t0 < num_tasks s \<and> t_state (tasks s ! t0) = Running \<and> t0 \<noteq> t1
                      then upd_task t0 (\<lambda>t. t\<lparr>t_state := Ready, time_slice_used := 0, blocked_reason := None\<rparr>) s else s);
                s2 = upd_task t1 (\<lambda>t. t\<lparr>t_state := Running, time_slice_used := 0, blocked_reason := None\<rparr>)
                       (s1\<lparr>current_task := t1\<rparr>)
            in snd (remove_from_ready_queue t1 s2)))"

end
