(* ===== verification/Ipc.thy ===== *)
theory Ipc
  imports Scheduler
begin

text \<open>
  Synchronous IPC (\<open>kernel/ipc.rs\<close>): send, receive and reply with their fast and slow paths, the
  rejections at entry, the rescue of waiting tasks and the closing of an endpoint.
\<close>

definition IPC_ERR_ENDPOINT_CLOSED :: u64 where "IPC_ERR_ENDPOINT_CLOSED = 0xC105ED00C105ED00"
definition IPC_ERR_CAPACITY :: u64 where "IPC_ERR_CAPACITY = 0xC0DEC0DEC0DEC0DE"
definition IPC_ERR_RECV_ALREADY_WAITING :: u64 where "IPC_ERR_RECV_ALREADY_WAITING = 0xBADC0FFEBADC0FFE"

section \<open>Rejection and rescue\<close>

definition reject_ipc_if_kernel_current :: "EndpointId \<Rightarrow> 'm KernelState \<Rightarrow> bool \<times> 'm KernelState" where
  "reject_ipc_if_kernel_current ep s =
     (let idx = current_task s in
      if idx \<ge> num_tasks s then (True, s)
      else if t_state (tasks s ! idx) = Dead then (True, s)
      else if is_kernel_task_index s idx then
        (True, upd_task idx (\<lambda>t. t\<lparr>last_reply := Some IPC_ERR_DEAD_PARTNER\<rparr>) s)
      else (False, s))"

definition reject_ipc_if_endpoint_closed :: "EndpointId \<Rightarrow> 'm KernelState \<Rightarrow> bool \<times> 'm KernelState" where
  "reject_ipc_if_endpoint_closed ep s =
     (if ep \<ge> MAX_ENDPOINTS then (True, s)
      else if is_closed (endpoints s ! ep) then
        (let idx = current_task s in
         if idx < num_tasks s \<and> t_state (tasks s ! idx) \<noteq> Dead
         then (True, upd_task idx (\<lambda>t. t\<lparr>last_reply := Some IPC_ERR_ENDPOINT_CLOSED\<rparr>) s)
         else (True, s))
      else (False, s))"

definition rescue_current_with_error :: "u64 \<Rightarrow> 'm KernelState \<Rightarrow> 'm KernelState" where
  "rescue_current_with_error err s =
     (let idx = current_task s in
      if idx \<ge> num_tasks s then s
      else if t_state (tasks s ! idx) = Dead then s
      else (let s1 = upd_task idx (\<lambda>t. t\<lparr>pending_send_msg := None, blocked_reason := None, last_reply := Some err\<rparr>) s in
            if t_state (tasks s1 ! idx) = Blocked then wake_task_to_ready idx s1 else s1))"

definition rescue_task_with_error :: "usize \<Rightarrow> u64 \<Rightarrow> 'm KernelState \<Rightarrow> 'm KernelState" where
  "rescue_task_with_error idx err s =
     (if idx \<ge> num_tasks s then s
      else if t_state (tasks s ! idx) = Dead then s
      else wake_task_to_ready idx
             (upd_task idx (\<lambda>t. t\<lparr>pending_send_msg := None, blocked_reason := None, last_reply := Some err\<rparr>) s))"

section \<open>Closing an endpoint\<close>

definition close_rescue :: "usize \<Rightarrow> (Task \<Rightarrow> Task) \<Rightarrow> 'm KernelState \<Rightarrow> 'm KernelState" where
  "close_rescue idx f s =
     (if idx < num_tasks s \<and> t_state (tasks s ! idx) \<noteq> Dead then
        wake_task_to_ready idx
          (upd_task idx (\<lambda>t. (f t)\<lparr>blocked_reason := None, last_reply := Some IPC_ERR_ENDPOINT_CLOSED\<rparr>) s)
      else s)"

text \<open>The two loops, by the current length of the queue.\<close>

fun drain_send_queue :: "usize \<Rightarrow> EndpointId \<Rightarrow> 'm KernelState \<Rightarrow> 'm KernelState" where
  "drain_send_queue 0 ep s = s"
| "drain_send_queue (Suc last_pos) ep s =
     (let send_idx = send_queue (endpoints s ! ep) ! last_pos;
          s1 = upd_endpoint ep (\<lambda>e. e\<lparr>sq_len := last_pos\<rparr>) s
      in drain_send_queue last_pos ep (close_rescue send_idx (\<lambda>t. t\<lparr>pending_send_msg := None\<rparr>) s1))"

fun drain_reply_queue :: "usize \<Rightarrow> EndpointId \<Rightarrow> 'm KernelState \<Rightarrow> 'm KernelState" where
  "drain_reply_queue 0 ep s = s"
| "drain_reply_queue (Suc last_pos) ep s =
     (let widx = reply_queue (endpoints s ! ep) ! last_pos;
          s1 = upd_endpoint ep (\<lambda>e. e\<lparr>e_rq_len := last_pos\<rparr>) s
      in drain_reply_queue last_pos ep (close_rescue widx id s1))"

definition close_endpoint_and_rescue_waiters :: "EndpointId \<Rightarrow> 'm KernelState \<Rightarrow> 'm KernelState" where
  "close_endpoint_and_rescue_waiters ep s =
     (if ep \<ge> MAX_ENDPOINTS then s
      else if is_closed (endpoints s ! ep) then s
      else (let s1 = upd_endpoint ep (\<lambda>e. e\<lparr>is_closed := True\<rparr>) s;
                s2 = (case recv_waiter (endpoints s1 ! ep) of
                        Some recv_idx \<Rightarrow> close_rescue recv_idx id (upd_endpoint ep (\<lambda>e. e\<lparr>recv_waiter := None\<rparr>) s1)
                      | None \<Rightarrow> s1);
                s3 = drain_send_queue (sq_len (endpoints s2 ! ep)) ep s2
            in drain_reply_queue (e_rq_len (endpoints s3 ! ep)) ep s3))"

section \<open>The reply waiter of a partner\<close>

text \<open>The search from position \<open>pos - 1\<close> down; the result is the waiter found, the endpoint and the
  first waiter dropped for a mismatching reason.\<close>

fun reply_waiter_loop :: "'m KernelState \<Rightarrow> EndpointId \<Rightarrow> TaskId \<Rightarrow> usize \<Rightarrow> Endpoint \<Rightarrow> usize option
    \<Rightarrow> usize option \<times> Endpoint \<times> usize option" where
  "reply_waiter_loop s ep partner 0 e to_rescue = (None, e, to_rescue)"
| "reply_waiter_loop s ep partner (Suc pos) e to_rescue =
     (let idx = reply_queue e ! pos in
      if idx \<ge> num_tasks s then reply_waiter_loop s ep partner pos (snd (remove_reply_waiter_at e pos)) to_rescue
      else if t_state (tasks s ! idx) = Dead then
        reply_waiter_loop s ep partner pos (snd (remove_reply_waiter_at e pos)) to_rescue
      else if blocked_reason (tasks s ! idx) = Some (IpcReply partner ep) then
        (case remove_reply_waiter_at e pos of (r, e') \<Rightarrow> (r, e', to_rescue))
      else (case remove_reply_waiter_at e pos of (removed, e') \<Rightarrow>
              reply_waiter_loop s ep partner pos e'
                (if removed \<noteq> None \<and> to_rescue = None then removed else to_rescue)))"

definition take_reply_waiter_for_partner :: "EndpointId \<Rightarrow> TaskId \<Rightarrow> 'm KernelState \<Rightarrow> usize option \<times> 'm KernelState" where
  "take_reply_waiter_for_partner ep partner s =
     (if ep \<ge> MAX_ENDPOINTS then (None, s)
      else (case reply_waiter_loop s ep partner (e_rq_len (endpoints s ! ep)) (endpoints s ! ep) None of
              (found, e, to_rescue) \<Rightarrow>
                (let s1 = upd_endpoint ep (\<lambda>_. e) s in
                 case found of
                   Some idx \<Rightarrow> (Some idx, s1)
                 | None \<Rightarrow> (case to_rescue of
                             Some widx \<Rightarrow> (None, rescue_task_with_error widx IPC_ERR_DEAD_PARTNER s1)
                           | None \<Rightarrow> (None, s1)))))"

section \<open>Receive\<close>

function dequeue_blocked_sender :: "'m KernelState \<Rightarrow> EndpointId \<Rightarrow> Endpoint \<Rightarrow> usize option \<times> Endpoint" where
  "dequeue_blocked_sender s ep e =
     (case dequeue_sender e of
        (None, e') \<Rightarrow> (None, e')
      | (Some idx, e') \<Rightarrow>
          (if idx \<ge> num_tasks s then dequeue_blocked_sender s ep e'
           else if t_state (tasks s ! idx) = Dead then dequeue_blocked_sender s ep e'
           else if blocked_reason (tasks s ! idx) = Some (IpcSend ep) then
             (if t_state (tasks s ! idx) \<noteq> Blocked then dequeue_blocked_sender s ep e' else (Some idx, e'))
           else dequeue_blocked_sender s ep e'))"
  by pat_completeness auto
termination
  by (relation "measure (\<lambda>(s, ep, e). sq_len e)") (auto simp: dequeue_sender_def Let_def split: if_splits)

declare dequeue_blocked_sender.simps [simp del]

definition count_delivery :: "EndpointId \<Rightarrow> usize \<Rightarrow> 'm KernelState \<Rightarrow> 'm KernelState" where
  "count_delivery ep recv_idx s =
     (if ep = IPC_DEMO_EP0 \<and> recv_idx = TASK2_INDEX \<and> demo_msgs_delivered s < 2
      then s\<lparr>demo_msgs_delivered := demo_msgs_delivered s + 1\<rparr> else s)"

definition ipc_recv_fastpath :: "EndpointId \<Rightarrow> usize \<Rightarrow> 'm KernelState \<Rightarrow> (bool \<times> 'm KernelState) option" where
  "ipc_recv_fastpath ep recv_idx s =
     (case dequeue_blocked_sender s ep (endpoints s ! ep) of (found, e1) \<Rightarrow>
        (let s1 = upd_endpoint ep (\<lambda>_. e1) s in
         case found of
           None \<Rightarrow> Some (False, s1)
         | Some send_idx \<Rightarrow>
             (case pending_send_msg (tasks s1 ! send_idx) of
                None \<Rightarrow> Some (False, rescue_task_with_error send_idx IPC_ERR_DEAD_PARTNER s1)
              | Some msg \<Rightarrow>
                  (let s2 = upd_task send_idx (\<lambda>t. t\<lparr>pending_send_msg := None\<rparr>) s1;
                       send_id = t_id (tasks s2 ! send_idx);
                       recv_id = t_id (tasks s2 ! recv_idx)
                   in case try_enqueue_reply_waiter (endpoints s2 ! ep) send_idx of (ok, e2) \<Rightarrow>
                        (let s3 = upd_endpoint ep (\<lambda>_. e2) s2 in
                         if \<not> ok then Some (False, rescue_task_with_error send_idx IPC_ERR_CAPACITY s3)
                         else (let s4 = block_task send_idx (IpcReply recv_id ep) s3;
                                   s5 = count_delivery ep recv_idx
                                          (upd_task recv_idx (\<lambda>t. t\<lparr>last_msg := Some msg\<rparr>) s4)
                               in do {
                                 n \<leftarrow> chk_inc (ipc_recv_fast (counters s5));
                                 Some (True, push_event (IpcDelivered send_id recv_id ep msg)
                                   (s5\<lparr>counters := (counters s5)\<lparr>ipc_recv_fast := n\<rparr>\<rparr>))
                               }))))))"

definition ipc_recv_slowpath :: "'m Env \<Rightarrow> EndpointId \<Rightarrow> usize \<Rightarrow> 'm KernelState \<Rightarrow> 'm KernelState option" where
  "ipc_recv_slowpath E ep recv_idx s =
     (let recv_id = t_id (tasks s ! recv_idx) in
      if recv_waiter (endpoints s ! ep) \<noteq> None then
        Some (upd_task recv_idx (\<lambda>t. t\<lparr>last_reply := Some IPC_ERR_RECV_ALREADY_WAITING\<rparr>) s)
      else do {
        n \<leftarrow> chk_inc (ipc_recv_slow (counters s));
        let s1 = block_task recv_idx (IpcRecv ep) (s\<lparr>counters := (counters s)\<lparr>ipc_recv_slow := n\<rparr>\<rparr>);
            s2 = push_event (IpcRecvBlocked recv_id ep)
                   (upd_endpoint ep (\<lambda>e. e\<lparr>recv_waiter := Some recv_idx\<rparr>) s1)
        in if \<not> ring3_mailbox E then schedule_next_task E s2 else Some s2
      })"

definition ipc_recv :: "'m Env \<Rightarrow> EndpointId \<Rightarrow> 'm KernelState \<Rightarrow> 'm KernelState option" where
  "ipc_recv E ep s =
     (if ep \<ge> MAX_ENDPOINTS then Some s
      else (case reject_ipc_if_kernel_current ep s of (r1, s1) \<Rightarrow>
        if r1 then Some s1
        else (case reject_ipc_if_endpoint_closed ep s1 of (r2, s2) \<Rightarrow>
          if r2 then Some s2
          else (let recv_idx = current_task s2 in
            if recv_idx \<ge> num_tasks s2 then Some s2
            else if t_state (tasks s2 ! recv_idx) = Dead then Some s2
            else do {
              (delivered, s4) \<leftarrow> ipc_recv_fastpath ep recv_idx
                 (push_event (IpcRecvCalled (t_id (tasks s2 ! recv_idx)) ep) s2);
              (if delivered then Some s4 else ipc_recv_slowpath E ep recv_idx s4)
            }))))"

section \<open>Send\<close>

definition schedule_after_send :: "'m Env \<Rightarrow> 'm KernelState \<Rightarrow> 'm KernelState option" where
  "schedule_after_send E s =
     (if ring3_mailbox_loop E then schedule_next_task E s
      else if ring3_mailbox E then Some s
      else schedule_next_task E s)"

definition ipc_send_fastpath :: "'m Env \<Rightarrow> EndpointId \<Rightarrow> usize \<Rightarrow> u64 \<Rightarrow> 'm KernelState \<Rightarrow> (bool \<times> 'm KernelState) option" where
  "ipc_send_fastpath E ep send_idx msg s =
     (if send_idx \<noteq> current_task s then Some (False, s)
      else (case recv_waiter (endpoints s ! ep) of
        None \<Rightarrow> Some (False, s)
      | Some recv_idx \<Rightarrow>
          (if recv_idx \<ge> num_tasks s then Some (False, s)
           else if t_state (tasks s ! recv_idx) = Dead then Some (False, s)
           else if blocked_reason (tasks s ! recv_idx) \<noteq> Some (IpcRecv ep) then Some (False, s)
           else (let s1 = upd_endpoint ep (\<lambda>e. e\<lparr>recv_waiter := None\<rparr>) s;
                     send_id = t_id (tasks s1 ! send_idx);
                     recv_id = t_id (tasks s1 ! recv_idx);
                     s2 = upd_task recv_idx (\<lambda>t. t\<lparr>last_msg := Some msg\<rparr>) (wake_task_to_ready recv_idx s1)
                 in case try_enqueue_reply_waiter (endpoints s2 ! ep) send_idx of (ok, e2) \<Rightarrow>
                      (let s3 = upd_endpoint ep (\<lambda>_. e2) s2 in
                       if \<not> ok then Some (True, upd_task send_idx (\<lambda>t. t\<lparr>last_reply := Some IPC_ERR_CAPACITY\<rparr>) s3)
                       else (let s4 = count_delivery ep recv_idx (block_task send_idx (IpcReply recv_id ep) s3) in do {
                               n \<leftarrow> chk_inc (ipc_send_fast (counters s4));
                               s5 \<leftarrow> schedule_after_send E (push_event (IpcDelivered send_id recv_id ep msg)
                                       (s4\<lparr>counters := (counters s4)\<lparr>ipc_send_fast := n\<rparr>\<rparr>));
                               Some (True, s5)
                             }))))))"

definition ipc_send_slowpath :: "'m Env \<Rightarrow> EndpointId \<Rightarrow> usize \<Rightarrow> u64 \<Rightarrow> 'm KernelState \<Rightarrow> 'm KernelState option" where
  "ipc_send_slowpath E ep send_idx msg s =
     (if send_idx \<noteq> current_task s then Some s
      else (let send_id = t_id (tasks s ! send_idx) in do {
        n \<leftarrow> chk_inc (ipc_send_slow (counters s));
        let s1 = s\<lparr>counters := (counters s)\<lparr>ipc_send_slow := n\<rparr>\<rparr> in
        case try_enqueue_sender (endpoints s1 ! ep) send_idx of (ok, e) \<Rightarrow>
          (let s2 = upd_endpoint ep (\<lambda>_. e) s1 in
           if \<not> ok then Some (upd_task send_idx (\<lambda>t. t\<lparr>last_reply := Some IPC_ERR_CAPACITY\<rparr>) s2)
           else (let s3 = block_task send_idx (IpcSend ep)
                            (upd_task send_idx (\<lambda>t. t\<lparr>pending_send_msg := Some msg\<rparr>) s2)
                 in schedule_after_send E (push_event (IpcSendBlocked send_id ep) s3)))
      }))"

definition ipc_send :: "'m Env \<Rightarrow> EndpointId \<Rightarrow> u64 \<Rightarrow> 'm KernelState \<Rightarrow> 'm KernelState option" where
  "ipc_send E ep msg s =
     (if ep \<ge> MAX_ENDPOINTS then Some s
      else (case reject_ipc_if_kernel_current ep s of (r1, s1) \<Rightarrow>
        if r1 then Some s1
        else (case reject_ipc_if_endpoint_closed ep s1 of (r2, s2) \<Rightarrow>
          if r2 then Some s2
          else (let send_idx = current_task s2 in
            if send_idx \<ge> num_tasks s2 then Some s2
            else if t_state (tasks s2 ! send_idx) = Dead then Some s2
            else do {
              (delivered, s4) \<leftarrow> ipc_send_fastpath E ep send_idx msg
                 (push_event (IpcSendCalled (t_id (tasks s2 ! send_idx)) ep msg) s2);
              (if delivered then Some s4 else ipc_send_slowpath E ep send_idx msg s4)
            }))))"

section \<open>Reply\<close>

definition ipc_reply_deliver :: "EndpointId \<Rightarrow> usize \<Rightarrow> usize \<Rightarrow> u64 \<Rightarrow> 'm KernelState \<Rightarrow> 'm KernelState option" where
  "ipc_reply_deliver ep recv_idx send_idx msg s =
     (let recv_id = t_id (tasks s ! recv_idx);
          send_id = t_id (tasks s ! send_idx);
          s1 = push_event (IpcReplyCalled recv_id ep send_id) s;
          s2 = wake_task_to_ready send_idx (upd_task send_idx (\<lambda>t. t\<lparr>last_reply := Some msg\<rparr>) s1);
          s3 = (if ep = IPC_DEMO_EP0 \<and> recv_idx = TASK2_INDEX \<and> demo_replies_sent s2 < 2
                then s2\<lparr>demo_replies_sent := demo_replies_sent s2 + 1\<rparr> else s2)
      in do {
        n \<leftarrow> chk_inc (ipc_reply_delivered (counters s3));
        Some (push_event (IpcReplyDelivered recv_id send_id ep)
          (s3\<lparr>counters := (counters s3)\<lparr>ipc_reply_delivered := n\<rparr>\<rparr>))
      })"

definition ipc_reply :: "EndpointId \<Rightarrow> u64 \<Rightarrow> 'm KernelState \<Rightarrow> 'm KernelState option" where
  "ipc_reply ep msg s =
     (if ep \<ge> MAX_ENDPOINTS then Some s
      else (case reject_ipc_if_kernel_current ep s of (r1, s1) \<Rightarrow>
        if r1 then Some s1
        else (case reject_ipc_if_endpoint_closed ep s1 of (r2, s2) \<Rightarrow>
          if r2 then Some s2
          else (let recv_idx = current_task s2 in
            if recv_idx \<ge> num_tasks s2 then Some s2
            else if t_state (tasks s2 ! recv_idx) = Dead then Some s2
            else (let recv_id = t_id (tasks s2 ! recv_idx) in
              case take_reply_waiter_for_partner ep recv_id s2 of
                (None, s3) \<Rightarrow> Some s3
              | (Some send_idx, s3) \<Rightarrow>
                  (if send_idx \<ge> num_tasks s3 then Some s3
                   else if t_state (tasks s3 ! send_idx) = Dead then Some s3
                   else if blocked_reason (tasks s3 ! send_idx) \<noteq> Some (IpcReply recv_id ep) then
                     Some (rescue_task_with_error send_idx IPC_ERR_DEAD_PARTNER s3)
                   else ipc_reply_deliver ep recv_idx send_idx msg s3))))))"

end
