(* ===== verification/Kill.thy ===== *)
theory Kill
  imports Ipc
begin

text \<open>
  Killing a task (\<open>kernel/mod.rs\<close>): its removal from every queue and endpoint, the unmapping of its
  user pages, the closing of the endpoints it owns, the rescue of the tasks that wait for its reply,
  and the halt when no user task is left.
\<close>

section \<open>Removal from the endpoints\<close>

definition remove_task_from_endpoint :: "usize \<Rightarrow> Endpoint \<Rightarrow> Endpoint" where
  "remove_task_from_endpoint idx e =
     (let e1 = (if recv_waiter e = Some idx then e\<lparr>recv_waiter := None\<rparr> else e) in
      case remove_all_loop idx 0 (sq_len e1) (send_queue e1) of (sq', sl) \<Rightarrow>
        (let e2 = e1\<lparr>send_queue := sq', sq_len := sl\<rparr> in
         case remove_all_loop idx 0 (e_rq_len e2) (reply_queue e2) of (rq', rl) \<Rightarrow>
           e2\<lparr>reply_queue := rq', e_rq_len := rl\<rparr>))"

definition remove_task_from_endpoints :: "usize \<Rightarrow> 'm KernelState \<Rightarrow> 'm KernelState" where
  "remove_task_from_endpoints idx s = s\<lparr>endpoints := map (remove_task_from_endpoint idx) (endpoints s)\<rparr>"

section \<open>Rescue of the tasks that wait for a dead partner\<close>

definition should_rescue :: "TaskId \<Rightarrow> usize \<Rightarrow> EndpointId \<Rightarrow> Task list \<Rightarrow> usize \<Rightarrow> bool" where
  "should_rescue dead_partner n eid ts waiter_idx \<longleftrightarrow>
     waiter_idx < n \<and> t_state (ts ! waiter_idx) = Blocked
     \<and> blocked_reason (ts ! waiter_idx) = Some (IpcReply dead_partner eid)"

function resolve_loop :: "TaskId \<Rightarrow> usize \<Rightarrow> usize \<Rightarrow> Endpoint \<times> Task list \<times> usize list \<Rightarrow> Endpoint \<times> Task list \<times> usize list" where
  "resolve_loop dead_partner n pos (e, ts, wake_list) =
     (if pos < e_rq_len e then
        (let waiter_idx = reply_queue e ! pos in
         if should_rescue dead_partner n (ep_id e) ts waiter_idx then
           resolve_loop dead_partner n pos
             (e\<lparr>reply_queue := swap_remove (reply_queue e) (e_rq_len e) pos, e_rq_len := e_rq_len e - 1\<rparr>,
              ts[waiter_idx := (ts ! waiter_idx)\<lparr>blocked_reason := None, last_reply := Some IPC_ERR_DEAD_PARTNER\<rparr>],
              (if length wake_list < MAX_TASKS then wake_list @ [waiter_idx] else wake_list))
         else resolve_loop dead_partner n (Suc pos) (e, ts, wake_list))
      else (e, ts, wake_list))"
  by pat_completeness auto
termination
  by (relation "measure (\<lambda>(d, n, pos, (e, ts, w)). e_rq_len e - pos)") auto

declare resolve_loop.simps [simp del]

fun resolve_endpoints :: "TaskId \<Rightarrow> usize \<Rightarrow> Endpoint list \<Rightarrow> Task list \<Rightarrow> usize list \<Rightarrow> Endpoint list \<times> Task list \<times> usize list" where
  "resolve_endpoints d n [] ts w = ([], ts, w)"
| "resolve_endpoints d n (e # es) ts w =
     (case resolve_loop d n 0 (e, ts, w) of (e', ts', w') \<Rightarrow>
        (case resolve_endpoints d n es ts' w' of (es', ts'', w'') \<Rightarrow> (e' # es', ts'', w'')))"

definition resolve_ipc_reply_waiters_for_dead_partner :: "TaskId \<Rightarrow> 'm KernelState \<Rightarrow> 'm KernelState" where
  "resolve_ipc_reply_waiters_for_dead_partner dead_partner s =
     (case resolve_endpoints dead_partner (num_tasks s) (endpoints s) (tasks s) [] of (es, ts, wake_list) \<Rightarrow>
        fold wake_task_to_ready wake_list (s\<lparr>endpoints := es, tasks := ts\<rparr>))"

section \<open>User mappings of a dead task\<close>

definition collected_user_pages :: "AddressSpace \<Rightarrow> VirtPage list" where
  "collected_user_pages a = take 64 (map m_page (filter (\<lambda>m. flags_contain (m_flags m) USER) (each_mapping a)))"

definition unmap_user_page :: "'m Env \<Rightarrow> PhysFrame \<Rightarrow> usize \<times> VirtPage \<Rightarrow> 'm KernelState \<Rightarrow> 'm KernelState option" where
  "unmap_user_page E root ip s = (case ip of (i, page) \<Rightarrow> do {
     (res, pm, h) \<leftarrow> apply_mem_action_in_root E (Unmap page) root (phys_mem s) (hw s);
     (case res of
        Inl _ \<Rightarrow> None
      | Inr _ \<Rightarrow> do {
          (if i < 4 then do {
             va \<leftarrow> page_start_address page;
             virt_addr_u64 \<leftarrow> chk_add USER_SPACE_BASE (va_u64 va);
             debug_translate_in_root E root virt_addr_u64 h
           } else Some ());
          Some (s\<lparr>phys_mem := pm, hw := h\<rparr>)
        })
   })"

definition cleanup_user_mappings_of_address_space :: "'m Env \<Rightarrow> usize \<Rightarrow> 'm KernelState \<Rightarrow> 'm KernelState option" where
  "cleanup_user_mappings_of_address_space E as_idx s =
     (if as_idx \<ge> num_tasks s then Some s
      else if kind (address_spaces s ! as_idx) \<noteq> User then Some s
      else do {
        root \<leftarrow> root_page_frame (address_spaces s ! as_idx);
        let pages = collected_user_pages (address_spaces s ! as_idx);
            s1 = upd_aspace as_idx (clear_user_mappings (address_spaces s ! as_idx)) s
        in foldM (unmap_user_page E root) (enumerate 0 pages) s1
      })"

section \<open>Halting without user tasks\<close>

text \<open>The dump only logs, but indexes the address spaces unchecked.\<close>

definition dump_events :: "'m KernelState \<Rightarrow> unit option" where
  "dump_events s =
     (if list_all (\<lambda>t. address_space_id t < length (address_spaces s)) (take (num_tasks s) (tasks s)) then Some () else None)"

definition maybe_halt_if_no_user_tasks :: "'m Env \<Rightarrow> 'm KernelState \<Rightarrow> 'm KernelState option" where
  "maybe_halt_if_no_user_tasks E s =
     (if halt_dumped_no_user_tasks s then Some s
      else if alive_user_task_count s \<noteq> 0 then Some s
      else do {
        s1 \<leftarrow> switch_to_kernel E s;
        dump_events s1;
        Some (s1\<lparr>halt_dumped_no_user_tasks := True, should_halt := True\<rparr>)
      })"

section \<open>kill\_task\<close>

definition count_kill :: "TaskKillReason \<Rightarrow> 'm KernelState \<Rightarrow> 'm KernelState option" where
  "count_kill reason s =
     (case reason of
        UserPageFault _ _ _ \<Rightarrow> do { n \<leftarrow> chk_inc (task_killed_user_pf (counters s));
                                  Some (s\<lparr>counters := (counters s)\<lparr>task_killed_user_pf := n\<rparr>\<rparr>) }
      | DemoInjected _ \<Rightarrow> do { n \<leftarrow> chk_inc (task_killed_demo_injected (counters s));
                               Some (s\<lparr>counters := (counters s)\<lparr>task_killed_demo_injected := n\<rparr>\<rparr>) })"

definition dead_task :: "Task \<Rightarrow> Task" where
  "dead_task t = t\<lparr>t_state := Dead, blocked_reason := None, pending_syscall := None, pending_send_msg := None,
     last_msg := None, last_reply := None, last_syscall_ret := None, last_syscall_ret_unread := False,
     time_slice_used := 0\<rparr>"

definition detach_task :: "usize \<Rightarrow> 'm KernelState \<Rightarrow> 'm KernelState" where
  "detach_task idx s =
     (let s1 = snd (remove_from_ready_queue idx s);
          s2 = snd (remove_from_wait_queue idx s1);
          s3 = upd_task idx dead_task (remove_task_from_endpoints idx s2)
      in s3\<lparr>mem_demo_stage := (mem_demo_stage s3)[idx := 0],
            mem_demo_mapped := (mem_demo_mapped s3)[idx := False],
            mem_demo_frame := (mem_demo_frame s3)[idx := None],
            demo_early_sent_by_task0 := False\<rparr>)"

definition endpoints_to_close :: "TaskId \<Rightarrow> 'm KernelState \<Rightarrow> EndpointId list" where
  "endpoints_to_close dead_id s = map ep_id (filter (\<lambda>e. ep_owner e = Some dead_id) (endpoints s))"

definition kill_task :: "'m Env \<Rightarrow> usize \<Rightarrow> TaskKillReason \<Rightarrow> 'm KernelState \<Rightarrow> 'm KernelState option" where
  "kill_task E idx reason s = do {
     s0 \<leftarrow> count_kill reason s;
     (if idx \<ge> num_tasks s0 then Some s0
      else (let dead_id = t_id (tasks s0 ! idx); as_idx = address_space_id (tasks s0 ! idx) in do {
        s1 \<leftarrow> cleanup_user_mappings_of_address_space E as_idx (detach_task idx s0);
        let s2 = fold close_endpoint_and_rescue_waiters (endpoints_to_close dead_id s1) s1;
            s3 = resolve_ipc_reply_waiters_for_dead_partner dead_id s2;
            s4 = push_event (TaskStateChanged dead_id Dead) (push_event (TaskKilled dead_id reason) s3)
        in do {
          s5 \<leftarrow> (if idx = current_task s4 then schedule_next_task E s4 else Some s4);
          maybe_halt_if_no_user_tasks E s5
        }
      }))
   }"

definition demo_kill_task :: "'m Env \<Rightarrow> usize \<Rightarrow> TaskKillReason \<Rightarrow> 'm KernelState \<Rightarrow> 'm KernelState option" where
  "demo_kill_task E idx reason s = kill_task E idx reason s"

definition kill_current_task_due_to_user_pf :: "'m Env \<Rightarrow> PageFaultInfo \<Rightarrow> 'm KernelState \<Rightarrow> 'm KernelState option" where
  "kill_current_task_due_to_user_pf E pf s =
     (let idx = current_task s in do {
       t \<leftarrow> nth_chk (tasks s) idx;
       a \<leftarrow> nth_chk (address_spaces s) (address_space_id t);
       expected_stage \<leftarrow> nth_chk (mem_demo_stage s) idx;
       (if ignore_user_pf_demo E then Some s
        else kill_task E idx (UserPageFault (pf_addr pf) (pf_err pf) (pf_rip pf)) s)
     })"

end
