(* ===== verification/Syscalls.thy ===== *)
theory Syscalls
  imports Kill
begin

unbundle bit_operations_syntax

text \<open>
  The system call boundary (\<open>kernel/syscall.rs\<close>), the fault injection hooks (\<open>kernel/demo\<close>), the demo
  user programs (\<open>kernel/user_program.rs\<close>) and the ring 3 mailbox dispatcher.  The dispatcher
  also runs ticks and so takes the tick as an argument here.
\<close>

section \<open>Demo frames\<close>

definition get_or_alloc_demo_frame :: "'m Env \<Rightarrow> usize \<Rightarrow> 'm KernelState \<Rightarrow> (PhysFrame option \<times> 'm KernelState) option" where
  "get_or_alloc_demo_frame E task_idx s =
     (if task_idx \<ge> num_tasks s then Some (None, s)
      else (case mem_demo_frame s ! task_idx of
              Some f \<Rightarrow> Some (Some f, s)
            | None \<Rightarrow> do {
                (r, pm) \<leftarrow> allocate_frame (phys_addr_ok E) (phys_mem s);
                (case r of
                   Some f \<Rightarrow> Some (Some f, (push_event FrameAllocated (s\<lparr>phys_mem := pm\<rparr>))
                                \<lparr>mem_demo_frame := (mem_demo_frame s)[task_idx := Some f]\<rparr>)
                 | None \<Rightarrow> Some (None, s\<lparr>phys_mem := pm\<rparr>))
              }))"

section \<open>Memory system calls\<close>

definition SYSCALL_OK :: u64 where "SYSCALL_OK = 0"
definition SYSCALL_ERR_ALREADY_MAPPED :: u64 where "SYSCALL_ERR_ALREADY_MAPPED = 1"
definition SYSCALL_ERR_NOT_MAPPED :: u64 where "SYSCALL_ERR_NOT_MAPPED = 2"
definition SYSCALL_ERR_CAPACITY :: u64 where "SYSCALL_ERR_CAPACITY = 3"
definition SYSCALL_ERR_ARCH_FAILED :: u64 where "SYSCALL_ERR_ARCH_FAILED = 10"
definition SYSCALL_ERR_BAD_ASPACE :: u64 where "SYSCALL_ERR_BAD_ASPACE = 11"

fun logical_error :: "AddressSpaceError \<Rightarrow> u64" where
  "logical_error AlreadyMapped = SYSCALL_ERR_ALREADY_MAPPED"
| "logical_error NotMapped = SYSCALL_ERR_NOT_MAPPED"
| "logical_error CapacityExceeded = SYSCALL_ERR_CAPACITY"

definition arch_apply :: "'m Env \<Rightarrow> usize \<Rightarrow> MemAction \<Rightarrow> 'm KernelState \<Rightarrow> (u64 \<times> 'm KernelState) option" where
  "arch_apply E as_idx mem_action s =
     (case kind (address_spaces s ! as_idx) of
        Kernel \<Rightarrow> do {
          (res, pm, h) \<leftarrow> apply_mem_action E mem_action (phys_mem s) (hw s);
          Some (case res of Inr _ \<Rightarrow> SYSCALL_OK | Inl _ \<Rightarrow> SYSCALL_ERR_ARCH_FAILED, s\<lparr>phys_mem := pm, hw := h\<rparr>)
        }
      | User \<Rightarrow>
          (case root_page_frame (address_spaces s ! as_idx) of
             None \<Rightarrow> Some (SYSCALL_ERR_BAD_ASPACE, s)
           | Some root \<Rightarrow> do {
               (res, pm, h) \<leftarrow> apply_mem_action_in_root E mem_action root (phys_mem s) (hw s);
               Some (case res of Inr _ \<Rightarrow> SYSCALL_OK | Inl _ \<Rightarrow> SYSCALL_ERR_ARCH_FAILED, s\<lparr>phys_mem := pm, hw := h\<rparr>)
             }))"

definition logical_then_arch :: "'m Env \<Rightarrow> usize \<Rightarrow> MemAction \<Rightarrow> 'm KernelState \<Rightarrow> (u64 \<times> 'm KernelState) option" where
  "logical_then_arch E as_idx mem_action s =
     (case as_apply (address_spaces s ! as_idx) mem_action of
        Inl err \<Rightarrow> Some (logical_error err, s)
      | Inr a' \<Rightarrow> arch_apply E as_idx mem_action (upd_aspace as_idx a' s))"

definition syscall_page_map :: "'m Env \<Rightarrow> usize \<Rightarrow> VirtPage \<Rightarrow> PageFlags \<Rightarrow> 'm KernelState \<Rightarrow> (u64 \<times> 'm KernelState) option" where
  "syscall_page_map E task_index page flags s =
     (if task_index \<ge> num_tasks s then Some (SYSCALL_ERR_BAD_ASPACE, s)
      else (let as_idx = address_space_id (tasks s ! task_index) in
        if as_idx \<ge> num_tasks s then Some (SYSCALL_ERR_BAD_ASPACE, s)
        else do {
          (r, s1) \<leftarrow> get_or_alloc_demo_frame E task_index s;
          (case r of
             None \<Rightarrow> Some (SYSCALL_ERR_ARCH_FAILED, s1)
           | Some frame \<Rightarrow> logical_then_arch E as_idx (Map page frame flags) s1)
        }))"

definition syscall_page_unmap :: "'m Env \<Rightarrow> usize \<Rightarrow> VirtPage \<Rightarrow> 'm KernelState \<Rightarrow> (u64 \<times> 'm KernelState) option" where
  "syscall_page_unmap E task_index page s =
     (if task_index \<ge> num_tasks s then Some (SYSCALL_ERR_BAD_ASPACE, s)
      else (let as_idx = address_space_id (tasks s ! task_index) in
        if as_idx \<ge> num_tasks s then Some (SYSCALL_ERR_BAD_ASPACE, s)
        else logical_then_arch E as_idx (Unmap page) s))"

section \<open>Dispatch\<close>

definition on_after_ipc_recv :: "'m Env \<Rightarrow> usize \<Rightarrow> TaskId \<Rightarrow> EndpointId \<Rightarrow> 'm KernelState \<Rightarrow> 'm KernelState option" where
  "on_after_ipc_recv E task_index tid ep s =
     (if dead_partner_test E \<and> tid = 3 \<and> \<not> DEAD_PARTNER_FIRED (hw s)
      then demo_kill_task E task_index (DemoInjected 0xD34D0001) (s\<lparr>hw := (hw s)\<lparr>DEAD_PARTNER_FIRED := True\<rparr>\<rparr>)
      else Some s)"

fun is_ipc_syscall :: "Syscall \<Rightarrow> bool" where
  "is_ipc_syscall (SysIpcRecv _) = True"
| "is_ipc_syscall (SysIpcSend _ _) = True"
| "is_ipc_syscall (SysIpcReply _ _) = True"
| "is_ipc_syscall _ = False"

definition handle_syscall :: "'m Env \<Rightarrow> Syscall \<Rightarrow> 'm KernelState \<Rightarrow> 'm KernelState option" where
  "handle_syscall E sc s =
     (let task_index = current_task s in
      if task_index \<ge> num_tasks s then Some s
      else (let tid = t_id (tasks s ! task_index); as_idx = address_space_id (tasks s ! task_index) in
        if as_idx < num_tasks s \<and> kind (address_spaces s ! as_idx) = Kernel \<and> is_ipc_syscall sc then Some s
        else (let s1 = push_event (SyscallHandled tid) s in
          case sc of
            SysIpcRecv ep \<Rightarrow> do { s2 \<leftarrow> ipc_recv E ep s1; on_after_ipc_recv E task_index tid ep s2 }
          | SysIpcSend ep msg \<Rightarrow> ipc_send E ep msg s1
          | SysIpcReply ep msg \<Rightarrow> ipc_reply ep msg s1
          | SysPageMap page flags \<Rightarrow> do {
              (ret, s2) \<leftarrow> syscall_page_map E task_index page flags s1;
              Some (set_last_syscall_ret_for_current ret s2)
            }
          | SysPageUnmap page \<Rightarrow> do {
              (ret, s2) \<leftarrow> syscall_page_unmap E task_index page s1;
              Some (set_last_syscall_ret_for_current ret s2)
            })))"

definition handle_pending_syscall_if_any :: "'m Env \<Rightarrow> 'm KernelState \<Rightarrow> 'm KernelState option" where
  "handle_pending_syscall_if_any E s =
     (let idx = current_task s in
      if idx \<ge> num_tasks s then Some s
      else if t_state (tasks s ! idx) = Dead then Some (upd_task idx (\<lambda>t. t\<lparr>pending_syscall := None\<rparr>) s)
      else (case pending_syscall (tasks s ! idx) of
              None \<Rightarrow> Some s
            | Some sc \<Rightarrow> handle_syscall E sc (push_event (SyscallIssued (t_id (tasks s ! idx)))
                            (upd_task idx (\<lambda>t. t\<lparr>pending_syscall := None\<rparr>) s))))"

section \<open>Demo user programs\<close>

definition IPC_KICK_PERIOD_TICKS :: u64 where "IPC_KICK_PERIOD_TICKS = 8"

definition set_pending :: "usize \<Rightarrow> Syscall \<Rightarrow> 'm KernelState \<Rightarrow> 'm KernelState" where
  "set_pending i sc s = upd_task i (\<lambda>t. t\<lparr>pending_syscall := Some sc\<rparr>) s"

definition clear_reply :: "usize \<Rightarrow> 'm KernelState \<Rightarrow> 'm KernelState" where
  "clear_reply i s = (if last_reply (tasks s ! i) \<noteq> None then upd_task i (\<lambda>t. t\<lparr>last_reply := None\<rparr>) s else s)"

definition user_step_sender :: "'m Env \<Rightarrow> usize \<Rightarrow> 'm KernelState \<Rightarrow> 'm KernelState" where
  "user_step_sender E task_idx s =
     (let s1 = clear_reply task_idx s; ep = IPC_DEMO_EP0 in
      if ipc_demo_single_slow E then s1
      else if \<not> demo_sent_by_task1 s1 then
        set_pending task_idx (SysIpcSend ep (0x1111000000000000 XOR (tick_count s1 AND 0xFFFF)))
          (s1\<lparr>demo_sent_by_task1 := True\<rparr>)
      else if tick_count s1 \<noteq> 0 \<and> tick_count s1 mod IPC_KICK_PERIOD_TICKS = 0
              \<and> recv_waiter (endpoints s1 ! ep) \<noteq> None then
        set_pending task_idx (SysIpcSend ep (0x2222000000000000 XOR (tick_count s1 AND 0xFFFF))) s1
      else s1)"

definition user_step_server :: "usize \<Rightarrow> 'm KernelState \<Rightarrow> 'm KernelState" where
  "user_step_server task_idx s =
     (let ep = IPC_DEMO_EP0 in
      case last_msg (tasks s ! task_idx) of
        Some msg \<Rightarrow> set_pending task_idx (SysIpcReply ep (0xABCD000000000000 XOR (msg AND 0xFFFF)))
                      (upd_task task_idx (\<lambda>t. t\<lparr>last_msg := None\<rparr>) s)
      | None \<Rightarrow> set_pending task_idx (SysIpcRecv ep) s)"

definition user_step_issue_syscall :: "'m Env \<Rightarrow> usize \<Rightarrow> 'm KernelState \<Rightarrow> 'm KernelState" where
  "user_step_issue_syscall E task_idx s =
     (if task_idx \<ge> num_tasks s then s
      else if t_state (tasks s ! task_idx) = Dead then s
      else if pending_syscall (tasks s ! task_idx) \<noteq> None then s
      else if t_state (tasks s ! task_idx) = Blocked then s
      else (let s1 = snd (take_unread_last_syscall_ret task_idx s) in
        if task_idx = TASK0_INDEX then clear_reply task_idx s1
        else if task_idx = TASK1_INDEX then user_step_sender E task_idx s1
        else user_step_server task_idx s1))"

section \<open>Fault injection on the memory demo\<close>

definition evil_guard :: "'m KernelState \<Rightarrow> bool option" where
  "evil_guard ks =
     (let task_idx = current_task ks in
      if task_idx = TASK0_INDEX then Some False
      else if task_idx \<ge> num_tasks ks \<or> t_state (tasks ks ! task_idx) = Dead then Some True
      else if task_idx \<noteq> TASK1_INDEX then Some False
      else if pending_syscall (tasks ks ! task_idx) \<noteq> None then Some True
      else None)"

definition do_evil_double_map :: "'m KernelState \<Rightarrow> bool \<times> 'm KernelState" where
  "do_evil_double_map ks =
     (case evil_guard ks of
        Some b \<Rightarrow> (b, ks)
      | None \<Rightarrow>
          (let task_idx = current_task ks; stage = EVIL_MAP_STAGE (hw ks);
               page = demo_page_for_task task_idx; flags = PRESENT OR WRITABLE OR USER
           in if stage \<ge> 2 then (False, ks)
              else if stage = 0 then
                (True, (set_pending task_idx (SysPageMap page flags) ks)\<lparr>hw := (hw ks)\<lparr>EVIL_MAP_STAGE := 1\<rparr>\<rparr>)
              else (True, (set_pending task_idx (SysPageMap page flags) ks)\<lparr>hw := (hw ks)\<lparr>EVIL_MAP_STAGE := 2\<rparr>\<rparr>)))"

definition do_evil_unmap_not_mapped :: "'m KernelState \<Rightarrow> bool \<times> 'm KernelState" where
  "do_evil_unmap_not_mapped ks =
     (case evil_guard ks of
        Some b \<Rightarrow> (b, ks)
      | None \<Rightarrow>
          (if EVIL_UNMAP_FIRED (hw ks) then (False, ks)
           else (True, (set_pending (current_task ks) (SysPageUnmap (demo_page_for_task (current_task ks))) ks)
                   \<lparr>hw := (hw ks)\<lparr>EVIL_UNMAP_FIRED := True\<rparr>\<rparr>)))"

definition on_mem_demo :: "'m Env \<Rightarrow> 'm KernelState \<Rightarrow> bool \<times> 'm KernelState" where
  "on_mem_demo E ks =
     (if evil_double_map E then do_evil_double_map ks
      else if evil_unmap_not_mapped E then do_evil_unmap_not_mapped ks
      else (False, ks))"

section \<open>The ring 3 mailbox\<close>

definition mailbox_decode :: "u64 \<Rightarrow> u64 \<Rightarrow> u64 \<Rightarrow> u64 \<Rightarrow> Syscall option" where
  "mailbox_decode sysno a0 a1 a2 =
     (let ep = unat a0 in
      if sysno = 10 then Some (SysIpcRecv ep)
      else if sysno = 11 then Some (SysIpcSend ep a1)
      else if sysno = 12 then Some (SysIpcReply ep a1)
      else None)"

definition issue_decoded :: "'m Env \<Rightarrow> Syscall option \<Rightarrow> 'm KernelState \<Rightarrow> 'm KernelState option" where
  "issue_decoded E d ks =
     (case d of
        None \<Rightarrow> Some ks
      | Some sc \<Rightarrow> do {
          t \<leftarrow> nth_chk (tasks ks) (current_task ks);
          handle_syscall E sc (push_event (SyscallIssued (t_id t)) ks)
        })"

definition mailbox_dispatch :: "'m Env \<Rightarrow> ('m KernelState \<Rightarrow> 'm KernelState option)
    \<Rightarrow> u64 \<Rightarrow> u64 \<Rightarrow> u64 \<Rightarrow> u64 \<Rightarrow> 'm KernelState \<Rightarrow> (u64 \<times> 'm KernelState) option" where
  "mailbox_dispatch E do_tick sysno a0 a1 a2 ks =
     (let ring3_task_index = 1 in
      if sysno = 1 then Some (a0 + a1 + a2, ks)
      else if sysno = 2 then Some (tick_count ks, ks)
      else if sysno = 30 then do { ks1 \<leftarrow> do_tick ks; Some (tick_count ks1, ks1) }
      else if sysno = 31 then
        (if ring3_task_index < num_tasks ks then
           Some (case last_reply (tasks ks ! ring3_task_index) of None \<Rightarrow> 0 | Some v \<Rightarrow> v,
                 upd_task ring3_task_index (\<lambda>t. t\<lparr>last_reply := None\<rparr>) ks)
         else Some (0, ks))
      else if sysno = 10 \<or> sysno = 11 \<or> sysno = 12 then
        (let ks1 = (if ring3_task_index < num_tasks ks \<and> t_state (tasks ks ! ring3_task_index) \<noteq> Dead
                    then ks\<lparr>current_task := ring3_task_index\<rparr> else ks)
         in do { ks2 \<leftarrow> issue_decoded E (mailbox_decode sysno a0 a1 a2) ks1; Some (0, ks2) })
      else do {
        ks1 \<leftarrow> issue_decoded E (mailbox_decode sysno a0 a1 a2) ks;
        Some (0, ks1\<lparr>current_task := current_task ks\<rparr>)
      })"

end
