(* ===== verification/Debug_Check.thy ===== *)
theory Debug_Check
  imports Kill
begin

text \<open>
  \<open>debug_check_invariants\<close> (\<open>kernel/mod.rs\<close>), the self-check the kernel runs at the end of every tick.
  It logs a message for each violated invariant; here it returns the list of the messages, in the
  order of the log.  It panics only when the address of a user mapping overflows.
\<close>

definition viol :: "bool \<Rightarrow> string \<Rightarrow> string list" where
  "viol c msg = (if c then [msg] else [])"

definition chk_address_spaces :: "'m KernelState \<Rightarrow> string list" where
  "chk_address_spaces s =
     (let kernel_as = address_spaces s ! KERNEL_ASID_INDEX in
      viol (kind kernel_as \<noteq> Kernel) ''address_spaces[0] is not Kernel''
      @ viol (root_page_frame kernel_as = None) ''kernel address space has no root_page_frame''
      @ concat (map (\<lambda>as_idx. let aspace = address_spaces s ! as_idx in
           viol (kind aspace \<noteq> User) ''user address space kind is not User''
           @ viol (root_page_frame aspace = None) ''user address space has no root_page_frame'')
         [FIRST_USER_ASID_INDEX..<num_tasks s]))"

definition chk_layout :: "string list" where
  "chk_layout =
     viol (USER_SPACE_BASE \<noteq> USER_SPACE_START) ''USER_SPACE_BASE mismatch (arch vs mem::layout)''
     @ viol (USER_SPACE_SIZE \<noteq> layout_PML4_SLOT_SIZE) ''USER_SPACE_SIZE mismatch (arch vs mem::layout)''"

definition chk_task_reason :: "Task \<Rightarrow> string list" where
  "chk_task_reason t =
     (case t_state t of
        Blocked \<Rightarrow> viol (blocked_reason t = None) ''BLOCKED task has no blocked_reason''
      | Dead \<Rightarrow> viol (blocked_reason t \<noteq> None) ''DEAD task has blocked_reason''
          @ viol (last_msg t \<noteq> None \<or> last_reply t \<noteq> None \<or> pending_send_msg t \<noteq> None \<or> pending_syscall t \<noteq> None)
              ''DEAD task has leftover task-local state''
      | _ \<Rightarrow> viol (blocked_reason t \<noteq> None) ''non-BLOCKED task has blocked_reason'')"

definition chk_current :: "'m KernelState \<Rightarrow> string list" where
  "chk_current s =
     (if current_task s \<ge> num_tasks s then [''current_task out of range'']
      else (let st = t_state (tasks s ! current_task s) in
            if st = Dead then [''current_task is DEAD'']
            else if st \<noteq> Running then [''current_task is not RUNNING''] else []))"

definition chk_mapping_offset :: "Mapping \<Rightarrow> string list option" where
  "chk_mapping_offset m =
     (if \<not> flags_contain (m_flags m) USER then Some []
      else do {
        offset \<leftarrow> chk_mul (page_number (m_page m)) PAGE_SIZE;
        Some (viol (offset \<ge> USER_SPACE_SIZE) ''user mapping offset out of user slot range'')
      })"

definition chk_user_mappings :: "'m KernelState \<Rightarrow> string list option" where
  "chk_user_mappings s =
     foldM (\<lambda>as_idx acc.
        let aspace = address_spaces s ! as_idx in
        if kind aspace \<noteq> User then Some acc
        else foldM (\<lambda>m acc. do { v \<leftarrow> chk_mapping_offset m; Some (acc @ v) }) (each_mapping aspace) acc)
       [FIRST_USER_ASID_INDEX..<num_tasks s] []"

section \<open>Endpoints\<close>

definition chk_closed :: "Endpoint \<Rightarrow> string list" where
  "chk_closed e = viol (is_closed e \<and> (recv_waiter e \<noteq> None \<or> sq_len e \<noteq> 0 \<or> e_rq_len e \<noteq> 0)) ''CLOSED endpoint has waiters/queues''"

definition chk_recv_waiter :: "'m KernelState \<Rightarrow> Endpoint \<Rightarrow> string list" where
  "chk_recv_waiter s e =
     (case recv_waiter e of
        None \<Rightarrow> []
      | Some tidx \<Rightarrow>
          (if tidx \<ge> num_tasks s then [''endpoint.recv_waiter out of range'']
           else (let t = tasks s ! tidx in
             viol (is_kernel_task_index s tidx) ''kernel task appears as endpoint.recv_waiter''
             @ viol (t_state t = Dead) ''endpoint.recv_waiter points DEAD task''
             @ viol (t_state t \<noteq> Blocked) ''recv_waiter is not BLOCKED''
             @ viol (blocked_reason t \<noteq> Some (IpcRecv (ep_id e))) ''recv_waiter blocked_reason mismatch'')))"

definition chk_sender :: "'m KernelState \<Rightarrow> Endpoint \<Rightarrow> usize \<Rightarrow> string list" where
  "chk_sender s e tidx =
     (if tidx \<ge> num_tasks s then [''endpoint.send_queue idx out of range'']
      else (let t = tasks s ! tidx in
        viol (is_kernel_task_index s tidx) ''kernel task appears in endpoint.send_queue''
        @ viol (t_state t = Dead) ''send_queue contains DEAD task''
        @ viol (t_state t \<noteq> Blocked) ''sender in send_queue is not BLOCKED''
        @ viol (blocked_reason t \<noteq> Some (IpcSend (ep_id e))) ''sender blocked_reason mismatch''))"

definition partner_is_dead :: "'m KernelState \<Rightarrow> TaskId \<Rightarrow> bool" where
  "partner_is_dead s partner =
     (case find_pos (\<lambda>x. t_id x = partner) (tasks s) of
        Some pidx \<Rightarrow> t_state (tasks s ! pidx) = Dead | None \<Rightarrow> False)"

definition chk_reply_waiter :: "'m KernelState \<Rightarrow> Endpoint \<Rightarrow> usize \<Rightarrow> string list" where
  "chk_reply_waiter s e tidx =
     (if tidx \<ge> num_tasks s then [''endpoint.reply_queue idx out of range'']
      else (let t = tasks s ! tidx in
        viol (is_kernel_task_index s tidx) ''kernel task appears in endpoint.reply_queue''
        @ viol (t_state t = Dead) ''reply_queue contains DEAD task''
        @ viol (t_state t \<noteq> Blocked) ''reply waiter is not BLOCKED''
        @ (case blocked_reason t of
             Some (IpcReply partner ep) \<Rightarrow>
               (if ep = ep_id e then viol (partner_is_dead s partner) ''IpcReply waiter has DEAD partner''
                else [''reply waiter blocked_reason mismatch''])
           | _ \<Rightarrow> [''reply waiter blocked_reason mismatch''])))"

definition chk_endpoint :: "'m KernelState \<Rightarrow> Endpoint \<Rightarrow> string list" where
  "chk_endpoint s e =
     chk_closed e @ chk_recv_waiter s e
     @ concat (map (chk_sender s e) (take (sq_len e) (send_queue e)))
     @ concat (map (chk_reply_waiter s e) (take (e_rq_len e) (reply_queue e)))"

section \<open>Dead tasks, the wait queue and the reverse checks\<close>

definition chk_dead_task :: "'m KernelState \<Rightarrow> usize \<Rightarrow> string list" where
  "chk_dead_task s tidx =
     (let t = tasks s ! tidx in
      if t_state t \<noteq> Dead then []
      else viol (is_in_ready_queue s tidx) ''DEAD task is in ready_queue''
        @ viol (is_in_wait_queue s tidx) ''DEAD task is in wait_queue''
        @ (let as_idx = address_space_id t in
           viol (as_idx < num_tasks s \<and> kind (address_spaces s ! as_idx) = User
                 \<and> list_ex (\<lambda>m. flags_contain (m_flags m) USER) (each_mapping (address_spaces s ! as_idx)))
             ''DEAD task address space still has USER mappings''))"

definition chk_wait_entry :: "'m KernelState \<Rightarrow> usize \<Rightarrow> string list" where
  "chk_wait_entry s idx =
     (if idx \<ge> num_tasks s then [''wait_queue contains out-of-range idx'']
      else (let t = tasks s ! idx in
        if t_state t = Dead then [''wait_queue contains DEAD task'']
        else viol (t_state t \<noteq> Blocked) ''wait_queue contains non-BLOCKED task''
          @ viol (blocked_reason t \<noteq> Some Sleep) ''wait_queue contains non-Sleep blocked_reason''))"

definition chk_sleeper :: "'m KernelState \<Rightarrow> usize \<Rightarrow> string list" where
  "chk_sleeper s idx =
     (let t = tasks s ! idx in
      viol (t_state t = Blocked \<and> blocked_reason t = Some Sleep \<and> \<not> is_in_wait_queue s idx)
        ''Sleep BLOCKED task is not in wait_queue'')"

definition chk_reverse_reason :: "'m KernelState \<Rightarrow> usize \<Rightarrow> BlockedReason \<Rightarrow> string list" where
  "chk_reverse_reason s tidx reason =
     (case reason of
        Sleep \<Rightarrow> viol (\<not> is_in_wait_queue s tidx) ''Sleep BLOCKED task not in wait_queue (reverse check)''
      | IpcRecv ep \<Rightarrow>
          (if ep \<ge> MAX_ENDPOINTS then [''IpcRecv has out-of-range ep (reverse check)'']
           else viol (recv_waiter (endpoints s ! ep) \<noteq> Some tidx) ''IpcRecv task not registered as recv_waiter (reverse check)''
             @ viol (is_in_wait_queue s tidx) ''IpcRecv task is in wait_queue (reverse check)'')
      | IpcSend ep \<Rightarrow>
          (if ep \<ge> MAX_ENDPOINTS then [''IpcSend has out-of-range ep (reverse check)'']
           else viol (\<not> array_contains (send_queue (endpoints s ! ep)) (sq_len (endpoints s ! ep)) tidx)
                  ''IpcSend task not found in endpoint.send_queue (reverse check)''
             @ viol (is_in_wait_queue s tidx) ''IpcSend task is in wait_queue (reverse check)'')
      | IpcReply partner ep \<Rightarrow>
          (if ep \<ge> MAX_ENDPOINTS then [''IpcReply has out-of-range ep (reverse check)'']
           else viol (\<not> array_contains (reply_queue (endpoints s ! ep)) (e_rq_len (endpoints s ! ep)) tidx)
                  ''IpcReply task not found in endpoint.reply_queue (reverse check)''
             @ viol (partner_is_dead s partner) ''IpcReply waiter has DEAD partner (reverse check)''
             @ viol (is_in_wait_queue s tidx) ''IpcReply task is in wait_queue (reverse check)''))"

definition chk_reverse :: "'m KernelState \<Rightarrow> usize \<Rightarrow> string list" where
  "chk_reverse s tidx =
     (let t = tasks s ! tidx in
      if t_state t = Dead then []
      else if t_state t \<noteq> Blocked then []
      else (case blocked_reason t of
              None \<Rightarrow> [''BLOCKED task has no blocked_reason (reverse check)'']
            | Some reason \<Rightarrow> chk_reverse_reason s tidx reason))"

definition debug_check_invariants :: "'m KernelState \<Rightarrow> string list option" where
  "debug_check_invariants s = do {
     user_maps \<leftarrow> chk_user_mappings s;
     let ix = [0..<num_tasks s] in
     Some (chk_address_spaces s @ chk_layout
       @ concat (map chk_task_reason (take (num_tasks s) (tasks s)))
       @ chk_current s @ user_maps
       @ concat (map (chk_endpoint s) (endpoints s))
       @ concat (map (chk_dead_task s) ix)
       @ concat (map (chk_wait_entry s) (take (wq_len s) (wait_queue s)))
       @ concat (map (chk_sleeper s) ix)
       @ concat (map (chk_reverse s) ix))
   }"

end
