(* ===== verification/Tick.thy ===== *)
theory Tick
  imports Syscalls Debug_Check
begin

unbundle bit_operations_syntax

text \<open>
  The memory demo and the kernel's main step (\<open>kernel/mod.rs\<close>: \<open>do_mem_demo\<close>, \<open>tick\<close>, \<open>bootstrap\<close>), the boot path
  and main loop (\<open>kernel/entry.rs\<close>, normal build) and the mailbox entry of \<open>arch/interrupts.rs\<close>.
  The messages \<open>debug_check_invariants\<close> reports at the end of a tick are not part of the state.
\<close>

section \<open>The memory demo\<close>

definition demo_rw_value :: "u64 \<Rightarrow> u64 \<Rightarrow> 'm KernelState \<Rightarrow> u64" where
  "demo_rw_value base tid s = base XOR push_bit 16 (tid AND 0xFFFF) XOR (tick_count s AND 0xFFFF)"

definition set_stage :: "usize \<Rightarrow> u8 \<Rightarrow> 'm KernelState \<Rightarrow> 'm KernelState" where
  "set_stage i v s = s\<lparr>mem_demo_stage := (mem_demo_stage s)[i := v]\<rparr>"

definition demo_guarded_rw :: "'m Env \<Rightarrow> PhysFrame \<Rightarrow> u64 \<Rightarrow> u64 \<Rightarrow> 'm KernelState
    \<Rightarrow> ((PageFaultInfo + u64) \<times> 'm KernelState) option" where
  "demo_guarded_rw E root virt_addr_u64 test_value s = do {
     kernel_root \<leftarrow> root_page_frame (address_spaces s ! KERNEL_ASID_INDEX);
     (res, h) \<leftarrow> guarded_user_rw_u64_in_root E root kernel_root virt_addr_u64 test_value (hw s);
     Some (res, s\<lparr>hw := h\<rparr>)
   }"

definition mem_demo_user_stage1 :: "'m Env \<Rightarrow> usize \<Rightarrow> PhysFrame \<Rightarrow> u64 \<Rightarrow> 'm KernelState \<Rightarrow> 'm KernelState option" where
  "mem_demo_user_stage1 E task_idx root virt_addr_u64 s = do {
     (rw_result, s1) \<leftarrow> demo_guarded_rw E root virt_addr_u64 (demo_rw_value 0xC0DE000000000000 (t_id (tasks s ! task_idx)) s) s;
     (case rw_result of
        Inl pf \<Rightarrow> do { s2 \<leftarrow> kill_current_task_due_to_user_pf E pf s1; Some (set_stage task_idx 0 s2) }
      | Inr read_back \<Rightarrow> do {
          debug_translate_in_root E root virt_addr_u64 (hw s1);
          Some (set_stage task_idx 2 s1)
        })
   }"

definition mem_demo_user_stage3 :: "'m Env \<Rightarrow> usize \<Rightarrow> PhysFrame \<Rightarrow> u64 \<Rightarrow> 'm KernelState \<Rightarrow> 'm KernelState option" where
  "mem_demo_user_stage3 E task_idx root virt_addr_u64 s =
     (if \<not> pf_demo E then Some (set_stage task_idx 0 s)
      else do {
        (rw_result, s1) \<leftarrow> demo_guarded_rw E root virt_addr_u64 (demo_rw_value 0xDEAD000000000000 (t_id (tasks s ! task_idx)) s) s;
        (case rw_result of
           Inr read_back \<Rightarrow> Some (set_stage task_idx 0 s1)
         | Inl pf \<Rightarrow> do { s2 \<leftarrow> kill_current_task_due_to_user_pf E pf s1; Some (set_stage task_idx 0 s2) })
      })"

definition mem_demo_user :: "'m Env \<Rightarrow> usize \<Rightarrow> usize \<Rightarrow> PageFlags \<Rightarrow> 'm KernelState \<Rightarrow> 'm KernelState option" where
  "mem_demo_user E task_idx as_idx flags s =
     (let page = demo_page_for_task task_idx in do {
        root \<leftarrow> root_page_frame (address_spaces s ! as_idx);
        va \<leftarrow> page_start_address page;
        virt_addr_u64 \<leftarrow> chk_add USER_SPACE_BASE (va_u64 va);
        let stage = mem_demo_stage s ! task_idx in
        if stage = 0 then Some (set_stage task_idx 1 (set_pending task_idx (SysPageMap page flags) s))
        else if stage = 1 then mem_demo_user_stage1 E task_idx root virt_addr_u64 s
        else if stage = 2 then
          Some (set_stage task_idx (if pf_demo E then 3 else 0) (set_pending task_idx (SysPageUnmap page) s))
        else if stage = 3 then mem_demo_user_stage3 E task_idx root virt_addr_u64 s
        else Some (set_stage task_idx 0 s)
      })"

definition mem_demo_kernel_apply :: "'m Env \<Rightarrow> usize \<Rightarrow> usize \<Rightarrow> MemAction \<Rightarrow> 'm KernelState \<Rightarrow> 'm KernelState option" where
  "mem_demo_kernel_apply E task_idx as_idx mem_action s = do {
     a \<leftarrow> nth_chk (address_spaces s) as_idx;
     (case as_apply a mem_action of
        Inl _ \<Rightarrow> None
      | Inr a' \<Rightarrow> do {
          (res, pm, h) \<leftarrow> apply_mem_action E mem_action (phys_mem s) (hw s);
          (case res of
             Inl _ \<Rightarrow> None
           | Inr _ \<Rightarrow>
               (let s1 = (upd_aspace as_idx a' s)\<lparr>phys_mem := pm, hw := h\<rparr>;
                    s2 = s1\<lparr>mem_demo_mapped := (mem_demo_mapped s1)[task_idx := \<not> mem_demo_mapped s1 ! task_idx]\<rparr>
                in Some (push_event (MemActionApplied (t_id (tasks s ! task_idx)) as_idx mem_action) s2)))
        })
   }"

definition mem_demo_kernel :: "'m Env \<Rightarrow> usize \<Rightarrow> usize \<Rightarrow> PageFlags \<Rightarrow> 'm KernelState \<Rightarrow> 'm KernelState option" where
  "mem_demo_kernel E task_idx as_idx flags s =
     (let page = demo_page_for_task task_idx in
      if \<not> mem_demo_mapped s ! task_idx then do {
        (r, s1) \<leftarrow> get_or_alloc_demo_frame E task_idx s;
        (case r of
           None \<Rightarrow> Some (s1\<lparr>should_halt := True\<rparr>)
         | Some frame \<Rightarrow> mem_demo_kernel_apply E task_idx as_idx (Map page frame flags) s1)
      } else mem_demo_kernel_apply E task_idx as_idx (Unmap page) s)"

definition do_mem_demo_normal :: "'m Env \<Rightarrow> 'm KernelState \<Rightarrow> 'm KernelState option" where
  "do_mem_demo_normal E s =
     (let task_idx = current_task s in do {
        task \<leftarrow> nth_chk (tasks s) task_idx;
        (if t_state task = Dead then Some s
         else (let flags = (if task_idx = TASK0_INDEX then PRESENT OR WRITABLE else PRESENT OR WRITABLE OR USER);
                   as_idx = address_space_id task;
                   aspace_kind = (if as_idx < num_tasks s then kind (address_spaces s ! as_idx) else Kernel)
               in if task_idx \<noteq> TASK0_INDEX then
                    (if aspace_kind \<noteq> User then Some s else mem_demo_user E task_idx as_idx flags s)
                  else mem_demo_kernel E task_idx as_idx flags s))
      })"

definition do_mem_demo :: "'m Env \<Rightarrow> 'm KernelState \<Rightarrow> 'm KernelState option" where
  "do_mem_demo E s = (case on_mem_demo E s of (injected, s1) \<Rightarrow>
     if injected then Some s1 else do_mem_demo_normal E s1)"

section \<open>The tick\<close>

fun tick_action :: "'m Env \<Rightarrow> KernelAction \<Rightarrow> 'm KernelState \<Rightarrow> 'm KernelState option" where
  "tick_action E ActNone s = Some s"
| "tick_action E ActUpdateTimer s = do {
     n \<leftarrow> chk_inc (time_ticks s);
     Some (maybe_wake_one_sleep_task (push_event (TimerUpdated n) (s\<lparr>time_ticks := n\<rparr>)))
   }"
| "tick_action E ActAllocateFrame s = do {
     (r, pm) \<leftarrow> allocate_frame (phys_addr_ok E) (phys_mem s);
     (case r of
        Some _ \<Rightarrow> Some (push_event FrameAllocated (s\<lparr>phys_mem := pm\<rparr>))
      | None \<Rightarrow> Some (s\<lparr>phys_mem := pm, should_halt := True\<rparr>))
   }"
| "tick_action E ActMemDemo s = (if ring3_mailbox_loop E then Some s else do_mem_demo E s)"

definition tick_tail :: "'m Env \<Rightarrow> usize \<Rightarrow> KernelActivity \<Rightarrow> 'm KernelState \<Rightarrow> 'm KernelState option" where
  "tick_tail E ran_idx next_activity s = do {
     let s1 = (if ring3_mailbox_loop E \<and> ran_idx = TASK1_INDEX then s else user_step_issue_syscall E ran_idx s) in do {
     s2 \<leftarrow> (if ran_idx = current_task s1 then handle_pending_syscall_if_any E s1 else Some s1);
     s3 \<leftarrow> update_runtime_for ran_idx s2;
     let still_running = (ran_idx = current_task s3 \<and> t_state (tasks s3 ! ran_idx) = Running);
         blocked_by_sleep = (if still_running then maybe_block_task ran_idx s3 else False)
     in do {
     s4 \<leftarrow> (if still_running \<and> \<not> blocked_by_sleep then update_time_slice_for_and_maybe_schedule E ran_idx s3 else Some s3);
     s5 \<leftarrow> maybe_halt_if_no_user_tasks E (s4\<lparr>activity := next_activity\<rparr>);
     debug_check_invariants s5;
     Some s5
   } } }"

definition tick :: "'m Env \<Rightarrow> 'm KernelState \<Rightarrow> 'm KernelState option" where
  "tick E s =
     (if should_halt s then Some s
      else do {
        n \<leftarrow> chk_inc (tick_count s);
        let s1 = push_event (TickStarted n) (s\<lparr>tick_count := n\<rparr>);
            ran_idx = current_task s1
        in do {
        running \<leftarrow> nth_chk (tasks s1) ran_idx;
        (case next_activity_and_action (activity s1) of (next_activity, action) \<Rightarrow> do {
          s2 \<leftarrow> tick_action E action s1;
          (if ran_idx < num_tasks s2 \<and> t_state (tasks s2 ! ran_idx) = Dead then
             (let s3 = s2\<lparr>activity := next_activity\<rparr> in
              do {
                s4 \<leftarrow> (if current_task s3 < num_tasks s3 \<and> t_state (tasks s3 ! current_task s3) \<noteq> Running
                       then schedule_next_task E s3 else Some s3);
                debug_check_invariants s4;
                Some s4
              })
           else tick_tail E ran_idx next_activity s2)
        })
      } })"

section \<open>Boot and main loop\<close>

fun bootstrap_loop :: "'m Env \<Rightarrow> nat \<Rightarrow> 'm KernelState \<Rightarrow> 'm KernelState option" where
  "bootstrap_loop E 0 s = Some s"
| "bootstrap_loop E (Suc k) s = do {
     (r, pm) \<leftarrow> allocate_frame (phys_addr_ok E) (phys_mem s);
     (case r of
        Some _ \<Rightarrow> bootstrap_loop E k (push_event FrameAllocated (s\<lparr>phys_mem := pm\<rparr>))
      | None \<Rightarrow> Some (s\<lparr>phys_mem := pm, should_halt := True\<rparr>))
   }"

definition bootstrap :: "'m Env \<Rightarrow> 'm KernelState \<Rightarrow> 'm KernelState option" where
  "bootstrap E s = bootstrap_loop E 5 s"

fun tick_loop :: "'m Env \<Rightarrow> nat \<Rightarrow> 'm KernelState \<Rightarrow> 'm KernelState option" where
  "tick_loop E 0 s = Some s"
| "tick_loop E (Suc k) s = (if should_halt s then Some s else do { s' \<leftarrow> tick E s; tick_loop E k s' })"

definition kernel_high_entry :: "'m Env \<Rightarrow> region list \<Rightarrow> 'm Machine \<Rightarrow> 'm KernelState option" where
  "kernel_high_entry E boot_map h = do {
     s0 \<leftarrow> KernelState_new E boot_map h;
     s1 \<leftarrow> bootstrap E s0;
     s2 \<leftarrow> tick_loop E 120 s1;
     dump_events s2;
     Some s2
   }"

definition start :: "'m Env \<Rightarrow> u64 \<Rightarrow> u64 \<Rightarrow> u64 \<Rightarrow> region list \<Rightarrow> 'm Machine \<Rightarrow> 'm KernelState option" where
  "start E code_addr stack_addr test_fn_addr boot_map h = do {
     h1 \<leftarrow> configure_cr3_switch_safety E code_addr stack_addr h;
     h2 \<leftarrow> install_kernel_high_alias_from_current E test_fn_addr h1;
     kernel_high_entry E boot_map h2
   }"

section \<open>The mailbox interrupt\<close>

definition guarded_read_or_zero :: "'m Env \<Rightarrow> PhysFrame \<Rightarrow> PhysFrame \<Rightarrow> u64 \<Rightarrow> 'm KernelState \<Rightarrow> (u64 \<times> 'm KernelState) option" where
  "guarded_read_or_zero E user_root kernel_root p s = do {
     (r, h) \<leftarrow> guarded_user_read_u64_in_root E user_root kernel_root p (hw s);
     Some (case r of Inr v \<Rightarrow> v | Inl _ \<Rightarrow> 0, s\<lparr>hw := h\<rparr>)
   }"

definition int80_handler_mailbox :: "'m Env \<Rightarrow> u64 \<Rightarrow> 'm KernelState \<Rightarrow> 'm KernelState option" where
  "int80_handler_mailbox E user_rsp s = do {
     (roots, h) \<leftarrow> cache_demo_roots_if_needed (hw s);
     (user_root, kernel_root) \<leftarrow> roots;
     (sysno, s1) \<leftarrow> guarded_read_or_zero E user_root kernel_root (user_rsp - 16) (s\<lparr>hw := h\<rparr>);
     (a0, s2) \<leftarrow> guarded_read_or_zero E user_root kernel_root (user_rsp - 24) s1;
     (a1, s3) \<leftarrow> guarded_read_or_zero E user_root kernel_root (user_rsp - 32) s2;
     (a2, s4) \<leftarrow> guarded_read_or_zero E user_root kernel_root (user_rsp - 40) s3;
     (ret, s5) \<leftarrow> mailbox_dispatch E (tick E) sysno a0 a1 a2 s4;
     (res, h2) \<leftarrow> guarded_user_rw_u64_in_root E user_root kernel_root (user_rsp - 48) ret (hw s5);
     h3 \<leftarrow> switch_address_space_quiet E user_root h2;
     Some (s5\<lparr>hw := h3\<rparr>)
   }"

end
