(* ===== verification/Inv_Core.thy ===== *)
theory Inv_Core
  imports Tick
begin

text \<open>
  The kernel invariant.  \<open>core D s\<close> relates the tasks to the structures that hold them: a task is in
  the ready queue exactly when it is a user task in state \<open>Ready\<close>, in an endpoint's send queue, reply
  queue or receive slot exactly when its blocked reason says so, and the partner of a reply waiter is
  another live user task.  The tasks in \<open>D\<close> are detached: an operation has taken them out of every
  structure and not yet put them where they belong, so that each operation is a chain of detaching
  and attaching steps.  \<open>kinv\<close> is the invariant between operations.
\<close>

section \<open>The invariant\<close>

abbreviation tk :: "'m KernelState \<Rightarrow> usize \<Rightarrow> Task" where
  "tk s i \<equiv> tasks s ! i"

definition rdy :: "'m KernelState \<Rightarrow> usize list" where
  "rdy s = take (rq_len s) (ready_queue s)"

definition user_flags :: PageFlags where
  "user_flags = or (or PRESENT WRITABLE) USER"

definition user_page :: VirtPage where
  "user_page = VirtPage DEMO_VIRT_PAGE_INDEX_USER"

definition pending_ok :: "Syscall option \<Rightarrow> bool" where
  "pending_ok p = (case p of
     Some (SysPageMap page flags) \<Rightarrow> page = user_page \<and> flags = user_flags
   | Some (SysPageUnmap page) \<Rightarrow> page = user_page
   | _ \<Rightarrow> True)"

definition reason_ok :: "BlockedReason option \<Rightarrow> bool" where
  "reason_ok r = (case r of None \<Rightarrow> True | Some Sleep \<Rightarrow> False | Some b \<Rightarrow> br_ep b < MAX_ENDPOINTS)"

definition task_ok :: "usize \<Rightarrow> Task \<Rightarrow> bool" where
  "task_ok i t \<longleftrightarrow> (t_state t = Blocked \<longleftrightarrow> blocked_reason t \<noteq> None) \<and> reason_ok (blocked_reason t)
     \<and> (pending_send_msg t \<noteq> None \<longleftrightarrow> (\<exists>ep. blocked_reason t = Some (IpcSend ep)))
     \<and> (i = 0 \<longrightarrow> (t_state t = Ready \<or> t_state t = Running) \<and> pending_syscall t = None)
     \<and> pending_ok (pending_syscall t)
     \<and> (t_state t = Dead \<longrightarrow> last_msg t = None \<and> last_reply t = None \<and> pending_syscall t = None)"

definition partner_ok :: "usize set \<Rightarrow> 'm KernelState \<Rightarrow> usize \<Rightarrow> TaskId \<Rightarrow> bool" where
  "partner_ok D s i p \<longleftrightarrow> (\<exists>k. 0 < k \<and> k < 3 \<and> k \<noteq> i \<and> p = of_nat (Suc k) \<and> (k \<in> D \<or> t_state (tk s k) \<noteq> Dead))"

definition blk :: "usize set \<Rightarrow> 'm KernelState \<Rightarrow> (BlockedReason option \<Rightarrow> bool) \<Rightarrow> usize set" where
  "blk D s P = {i. i < 3 \<and> i \<notin> D \<and> P (blocked_reason (tk s i))}"

definition wants_send :: "EndpointId \<Rightarrow> BlockedReason option \<Rightarrow> bool" where
  "wants_send j r \<longleftrightarrow> r = Some (IpcSend j)"

definition wants_reply :: "EndpointId \<Rightarrow> BlockedReason option \<Rightarrow> bool" where
  "wants_reply j r \<longleftrightarrow> (\<exists>p. r = Some (IpcReply p j))"

definition wants_recv :: "EndpointId \<Rightarrow> BlockedReason option \<Rightarrow> bool" where
  "wants_recv j r \<longleftrightarrow> r = Some (IpcRecv j)"

definition ready_set :: "usize set \<Rightarrow> 'm KernelState \<Rightarrow> usize set" where
  "ready_set D s = {i. 0 < i \<and> i < 3 \<and> i \<notin> D \<and> t_state (tk s i) = Ready}"

definition ep_ok :: "usize set \<Rightarrow> 'm KernelState \<Rightarrow> usize \<Rightarrow> Endpoint \<Rightarrow> bool" where
  "ep_ok D s j e \<longleftrightarrow> ep_wf e \<and> ep_id e = j
     \<and> set (sq e) = blk D s (wants_send j) \<and> set (rq e) = blk D s (wants_reply j)
     \<and> set_option (recv_waiter e) = blk D s (wants_recv j)
     \<and> (is_closed e \<longrightarrow> recv_waiter e = None \<and> sq_len e = 0 \<and> e_rq_len e = 0)"

definition shape :: "'m KernelState \<Rightarrow> bool" where
  "shape s \<longleftrightarrow> num_tasks s = 3 \<and> length (tasks s) = 3 \<and> length (endpoints s) = 2 \<and> wq_len s = 0
     \<and> (\<forall>i < 3. t_id (tk s i) = of_nat (Suc i) \<and> address_space_id (tk s i) = i)"

definition rq_ok :: "usize set \<Rightarrow> 'm KernelState \<Rightarrow> bool" where
  "rq_ok D s \<longleftrightarrow> length (ready_queue s) = 3 \<and> rq_len s \<le> 3 \<and> distinct (rdy s)
     \<and> set (rdy s) = ready_set D s"

definition core :: "usize set \<Rightarrow> 'm KernelState \<Rightarrow> bool" where
  "core D s \<longleftrightarrow> shape s \<and> D \<subseteq> {1, 2} \<and> (\<forall>i < 3. i \<notin> D \<longrightarrow> task_ok i (tk s i)) \<and> rq_ok D s
     \<and> (\<forall>j < 2. ep_ok D s j (endpoints s ! j))
     \<and> (\<forall>i p j. i < 3 \<longrightarrow> i \<notin> D \<longrightarrow> blocked_reason (tk s i) = Some (IpcReply p j) \<longrightarrow> partner_ok D s i p)"

definition as_ok :: "usize \<Rightarrow> AddressSpace \<Rightarrow> bool" where
  "as_ok i a \<longleftrightarrow> as_wf a \<and> root_page_frame a \<noteq> None \<and> kind a = (if i = 0 then Kernel else User)
     \<and> (0 < i \<longrightarrow> (\<forall>m \<in> set (each_mapping a). m_page m = user_page \<and> m_flags m = user_flags))"

definition ainv :: "usize set \<Rightarrow> 'm KernelState \<Rightarrow> bool" where
  "ainv D s \<longleftrightarrow> length (address_spaces s) = 3 \<and> (\<forall>i < 3. as_ok i (address_spaces s ! i))
     \<and> (\<forall>i < 3. i \<notin> D \<longrightarrow> t_state (tk s i) = Dead \<longrightarrow> each_mapping (address_spaces s ! i) = [])
     \<and> length (mem_demo_stage s) = 3 \<and> length (mem_demo_mapped s) = 3 \<and> length (mem_demo_frame s) = 3"

definition at_most_current :: "'m KernelState \<Rightarrow> bool" where
  "at_most_current s \<longleftrightarrow> current_task s < 3 \<and> (\<forall>i < 3. t_state (tk s i) = Running \<longrightarrow> i = current_task s)"

definition pre_kinv :: "'m KernelState \<Rightarrow> bool" where
  "pre_kinv s \<longleftrightarrow> core {} s \<and> ainv {} s \<and> at_most_current s"

definition kinv :: "'m KernelState \<Rightarrow> bool" where
  "kinv s \<longleftrightarrow> pre_kinv s \<and> t_state (tk s (current_task s)) = Running"

section \<open>What the invariant does not depend on\<close>

lemma push_event_fields [simp]:
  "tasks (push_event ev s) = tasks s" "endpoints (push_event ev s) = endpoints s"
  "num_tasks (push_event ev s) = num_tasks s" "ready_queue (push_event ev s) = ready_queue s"
  "rq_len (push_event ev s) = rq_len s" "wq_len (push_event ev s) = wq_len s"
  "wait_queue (push_event ev s) = wait_queue s"
  "current_task (push_event ev s) = current_task s" "address_spaces (push_event ev s) = address_spaces s"
  "mem_demo_stage (push_event ev s) = mem_demo_stage s" "mem_demo_mapped (push_event ev s) = mem_demo_mapped s"
  "mem_demo_frame (push_event ev s) = mem_demo_frame s" "hw (push_event ev s) = hw s"
  "counters (push_event ev s) = counters s" "phys_mem (push_event ev s) = phys_mem s"
  "should_halt (push_event ev s) = should_halt s" "tick_count (push_event ev s) = tick_count s"
  "activity (push_event ev s) = activity s" "quantum (push_event ev s) = quantum s"
  "halt_dumped_no_user_tasks (push_event ev s) = halt_dumped_no_user_tasks s"
  by (simp_all add: push_event_def Let_def)

lemma core_cong:
  assumes "tasks s' = tasks s" "endpoints s' = endpoints s" "num_tasks s' = num_tasks s"
    "ready_queue s' = ready_queue s" "rq_len s' = rq_len s" "wq_len s' = wq_len s"
  shows "core D s' = core D s"
  by (simp add: core_def shape_def rq_ok_def ep_ok_def partner_ok_def rdy_def blk_def ready_set_def assms)

lemma core_frame [simp]:
  "core D (push_event ev s) = core D s" "core D (s\<lparr>hw := h\<rparr>) = core D s" "core D (s\<lparr>counters := c\<rparr>) = core D s"
  "core D (s\<lparr>phys_mem := pm\<rparr>) = core D s" "core D (s\<lparr>should_halt := b\<rparr>) = core D s"
  "core D (s\<lparr>tick_count := n\<rparr>) = core D s" "core D (s\<lparr>time_ticks := n\<rparr>) = core D s"
  "core D (s\<lparr>activity := a\<rparr>) = core D s" "core D (s\<lparr>address_spaces := aa\<rparr>) = core D s"
  "core D (s\<lparr>current_task := k\<rparr>) = core D s" "core D (s\<lparr>mem_demo_mapped := b1\<rparr>) = core D s"
  "core D (s\<lparr>mem_demo_stage := b2\<rparr>) = core D s" "core D (s\<lparr>mem_demo_frame := b3\<rparr>) = core D s"
  "core D (s\<lparr>demo_msgs_delivered := b4\<rparr>) = core D s" "core D (s\<lparr>demo_replies_sent := b4\<rparr>) = core D s"
  "core D (s\<lparr>demo_sent_by_task1 := b5\<rparr>) = core D s" "core D (s\<lparr>demo_early_sent_by_task0 := b5\<rparr>) = core D s"
  "core D (s\<lparr>halt_dumped_no_user_tasks := b6\<rparr>) = core D s"
  by (rule core_cong; simp)+

lemma ainv_cong:
  assumes "tasks s' = tasks s" "address_spaces s' = address_spaces s"
    "length (mem_demo_stage s') = length (mem_demo_stage s)"
    "length (mem_demo_mapped s') = length (mem_demo_mapped s)"
    "length (mem_demo_frame s') = length (mem_demo_frame s)"
  shows "ainv D s' = ainv D s"
  by (simp add: ainv_def assms)

lemma ainv_frame [simp]:
  "ainv D (push_event ev s) = ainv D s" "ainv D (s\<lparr>hw := h\<rparr>) = ainv D s" "ainv D (s\<lparr>counters := c\<rparr>) = ainv D s"
  "ainv D (s\<lparr>phys_mem := pm\<rparr>) = ainv D s" "ainv D (s\<lparr>should_halt := b\<rparr>) = ainv D s"
  "ainv D (s\<lparr>tick_count := n\<rparr>) = ainv D s" "ainv D (s\<lparr>time_ticks := n\<rparr>) = ainv D s"
  "ainv D (s\<lparr>activity := a\<rparr>) = ainv D s" "ainv D (s\<lparr>current_task := k\<rparr>) = ainv D s"
  "ainv D (s\<lparr>endpoints := es\<rparr>) = ainv D s" "ainv D (s\<lparr>ready_queue := q\<rparr>) = ainv D s"
  "ainv D (s\<lparr>rq_len := l\<rparr>) = ainv D s" "ainv D (upd_endpoint j g s) = ainv D s"
  "ainv D (s\<lparr>demo_msgs_delivered := b4\<rparr>) = ainv D s" "ainv D (s\<lparr>demo_replies_sent := b4\<rparr>) = ainv D s"
  "ainv D (s\<lparr>demo_sent_by_task1 := b5\<rparr>) = ainv D s" "ainv D (s\<lparr>demo_early_sent_by_task0 := b5\<rparr>) = ainv D s"
  "ainv D (s\<lparr>halt_dumped_no_user_tasks := b6\<rparr>) = ainv D s"
  by (rule ainv_cong; simp add: upd_endpoint_def)+

lemma at_most_current_cong:
  "tasks s' = tasks s \<Longrightarrow> current_task s' = current_task s \<Longrightarrow> at_most_current s' = at_most_current s"
  by (simp add: at_most_current_def)

lemma at_most_current_frame [simp]:
  "at_most_current (push_event ev s) = at_most_current s" "at_most_current (s\<lparr>hw := h\<rparr>) = at_most_current s"
  "at_most_current (s\<lparr>counters := c\<rparr>) = at_most_current s" "at_most_current (s\<lparr>phys_mem := pm\<rparr>) = at_most_current s"
  "at_most_current (s\<lparr>should_halt := b\<rparr>) = at_most_current s" "at_most_current (s\<lparr>tick_count := n\<rparr>) = at_most_current s"
  "at_most_current (s\<lparr>time_ticks := n\<rparr>) = at_most_current s" "at_most_current (s\<lparr>activity := a\<rparr>) = at_most_current s"
  "at_most_current (s\<lparr>endpoints := es\<rparr>) = at_most_current s" "at_most_current (s\<lparr>ready_queue := q\<rparr>) = at_most_current s"
  "at_most_current (s\<lparr>rq_len := l\<rparr>) = at_most_current s" "at_most_current (upd_endpoint j g s) = at_most_current s"
  "at_most_current (s\<lparr>address_spaces := aa\<rparr>) = at_most_current s"
  "at_most_current (s\<lparr>mem_demo_mapped := b1\<rparr>) = at_most_current s"
  "at_most_current (s\<lparr>mem_demo_stage := b2\<rparr>) = at_most_current s" "at_most_current (s\<lparr>mem_demo_frame := b3\<rparr>) = at_most_current s"
  "at_most_current (s\<lparr>demo_msgs_delivered := b4\<rparr>) = at_most_current s"
  "at_most_current (s\<lparr>demo_replies_sent := b4\<rparr>) = at_most_current s"
  "at_most_current (s\<lparr>demo_sent_by_task1 := b5\<rparr>) = at_most_current s"
  "at_most_current (s\<lparr>demo_early_sent_by_task0 := b5\<rparr>) = at_most_current s"
  "at_most_current (s\<lparr>halt_dumped_no_user_tasks := b6\<rparr>) = at_most_current s"
  by (rule at_most_current_cong; simp add: upd_endpoint_def)+

section \<open>Updating one task or one endpoint\<close>

lemma upd_task_fields [simp]:
  "endpoints (upd_task i f s) = endpoints s" "num_tasks (upd_task i f s) = num_tasks s"
  "ready_queue (upd_task i f s) = ready_queue s" "rq_len (upd_task i f s) = rq_len s"
  "wq_len (upd_task i f s) = wq_len s" "wait_queue (upd_task i f s) = wait_queue s"
  "current_task (upd_task i f s) = current_task s" "address_spaces (upd_task i f s) = address_spaces s"
  "mem_demo_stage (upd_task i f s) = mem_demo_stage s" "mem_demo_mapped (upd_task i f s) = mem_demo_mapped s"
  "mem_demo_frame (upd_task i f s) = mem_demo_frame s" "hw (upd_task i f s) = hw s"
  "counters (upd_task i f s) = counters s" "length (tasks (upd_task i f s)) = length (tasks s)"
  "phys_mem (upd_task i f s) = phys_mem s" "should_halt (upd_task i f s) = should_halt s"
  "tick_count (upd_task i f s) = tick_count s" "activity (upd_task i f s) = activity s"
  "quantum (upd_task i f s) = quantum s"
  "halt_dumped_no_user_tasks (upd_task i f s) = halt_dumped_no_user_tasks s"
  "rdy (upd_task i f s) = rdy s"
  by (simp_all add: upd_task_def rdy_def)

lemma upd_endpoint_fields [simp]:
  "tasks (upd_endpoint j g s) = tasks s" "num_tasks (upd_endpoint j g s) = num_tasks s"
  "ready_queue (upd_endpoint j g s) = ready_queue s" "rq_len (upd_endpoint j g s) = rq_len s"
  "wq_len (upd_endpoint j g s) = wq_len s" "wait_queue (upd_endpoint j g s) = wait_queue s"
  "current_task (upd_endpoint j g s) = current_task s" "address_spaces (upd_endpoint j g s) = address_spaces s"
  "mem_demo_stage (upd_endpoint j g s) = mem_demo_stage s" "mem_demo_mapped (upd_endpoint j g s) = mem_demo_mapped s"
  "mem_demo_frame (upd_endpoint j g s) = mem_demo_frame s" "hw (upd_endpoint j g s) = hw s"
  "counters (upd_endpoint j g s) = counters s" "length (endpoints (upd_endpoint j g s)) = length (endpoints s)"
  "phys_mem (upd_endpoint j g s) = phys_mem s" "should_halt (upd_endpoint j g s) = should_halt s"
  "rdy (upd_endpoint j g s) = rdy s"
  by (simp_all add: upd_endpoint_def rdy_def)

lemma rdy_push_event [simp]: "rdy (push_event ev s) = rdy s"
  by (simp add: rdy_def)

lemma tk_upd_task [simp]:
  "i < length (tasks s) \<Longrightarrow> tasks (upd_task i f s) ! k = (if k = i then f (tk s i) else tk s k)"
  by (simp add: upd_task_def nth_list_update)

lemma ep_upd_endpoint [simp]:
  "j < length (endpoints s) \<Longrightarrow> endpoints (upd_endpoint j g s) ! k = (if k = j then g (endpoints s ! j) else endpoints s ! k)"
  by (simp add: upd_endpoint_def nth_list_update)

lemma endpoints_upd_endpoint_id [simp]: "upd_endpoint j (\<lambda>_. endpoints s ! j) s = s"
  by (simp add: upd_endpoint_def)

lemma coreD:
  assumes "core D s"
  shows "num_tasks s = 3" "length (tasks s) = 3" "length (endpoints s) = 2" "wq_len s = 0"
    "i < 3 \<Longrightarrow> t_id (tk s i) = of_nat (Suc i)" "i < 3 \<Longrightarrow> address_space_id (tk s i) = i"
    "i < 3 \<Longrightarrow> i \<notin> D \<Longrightarrow> task_ok i (tk s i)" "rq_ok D s" "j < 2 \<Longrightarrow> ep_ok D s j (endpoints s ! j)"
    "D \<subseteq> {1, 2}"
    "i < 3 \<Longrightarrow> i \<notin> D \<Longrightarrow> blocked_reason (tk s i) = Some (IpcReply p j') \<Longrightarrow> partner_ok D s i p"
  using assms by (auto simp: core_def shape_def)

text \<open>The identity of a task never changes; \<open>same_id f\<close> is what every update of a task keeps.\<close>

definition same_id :: "(Task \<Rightarrow> Task) \<Rightarrow> bool" where
  "same_id f \<longleftrightarrow> (\<forall>t. t_id (f t) = t_id t \<and> address_space_id (f t) = address_space_id t)"

lemma shape_upd_task: "shape s \<Longrightarrow> same_id f \<Longrightarrow> i < 3 \<Longrightarrow> shape (upd_task i f s)"
  by (simp add: shape_def same_id_def)

lemma wants_None [simp]: "\<not> wants_send j None" "\<not> wants_reply j None" "\<not> wants_recv j None"
  by (simp_all add: wants_send_def wants_reply_def wants_recv_def)

lemma wants_Some [simp]:
  "wants_send j (Some (IpcSend j')) = (j' = j)" "\<not> wants_send j (Some (IpcReply p j'))" "\<not> wants_send j (Some (IpcRecv j'))"
  "\<not> wants_reply j (Some (IpcSend j'))" "wants_reply j (Some (IpcReply p j')) = (j' = j)" "\<not> wants_reply j (Some (IpcRecv j'))"
  "\<not> wants_recv j (Some (IpcSend j'))" "\<not> wants_recv j (Some (IpcReply p j'))" "wants_recv j (Some (IpcRecv j')) = (j' = j)"
  by (auto simp: wants_send_def wants_reply_def wants_recv_def)

lemma blk_insert: "blk (insert i D) s P = blk D s P - {i}"
  by (auto simp: blk_def)

lemma blk_attach: "i \<in> D \<Longrightarrow> i < 3 \<Longrightarrow>
    blk (D - {i}) s P = (if P (blocked_reason (tk s i)) then insert i (blk D s P) else blk D s P)"
  by (auto simp: blk_def)

lemma blk_detached [simp]: "i \<in> D \<Longrightarrow> i \<notin> blk D s P"
  by (simp add: blk_def)

lemma blk_not: "\<not> P (blocked_reason (tk s i)) \<Longrightarrow> i \<notin> blk D s P"
  by (simp add: blk_def)

lemma blk_upd_detached [simp]:
  "i \<in> D \<Longrightarrow> i < length (tasks s) \<Longrightarrow> blk D (upd_task i f s) P = blk D s P"
  unfolding blk_def by (rule Collect_cong) auto

lemma ready_insert: "ready_set (insert i D) s = ready_set D s - {i}"
  by (auto simp: ready_set_def)

lemma ready_attach: "i \<in> D \<Longrightarrow> 0 < i \<Longrightarrow> i < 3 \<Longrightarrow>
    ready_set (D - {i}) s = (if t_state (tk s i) = Ready then insert i (ready_set D s) else ready_set D s)"
  by (auto simp: ready_set_def)

lemma ready_not: "t_state (tk s i) \<noteq> Ready \<Longrightarrow> i \<notin> ready_set D s"
  by (simp add: ready_set_def)

lemma ready_upd_detached [simp]:
  "i \<in> D \<Longrightarrow> i < length (tasks s) \<Longrightarrow> ready_set D (upd_task i f s) = ready_set D s"
  unfolding ready_set_def by (rule Collect_cong) auto

lemma partner_ok_mono: "partner_ok D s i p \<Longrightarrow> D \<subseteq> D' \<Longrightarrow> partner_ok D' s i p"
  by (auto simp: partner_ok_def)

lemma partner_ok_upd_detached [simp]:
  "i \<in> D \<Longrightarrow> i < length (tasks s) \<Longrightarrow> partner_ok D (upd_task i f s) k p = partner_ok D s k p"
  unfolding partner_ok_def by (rule ex_cong1) auto

lemma coreI:
  assumes "shape s" "D \<subseteq> {1, 2}" "\<And>i. i < 3 \<Longrightarrow> i \<notin> D \<Longrightarrow> task_ok i (tk s i)" "rq_ok D s"
    "\<And>j. j < 2 \<Longrightarrow> ep_ok D s j (endpoints s ! j)"
    "\<And>i p j. i < 3 \<Longrightarrow> i \<notin> D \<Longrightarrow> blocked_reason (tk s i) = Some (IpcReply p j) \<Longrightarrow> partner_ok D s i p"
  shows "core D s"
  using assms unfolding core_def by blast

lemma core_shape: "core D s \<Longrightarrow> shape s"
  by (simp add: core_def)

lemma detached_bounds:
  assumes "core D s" "i \<in> D"
  shows "0 < i" "i < 3" "i < length (tasks s)"
  using coreD(2,10) [OF assms(1)] assms(2) by auto

lemma core_upd_detached:
  assumes "core D s" "i \<in> D" "same_id f"
  shows "core D (upd_task i f s)"
proof (rule coreI)
  note b = detached_bounds [OF assms(1,2)]
  show "shape (upd_task i f s)" using shape_upd_task [OF core_shape [OF assms(1)] assms(3) b(2)] .
  show "rq_ok D (upd_task i f s)" using coreD(8) [OF assms(1)] assms(2) b by (simp add: rq_ok_def)
  show "ep_ok D (upd_task i f s) j (endpoints (upd_task i f s) ! j)" if "j < 2" for j
    using coreD(9) [OF assms(1) that] assms(2) b by (simp add: ep_ok_def)
  fix k assume k: "k < 3" "k \<notin> D"
  then have "k \<noteq> i" using assms(2) by blast
  then show "task_ok k (tk (upd_task i f s) k)" using coreD(7) [OF assms(1) k] b by simp
  show "partner_ok D (upd_task i f s) k p" if "blocked_reason (tk (upd_task i f s) k) = Some (IpcReply p j)" for p j
    using coreD(11) [OF assms(1) k] that \<open>k \<noteq> i\<close> b assms(2) by simp
qed (use coreD(10) [OF assms(1)] in auto)

text \<open>A task that is neither blocked nor ready is in no structure.\<close>

lemma core_detach_running:
  assumes "core D s" "0 < i" "i < 3" "i \<notin> D" "t_state (tk s i) = Running \<or> t_state (tk s i) = Dead"
  shows "core (insert i D) s"
proof (rule coreI)
  have "i = 1 \<or> i = 2" using assms(2,3) by linarith
  then show "insert i D \<subseteq> {1, 2}" using coreD(10) [OF assms(1)] by blast
  have "task_ok i (tk s i)" using coreD(7) [OF assms(1,3,4)] .
  then have b: "blocked_reason (tk s i) = None" using assms(5) by (auto simp: task_ok_def)
  have "i \<notin> ready_set D s" using ready_not [of s i D] assms(5) by fastforce
  then show "rq_ok (insert i D) s" using coreD(8) [OF assms(1)] by (simp add: rq_ok_def ready_insert)
  show "ep_ok (insert i D) s j (endpoints s ! j)" if "j < 2" for j
    using coreD(9) [OF assms(1) that] b by (simp add: ep_ok_def blk_insert blk_not)
  fix k assume k: "k < 3" "k \<notin> insert i D"
  then show "task_ok k (tk s k)" using coreD(7) [OF assms(1)] by simp
  show "partner_ok (insert i D) s k p" if "blocked_reason (tk s k) = Some (IpcReply p j)" for p j
    using partner_ok_mono [OF coreD(11) [OF assms(1) k(1) _ that]] k by blast
qed (rule core_shape [OF assms(1)])

text \<open>Putting a task back that is neither ready nor blocked.\<close>

lemma core_attach_idle:
  assumes "core D s" "i \<in> D" "task_ok i (tk s i)" "t_state (tk s i) = Running \<or> t_state (tk s i) = Dead"
    and "\<And>k j. t_state (tk s i) = Dead \<Longrightarrow> k < 3 \<Longrightarrow> k \<notin> D \<Longrightarrow> blocked_reason (tk s k) \<noteq> Some (IpcReply (of_nat (Suc i)) j)"
  shows "core (D - {i}) s"
proof (rule coreI)
  note i = detached_bounds [OF assms(1,2)]
  have b: "blocked_reason (tk s i) = None" using assms(3,4) by (auto simp: task_ok_def)
  show "ep_ok (D - {i}) s j (endpoints s ! j)" if "j < 2" for j
    using coreD(9) [OF assms(1) that] b assms(2) i by (simp add: ep_ok_def blk_attach)
  have "t_state (tk s i) \<noteq> Ready" using assms(4) by auto
  then show "rq_ok (D - {i}) s"
    using coreD(8) [OF assms(1)] assms(2) i by (simp add: rq_ok_def ready_attach)
  fix k assume k: "k < 3" "k \<notin> D - {i}"
  then show "task_ok k (tk s k)" using coreD(7) [OF assms(1)] assms(3) by (cases "k = i") auto
  show "partner_ok (D - {i}) s k p" if r: "blocked_reason (tk s k) = Some (IpcReply p j)" for p j
  proof -
    have kD: "k \<notin> D" using k r b by (cases "k = i") auto
    obtain l where l: "0 < l" "l < 3" "l \<noteq> k" "p = of_nat (Suc l)" "l \<in> D \<or> t_state (tk s l) \<noteq> Dead"
      using coreD(11) [OF assms(1) k(1) kD r] by (auto simp: partner_ok_def)
    have "l \<noteq> i \<or> t_state (tk s i) \<noteq> Dead" using assms(5) k(1) kD r l(4) by blast
    then show ?thesis using l assms(4) unfolding partner_ok_def by blast
  qed
qed (use core_shape [OF assms(1)] coreD(10) [OF assms(1)] in auto)

lemma blk_rq [simp]: "blk D (s\<lparr>rq_len := n\<rparr>) P = blk D s P" "blk D (s\<lparr>ready_queue := q\<rparr>) P = blk D s P"
  by (simp_all add: blk_def)

text \<open>Putting a task into the ready queue.\<close>

lemma ready_room:
  assumes "core D s" "i \<in> D"
  shows "rq_len s < 3" "i \<notin> set (rdy s)"
proof -
  have ok: "length (ready_queue s) = 3" "rq_len s \<le> 3" "distinct (rdy s)" "set (rdy s) = ready_set D s"
    using coreD(8) [OF assms(1)] by (simp_all add: rq_ok_def)
  show n: "i \<notin> set (rdy s)" using ok(4) assms(2) by (simp add: ready_set_def)
  have "set (rdy s) \<subseteq> {1, 2}" unfolding ok(4) ready_set_def by auto
  then have "card (set (rdy s)) \<le> card {1, 2 :: nat}" by (rule card_mono [rotated]) simp
  moreover have "card (set (rdy s)) = rq_len s" using ok(1-3) by (simp add: distinct_card rdy_def)
  ultimately show "rq_len s < 3" by simp
qed

lemma core_attach_ready:
  assumes "core D s" "i \<in> D" "task_ok i (tk s i)" "t_state (tk s i) = Ready"
  shows "core (D - {i}) (s\<lparr>ready_queue := (ready_queue s)[rq_len s := i], rq_len := rq_len s + 1\<rparr>)" (is "core _ ?s")
proof (rule coreI)
  note b = detached_bounds [OF assms(1,2)] and r = ready_room [OF assms(1,2)]
  have rq: "length (ready_queue s) = 3" "distinct (rdy s)" "set (rdy s) = ready_set D s"
    using coreD(8) [OF assms(1)] by (simp_all add: rq_ok_def)
  have "rdy ?s = rdy s @ [i]" using rq(1) r(1) by (simp add: rdy_def take_push)
  moreover have "ready_set (D - {i}) ?s = insert i (ready_set D s)"
    using ready_attach [OF assms(2) b(1,2), of s] assms(4) by (simp add: ready_set_def)
  ultimately show "rq_ok (D - {i}) ?s" using rq r by (simp add: rq_ok_def)
  have none: "blocked_reason (tk s i) = None" using assms(3,4) by (auto simp: task_ok_def)
  show "ep_ok (D - {i}) ?s j (endpoints ?s ! j)" if "j < 2" for j
    using coreD(9) [OF assms(1) that] none assms(2) b by (simp add: ep_ok_def blk_attach)
  show "shape ?s" using core_shape [OF assms(1)] by (simp add: shape_def)
  show "D - {i} \<subseteq> {1, 2}" using coreD(10) [OF assms(1)] by blast
  fix k assume k: "k < 3" "k \<notin> D - {i}"
  then show "task_ok k (tk ?s k)" using coreD(7) [OF assms(1)] assms(3) by (cases "k = i") auto
  show "partner_ok (D - {i}) ?s k p" if q: "blocked_reason (tk ?s k) = Some (IpcReply p j)" for p j
  proof -
    have "k \<notin> D" using k q none by (cases "k = i") auto
    then have "partner_ok D s k p" using coreD(11) [OF assms(1) k(1)] q by simp
    then show ?thesis using assms(4) unfolding partner_ok_def by (elim exE conjE) (rule exI, auto)
  qed
qed

text \<open>Moving a task into or out of an endpoint.\<close>

definition about_ep :: "EndpointId \<Rightarrow> BlockedReason option \<Rightarrow> bool" where
  "about_ep j r \<longleftrightarrow> (\<forall>j'. j' \<noteq> j \<longrightarrow> \<not> wants_send j' r \<and> \<not> wants_reply j' r \<and> \<not> wants_recv j' r)"

lemma about_ep_simps [simp]:
  "about_ep j (Some (IpcSend j))" "about_ep j (Some (IpcReply p j))" "about_ep j (Some (IpcRecv j))"
  by (simp_all add: about_ep_def)

lemma upd_endpoint_sets [simp]:
  "blk D (upd_endpoint j g s) P = blk D s P" "ready_set D (upd_endpoint j g s) = ready_set D s"
  "partner_ok D (upd_endpoint j g s) i p = partner_ok D s i p" "ep_ok D (upd_endpoint j g s) = ep_ok D s"
  "rq_ok D (upd_endpoint j g s) = rq_ok D s"
  by (simp_all add: blk_def ready_set_def partner_ok_def ep_ok_def rq_ok_def fun_eq_iff)

lemma shape_upd_endpoint [simp]: "shape (upd_endpoint j g s) = shape s"
  by (simp add: shape_def)

lemma core_attach_ep:
  assumes "core D s" "i \<in> D" "task_ok i (tk s i)" "t_state (tk s i) = Blocked" "j < 2"
    "about_ep j (blocked_reason (tk s i))" "ep_ok (D - {i}) s j e'"
    "\<And>p j. blocked_reason (tk s i) = Some (IpcReply p j) \<Longrightarrow> partner_ok (D - {i}) s i p"
  shows "core (D - {i}) (upd_endpoint j (\<lambda>_. e') s)"
proof (rule coreI)
  note b = detached_bounds [OF assms(1,2)] and l = coreD(3) [OF assms(1)]
  show "ep_ok (D - {i}) (upd_endpoint j (\<lambda>_. e') s) j' (endpoints (upd_endpoint j (\<lambda>_. e') s) ! j')" if "j' < 2" for j'
  proof (cases "j' = j")
    case False
    then show ?thesis using coreD(9) [OF assms(1) that] assms(2,5,6) b l
      by (simp add: ep_ok_def blk_attach about_ep_def)
  qed (use assms(5,7) l in simp)
  show "rq_ok (D - {i}) (upd_endpoint j (\<lambda>_. e') s)"
    using coreD(8) [OF assms(1)] assms(2,4) b by (simp add: rq_ok_def ready_attach)
  show "shape (upd_endpoint j (\<lambda>_. e') s)" using core_shape [OF assms(1)] by simp
  show "D - {i} \<subseteq> {1, 2}" using coreD(10) [OF assms(1)] by blast
  fix k assume k: "k < 3" "k \<notin> D - {i}"
  then show "task_ok k (tk (upd_endpoint j (\<lambda>_. e') s) k)"
    using coreD(7) [OF assms(1)] assms(3) by (cases "k = i") auto
  show "partner_ok (D - {i}) (upd_endpoint j (\<lambda>_. e') s) k p"
    if q: "blocked_reason (tk (upd_endpoint j (\<lambda>_. e') s) k) = Some (IpcReply p j')" for p j'
  proof (cases "k = i")
    case False
    then have "partner_ok D s k p" using coreD(11) [OF assms(1) k(1)] k q by simp
    then show ?thesis using assms(4) unfolding partner_ok_def by (elim exE conjE) (rule exI, auto)
  qed (use assms(8) q in simp)
qed

lemma core_detach_ep:
  assumes "core D s" "0 < i" "i < 3" "i \<notin> D" "t_state (tk s i) = Blocked" "j < 2"
    "about_ep j (blocked_reason (tk s i))" "ep_ok (insert i D) s j e'"
  shows "core (insert i D) (upd_endpoint j (\<lambda>_. e') s)"
proof (rule coreI)
  note l = coreD(3) [OF assms(1)]
  show "ep_ok (insert i D) (upd_endpoint j (\<lambda>_. e') s) j' (endpoints (upd_endpoint j (\<lambda>_. e') s) ! j')" if "j' < 2" for j'
  proof (cases "j' = j")
    case False
    then show ?thesis using coreD(9) [OF assms(1) that] assms(6,7) l
      by (simp add: ep_ok_def blk_insert about_ep_def blk_not)
  qed (use assms(6,8) l in simp)
  have "i \<notin> ready_set D s" using ready_not [of s i D] assms(5) by simp
  then show "rq_ok (insert i D) (upd_endpoint j (\<lambda>_. e') s)"
    using coreD(8) [OF assms(1)] by (simp add: rq_ok_def ready_insert)
  show "shape (upd_endpoint j (\<lambda>_. e') s)" using core_shape [OF assms(1)] by simp
  have "i = 1 \<or> i = 2" using assms(2,3) by linarith
  then show "insert i D \<subseteq> {1, 2}" using coreD(10) [OF assms(1)] by blast
  fix k assume k: "k < 3" "k \<notin> insert i D"
  then show "task_ok k (tk (upd_endpoint j (\<lambda>_. e') s) k)" using coreD(7) [OF assms(1)] by simp
  show "partner_ok (insert i D) (upd_endpoint j (\<lambda>_. e') s) k p"
    if "blocked_reason (tk (upd_endpoint j (\<lambda>_. e') s) k) = Some (IpcReply p j')" for p j'
    using coreD(11) [OF assms(1) k(1)] k that by (auto intro: partner_ok_mono)
qed

section \<open>Blocking and waking\<close>

lemma upd_commute: "upd_endpoint j g (upd_task i f s) = upd_task i f (upd_endpoint j g s)"
  by (simp add: upd_endpoint_def upd_task_def)

lemma remove_from_ready_queue_eq:
  assumes "rq_len s \<le> length (ready_queue s)"
  shows "\<exists>q n. snd (remove_from_ready_queue i s) = s\<lparr>ready_queue := q, rq_len := n\<rparr>
     \<and> length q = length (ready_queue s) \<and> n \<le> rq_len s \<and> take n q = filter (\<lambda>v. v \<noteq> i) (rdy s)"
proof (cases "rq_len s = 0")
  case True
  then show ?thesis
    by (intro exI [of _ "ready_queue s"] exI [of _ 0]) (simp add: remove_from_ready_queue_def rdy_def)
next
  case False
  obtain q n where c: "compact_loop (\<lambda>v. v \<noteq> i) (rq_len s) 0 0 (ready_queue s) = (q, n)" by fastforce
  show ?thesis
    using compact_loop_filter [OF assms c] False c
    by (intro exI [of _ q] exI [of _ n]) (simp add: remove_from_ready_queue_def rdy_def)
qed

lemma remove_from_ready_queue_fields [simp]:
  "tasks (snd (remove_from_ready_queue i s)) = tasks s" "endpoints (snd (remove_from_ready_queue i s)) = endpoints s"
  "num_tasks (snd (remove_from_ready_queue i s)) = num_tasks s" "wq_len (snd (remove_from_ready_queue i s)) = wq_len s"
  "current_task (snd (remove_from_ready_queue i s)) = current_task s"
  "address_spaces (snd (remove_from_ready_queue i s)) = address_spaces s"
  "counters (snd (remove_from_ready_queue i s)) = counters s" "hw (snd (remove_from_ready_queue i s)) = hw s"
  "wait_queue (snd (remove_from_ready_queue i s)) = wait_queue s"
  "ainv D (snd (remove_from_ready_queue i s)) = ainv D s"
  "at_most_current (snd (remove_from_ready_queue i s)) = at_most_current s"
  by (auto simp: remove_from_ready_queue_def split: prod.splits intro!: ainv_cong)

lemma core_remove_ready:
  assumes "core D s" "i \<in> D"
  shows "core D (snd (remove_from_ready_queue i s))"
proof -
  have ok: "length (ready_queue s) = 3" "rq_len s \<le> 3" "distinct (rdy s)" "set (rdy s) = ready_set D s"
    using coreD(8) [OF assms(1)] by (simp_all add: rq_ok_def)
  obtain q n where q: "snd (remove_from_ready_queue i s) = s\<lparr>ready_queue := q, rq_len := n\<rparr>"
      "length q = 3" "n \<le> rq_len s" "take n q = filter (\<lambda>v. v \<noteq> i) (rdy s)"
    using remove_from_ready_queue_eq [of s i] ok by auto
  let ?s = "s\<lparr>ready_queue := q, rq_len := n\<rparr>"
  have "i \<notin> ready_set D s" using assms(2) by (simp add: ready_set_def)
  then have "set (rdy ?s) = ready_set D ?s" "distinct (rdy ?s)"
    using q(4) ok(3,4) by (auto simp: rdy_def ready_set_def)
  then have "rq_ok D ?s" using q ok(2) by (simp add: rq_ok_def)
  moreover have "ep_ok D ?s = ep_ok D s" "partner_ok D ?s = partner_ok D s" "shape ?s = shape s"
    by (simp_all add: ep_ok_def partner_ok_def shape_def blk_def fun_eq_iff)
  ultimately show ?thesis using assms(1) unfolding q(1) core_def by simp
qed

definition block_with :: "BlockedReason \<Rightarrow> Task \<Rightarrow> Task" where
  "block_with r t = t\<lparr>t_state := Blocked, blocked_reason := Some r, time_slice_used := 0\<rparr>"

lemma block_task_eq:
  assumes "i < num_tasks s" "i < length (tasks s)" "t_state (tk s i) \<noteq> Dead" "r \<noteq> Sleep"
  shows "block_task i r s = push_event (TaskStateChanged (t_id (tk s i)) Blocked)
           (upd_task i (block_with r) (snd (remove_from_ready_queue i s)))"
proof (cases "t_state (tk s i) = Blocked")
  case True
  then have "(tk s i)\<lparr>blocked_reason := Some r, time_slice_used := 0\<rparr> = block_with r (tk s i)"
    by (cases "tk s i") (simp add: block_with_def)
  then show ?thesis using True assms by (simp add: block_task_def Let_def upd_task_def)
next
  case False
  then show ?thesis using assms by (simp add: block_task_def Let_def upd_task_def block_with_def)
qed

definition wake_with :: "Task \<Rightarrow> Task" where
  "wake_with t = t\<lparr>t_state := Ready, blocked_reason := None, time_slice_used := 0\<rparr>"

lemma same_id_simps [simp]: "same_id (block_with r)" "same_id wake_with"
  by (simp_all add: same_id_def block_with_def wake_with_def)

lemma core_wake:
  assumes "core D s" "i \<in> D" "t_state (tk s i) = Blocked" "pending_send_msg (tk s i) = None"
    "pending_ok (pending_syscall (tk s i))"
  shows "core (D - {i}) (wake_task_to_ready i s)"
proof -
  note b = detached_bounds [OF assms(1,2)] and n = coreD(1) [OF assms(1)]
  let ?s1 = "upd_task i wake_with s"
  have c: "core D ?s1" by (rule core_upd_detached [OF assms(1,2)]) simp
  have "task_ok i (tk ?s1 i)" using assms(4,5) b by (simp add: wake_with_def task_ok_def reason_ok_def)
  from core_attach_ready [OF c assms(2) this]
  have "core (D - {i}) (?s1\<lparr>ready_queue := (ready_queue ?s1)[rq_len ?s1 := i], rq_len := rq_len ?s1 + 1\<rparr>)"
    using b by (simp add: wake_with_def)
  moreover have "\<not> ready_queue_contains ?s1 i"
    using ready_room(2) [OF c assms(2)] coreD(8) [OF c]
    by (simp add: ready_queue_contains_def rdy_def rq_ok_def array_contains_iff)
  ultimately show ?thesis
    using assms(3) b n ready_room(1) [OF c assms(2)]
    by (simp add: wake_task_to_ready_def Let_def wake_with_def [abs_def] MAX_TASKS_def)
qed

lemma wake_fields [simp]:
  "endpoints (wake_task_to_ready i s) = endpoints s" "num_tasks (wake_task_to_ready i s) = num_tasks s"
  "wq_len (wake_task_to_ready i s) = wq_len s" "current_task (wake_task_to_ready i s) = current_task s"
  "address_spaces (wake_task_to_ready i s) = address_spaces s" "hw (wake_task_to_ready i s) = hw s"
  "counters (wake_task_to_ready i s) = counters s" "length (tasks (wake_task_to_ready i s)) = length (tasks s)"
  "mem_demo_stage (wake_task_to_ready i s) = mem_demo_stage s" "mem_demo_mapped (wake_task_to_ready i s) = mem_demo_mapped s"
  "mem_demo_frame (wake_task_to_ready i s) = mem_demo_frame s"
  by (simp_all add: wake_task_to_ready_def Let_def)

lemma tk_wake:
  assumes "i < num_tasks s" "i < length (tasks s)"
  shows "tk (wake_task_to_ready i s) k =
    (if k = i \<and> t_state (tk s i) = Blocked then wake_with (tk s i)
     else if k = i \<and> t_state (tk s i) \<noteq> Dead then (tk s i)\<lparr>blocked_reason := None\<rparr> else tk s k)"
  using assms by (cases "t_state (tk s i)") (simp_all add: wake_task_to_ready_def Let_def wake_with_def)

lemma ainv_upd_task:
  assumes "ainv D s" "i < length (tasks s)" "t_state (f (tk s i)) = Dead \<longrightarrow> i \<in> D \<or> t_state (tk s i) = Dead"
  shows "ainv D (upd_task i f s)"
  using assms by (auto simp: ainv_def)

lemma at_most_current_upd_task:
  assumes "at_most_current s" "i < length (tasks s)" "t_state (f (tk s i)) = Running \<longrightarrow> i = current_task s"
  shows "at_most_current (upd_task i f s)"
  using assms by (auto simp: at_most_current_def)

lemma ainv_wake:
  assumes "ainv D s" "i < num_tasks s" "i < length (tasks s)"
  shows "ainv D (wake_task_to_ready i s)"
  using assms by (auto simp: ainv_def tk_wake wake_with_def)

lemma at_most_current_wake:
  assumes "at_most_current s" "i < num_tasks s" "i < length (tasks s)"
  shows "at_most_current (wake_task_to_ready i s)"
  using assms by (auto simp: at_most_current_def tk_wake wake_with_def split: if_splits)

lemma pre_kinvD:
  assumes "pre_kinv s"
  shows "core {} s" "ainv {} s" "at_most_current s" "current_task s < 3"
  using assms by (simp_all add: pre_kinv_def at_most_current_def)

lemma kinvD:
  assumes "kinv s"
  shows "core {} s" "ainv {} s" "at_most_current s" "current_task s < 3" "t_state (tk s (current_task s)) = Running" "pre_kinv s"
  using assms pre_kinvD by (auto simp: kinv_def)

lemma ainvD:
  assumes "ainv D s"
  shows "length (address_spaces s) = 3" "i < 3 \<Longrightarrow> as_ok i (address_spaces s ! i)"
    "i < 3 \<Longrightarrow> i \<notin> D \<Longrightarrow> t_state (tk s i) = Dead \<Longrightarrow> each_mapping (address_spaces s ! i) = []"
    "i < 3 \<Longrightarrow> kind (address_spaces s ! i) = (if i = 0 then Kernel else User)"
    "i < 3 \<Longrightarrow> root_page_frame (address_spaces s ! i) \<noteq> None"
  using assms by (auto simp: ainv_def as_ok_def)

section \<open>Updates that only touch a task's own data\<close>

definition local_upd :: "(Task \<Rightarrow> Task) \<Rightarrow> bool" where
  "local_upd f \<longleftrightarrow> (\<forall>t. t_id (f t) = t_id t \<and> address_space_id (f t) = address_space_id t \<and> t_state (f t) = t_state t
     \<and> blocked_reason (f t) = blocked_reason t \<and> pending_send_msg (f t) = pending_send_msg t)"

lemma core_upd_local:
  assumes "core D s" "i < 3" "local_upd f" "i \<notin> D \<Longrightarrow> task_ok i (f (tk s i))"
  shows "core D (upd_task i f s)"
proof (rule coreI)
  have l: "i < length (tasks s)" using coreD(2) [OF assms(1)] assms(2) by simp
  have st: "t_state (tk (upd_task i f s) k) = t_state (tk s k)"
      "blocked_reason (tk (upd_task i f s) k) = blocked_reason (tk s k)" for k
    using assms(3) l by (simp_all add: local_upd_def)
  have b: "blk D (upd_task i f s) P = blk D s P" "ready_set D (upd_task i f s) = ready_set D s"
      "partner_ok D (upd_task i f s) k p = partner_ok D s k p" for P k p
    unfolding blk_def ready_set_def partner_ok_def st by simp_all
  show "rq_ok D (upd_task i f s)" using coreD(8) [OF assms(1)] by (simp add: rq_ok_def b)
  show "ep_ok D (upd_task i f s) j (endpoints (upd_task i f s) ! j)" if "j < 2" for j
    using coreD(9) [OF assms(1) that] by (simp add: ep_ok_def b)
  show "shape (upd_task i f s)"
    using shape_upd_task [OF core_shape [OF assms(1)] _ assms(2)] assms(3) by (simp add: local_upd_def same_id_def)
  show "D \<subseteq> {1, 2}" using coreD(10) [OF assms(1)] .
  fix k assume k: "k < 3" "k \<notin> D"
  show "task_ok k (tk (upd_task i f s) k)"
    using coreD(7) [OF assms(1) k] assms(4) k l by (cases "k = i") simp_all
  show "partner_ok D (upd_task i f s) k p" if "blocked_reason (tk (upd_task i f s) k) = Some (IpcReply p j)" for p j
    using coreD(11) [OF assms(1) k] that by (simp add: st b)
qed

text \<open>\<open>keeps f t\<close>: the update of task \<open>t\<close> keeps what the invariant asks of a live task.\<close>

definition keeps :: "(Task \<Rightarrow> Task) \<Rightarrow> Task \<Rightarrow> bool" where
  "keeps f t \<longleftrightarrow> local_upd f \<and> (pending_syscall (f t) = pending_syscall t \<or> pending_syscall (f t) = None)
     \<and> (t_state t = Dead \<longrightarrow> last_msg (f t) = last_msg t \<and> last_reply (f t) = last_reply t)"

lemma task_ok_keeps: "task_ok i t \<Longrightarrow> keeps f t \<Longrightarrow> task_ok i (f t)"
  by (auto simp: task_ok_def keeps_def local_upd_def pending_ok_def)

lemma kinv_upd_local:
  assumes "i < 3" "local_upd f" "task_ok i (f (tk s i))"
  shows "pre_kinv s \<Longrightarrow> pre_kinv (upd_task i f s)" "kinv s \<Longrightarrow> kinv (upd_task i f s)"
proof -
  have st: "t_state (f t) = t_state t" for t using assms(2) by (simp add: local_upd_def)
  show pre: "pre_kinv (upd_task i f s)" if k: "pre_kinv s"
  proof -
    note c = pre_kinvD [OF k]
    have l: "i < length (tasks s)" using coreD(2) [OF c(1)] assms(1) by simp
    have "t_state (f (tk s i)) = Running \<longrightarrow> i = current_task s" using c(3) assms(1) by (simp add: st at_most_current_def)
    then show ?thesis
      using core_upd_local [OF c(1) assms(1,2)] assms(3) ainv_upd_task [OF c(2) l, of f]
        at_most_current_upd_task [OF c(3) l, of f] by (simp add: pre_kinv_def st)
  qed
  show "kinv (upd_task i f s)" if "kinv s"
    using pre [OF kinvD(6) [OF that]] kinvD(5) [OF that] coreD(2) [OF kinvD(1) [OF that]] assms(1)
    by (cases "current_task s = i") (simp_all add: kinv_def st)
qed

lemma kinv_cong:
  assumes "tasks s' = tasks s" "endpoints s' = endpoints s" "num_tasks s' = num_tasks s"
    "ready_queue s' = ready_queue s" "rq_len s' = rq_len s" "wq_len s' = wq_len s" "current_task s' = current_task s"
    "address_spaces s' = address_spaces s" "length (mem_demo_stage s') = length (mem_demo_stage s)"
    "length (mem_demo_mapped s') = length (mem_demo_mapped s)" "length (mem_demo_frame s') = length (mem_demo_frame s)"
  shows "pre_kinv s' = pre_kinv s" "kinv s' = kinv s"
  using core_cong [of s' s] ainv_cong [of s' s] at_most_current_cong [of s' s] assms
  by (simp_all add: pre_kinv_def kinv_def)

lemma kinv_frame [simp]:
  "kinv (push_event ev s) = kinv s" "kinv (s\<lparr>hw := h\<rparr>) = kinv s" "kinv (s\<lparr>counters := c\<rparr>) = kinv s"
  "kinv (s\<lparr>phys_mem := pm\<rparr>) = kinv s" "kinv (s\<lparr>should_halt := b\<rparr>) = kinv s" "kinv (s\<lparr>tick_count := n\<rparr>) = kinv s"
  "kinv (s\<lparr>time_ticks := n\<rparr>) = kinv s" "kinv (s\<lparr>activity := a\<rparr>) = kinv s"
  "kinv (s\<lparr>demo_msgs_delivered := b4\<rparr>) = kinv s" "kinv (s\<lparr>demo_replies_sent := b4\<rparr>) = kinv s"
  "kinv (s\<lparr>demo_sent_by_task1 := b5\<rparr>) = kinv s" "kinv (s\<lparr>demo_early_sent_by_task0 := b5\<rparr>) = kinv s"
  "kinv (s\<lparr>halt_dumped_no_user_tasks := b6\<rparr>) = kinv s"
  by (rule kinv_cong; simp)+

lemma pre_kinv_frame [simp]:
  "pre_kinv (push_event ev s) = pre_kinv s" "pre_kinv (s\<lparr>hw := h\<rparr>) = pre_kinv s" "pre_kinv (s\<lparr>counters := c\<rparr>) = pre_kinv s"
  "pre_kinv (s\<lparr>phys_mem := pm\<rparr>) = pre_kinv s" "pre_kinv (s\<lparr>should_halt := b\<rparr>) = pre_kinv s"
  "pre_kinv (s\<lparr>activity := a\<rparr>) = pre_kinv s"
  "pre_kinv (s\<lparr>demo_msgs_delivered := b4\<rparr>) = pre_kinv s" "pre_kinv (s\<lparr>demo_replies_sent := b4\<rparr>) = pre_kinv s"
  by (rule kinv_cong; simp)+

end
