(* ===== verification/Inv_Sched.thy ===== *)
theory Inv_Sched
  imports Inv_Core
begin

text \<open>
  The scheduler keeps the invariant: \<open>schedule_next_task\<close> takes any state in which at most the current
  task is running to one in which the current task, and no other, is running, and it picks the
  user task of the highest priority that can run, or the idle task when there is none.
\<close>

section \<open>Choosing from the ready queue\<close>

lemma best_step_fold:
  assumes "\<And>pos. pos < n \<Longrightarrow> ready_queue s ! pos < num_tasks s" "0 < n"
    "fold (best_step s) [1..<n] (0, ready_queue s ! 0, priority (tk s (ready_queue s ! 0))) = (bp, bi, pr)"
  shows "bp < n \<and> ready_queue s ! bp = bi \<and> pr = priority (tk s bi)
    \<and> (\<forall>pos < n. priority (tk s (ready_queue s ! pos)) \<le> pr)"
  using assms
proof (induction n arbitrary: bp bi pr)
  case (Suc n)
  show ?case
  proof (cases "n = 0")
    case True
    then show ?thesis using Suc.prems(3) by auto
  next
    case False
    obtain bp' bi' pr' where f: "fold (best_step s) [1..<n] (0, ready_queue s ! 0, priority (tk s (ready_queue s ! 0))) = (bp', bi', pr')"
      by (cases "fold (best_step s) [1..<n] (0, ready_queue s ! 0, priority (tk s (ready_queue s ! 0)))") auto
    have IH: "bp' < n" "ready_queue s ! bp' = bi'" "pr' = priority (tk s bi')"
        "\<forall>pos < n. priority (tk s (ready_queue s ! pos)) \<le> pr'"
      using Suc.IH [OF _ _ f] Suc.prems(1) False by auto
    have "best_step s n (bp', bi', pr') = (bp, bi, pr)"
      using Suc.prems(3) f False by (simp add: upt_Suc_append)
    moreover have "ready_queue s ! n < num_tasks s" using Suc.prems(1) by simp
    ultimately show ?thesis
      using IH by (auto simp: best_step_def Let_def less_Suc_eq split: if_splits)
  qed
qed simp

lemma rq_ok_filter_ready:
  assumes "core D s"
  shows "filter (ready_only s) (rdy s) = rdy s"
proof -
  have "set (rdy s) = ready_set D s" using coreD(8) [OF assms] by (simp add: rq_ok_def)
  then show ?thesis
    using coreD(1) [OF assms] by (intro filter_True) (auto simp: ready_set_def ready_only_def)
qed

lemma compact_ready_same:
  assumes "core D s"
  shows "\<exists>q n. compact_ready_queue_to_ready_only s = s\<lparr>ready_queue := q, rq_len := n\<rparr>
    \<and> length q = 3 \<and> n \<le> 3 \<and> take n q = rdy s"
proof -
  obtain q n where c: "compact_loop (ready_only s) (rq_len s) 0 0 (ready_queue s) = (q, n)" by fastforce
  have ok: "length (ready_queue s) = 3" "rq_len s \<le> 3" using coreD(8) [OF assms] by (simp_all add: rq_ok_def)
  have "rq_len s \<le> length (ready_queue s)" using ok by simp
  from compact_loop_filter [OF this c] rq_ok_filter_ready [OF assms] ok c show ?thesis
    by (intro exI [of _ q] exI [of _ n]) (simp add: compact_ready_queue_to_ready_only_def rdy_def)
qed

lemma core_same_rdy:
  assumes "core D s" "length q = 3" "n \<le> 3" "take n q = rdy s"
  shows "core D (s\<lparr>ready_queue := q, rq_len := n\<rparr>)"
proof -
  let ?s = "s\<lparr>ready_queue := q, rq_len := n\<rparr>"
  have "rq_ok D s" using coreD(8) [OF assms(1)] .
  then have "rq_ok D ?s" using assms by (simp add: rq_ok_def rdy_def ready_set_def)
  moreover have "ep_ok D ?s = ep_ok D s" "partner_ok D ?s = partner_ok D s" "shape ?s = shape s"
    by (simp_all add: ep_ok_def partner_ok_def shape_def fun_eq_iff)
  ultimately show ?thesis using assms(1) unfolding core_def by simp
qed

lemma core_compact: "core D s \<Longrightarrow> core D (compact_ready_queue_to_ready_only s)"
  using compact_ready_same [of D s] core_same_rdy [of D s] by auto

lemma compact_fields [simp]:
  "tasks (compact_ready_queue_to_ready_only s) = tasks s" "endpoints (compact_ready_queue_to_ready_only s) = endpoints s"
  "num_tasks (compact_ready_queue_to_ready_only s) = num_tasks s" "wq_len (compact_ready_queue_to_ready_only s) = wq_len s"
  "current_task (compact_ready_queue_to_ready_only s) = current_task s"
  "address_spaces (compact_ready_queue_to_ready_only s) = address_spaces s"
  "counters (compact_ready_queue_to_ready_only s) = counters s" "hw (compact_ready_queue_to_ready_only s) = hw s"
  "ainv D (compact_ready_queue_to_ready_only s) = ainv D s"
  "at_most_current (compact_ready_queue_to_ready_only s) = at_most_current s"
  by (auto simp: compact_ready_queue_to_ready_only_def split: prod.splits intro!: ainv_cong)

lemma core_detach_ready:
  assumes "core D s" "i \<in> ready_set D s" "length q = 3" "n \<le> 3" "distinct (take n q)"
    "set (take n q) = ready_set D s - {i}"
  shows "core (insert i D) (s\<lparr>ready_queue := q, rq_len := n\<rparr>)" (is "core _ ?s")
proof (rule coreI)
  have i: "0 < i" "i < 3" "i \<notin> D" "t_state (tk s i) = Ready" using assms(2) by (auto simp: ready_set_def)
  have none: "blocked_reason (tk s i) = None" using coreD(7) [OF assms(1) i(2,3)] i(4) by (auto simp: task_ok_def)
  have "ready_set (insert i D) ?s = ready_set D s - {i}" unfolding ready_insert by (simp add: ready_set_def)
  then show "rq_ok (insert i D) ?s" using assms(3-6) by (simp add: rq_ok_def rdy_def)
  show "ep_ok (insert i D) ?s j (endpoints ?s ! j)" if "j < 2" for j
    using coreD(9) [OF assms(1) that] none by (simp add: ep_ok_def blk_insert blk_not)
  show "shape ?s" using core_shape [OF assms(1)] by (simp add: shape_def)
  have "i = 1 \<or> i = 2" using i by linarith
  then show "insert i D \<subseteq> {1, 2}" using coreD(10) [OF assms(1)] by blast
  fix k assume k: "k < 3" "k \<notin> insert i D"
  then show "task_ok k (tk ?s k)" using coreD(7) [OF assms(1)] by simp
  show "partner_ok (insert i D) ?s k p" if q: "blocked_reason (tk ?s k) = Some (IpcReply p j)" for p j
  proof -
    have "partner_ok D s k p" using coreD(11) [OF assms(1) k(1)] k(2) q by simp
    then have "partner_ok (insert i D) s k p" by (rule partner_ok_mono) blast
    then show ?thesis by (simp add: partner_ok_def)
  qed
qed

lemma dequeue_spec:
  assumes "core D s" "rdy s \<noteq> []"
  obtains i s' where "dequeue_ready_highest_priority s = (Some i, s')" "i \<in> ready_set D s" "core (insert i D) s'"
    "\<forall>k \<in> ready_set D s. priority (tk s k) \<le> priority (tk s i)" "tasks s' = tasks s"
    "current_task s' = current_task s" "address_spaces s' = address_spaces s" "hw s' = hw s"
    "counters s' = counters s" "endpoints s' = endpoints s" "\<And>D'. ainv D' s' = ainv D' s" "at_most_current s' = at_most_current s"
proof -
  obtain q n where c: "compact_ready_queue_to_ready_only s = s\<lparr>ready_queue := q, rq_len := n\<rparr>"
      and q: "length q = 3" "n \<le> 3" "take n q = rdy s" using compact_ready_same [OF assms(1)] by blast
  let ?s = "s\<lparr>ready_queue := q, rq_len := n\<rparr>"
  have rs: "set (rdy s) = ready_set D s" "distinct (rdy s)" using coreD(8) [OF assms(1)] by (simp_all add: rq_ok_def)
  have "take n q \<noteq> []" using assms(2) q(3) by simp
  then have n: "0 < n" "rq_len s \<noteq> 0" using assms(2) by (auto simp: rdy_def)
  have elems: "ready_set D s = (!) q ` {0..<n}"
    using nth_image [of n q] q rs(1) by simp
  have mem: "q ! pos \<in> ready_set D s" if "pos < n" for pos using that elems by simp
  have lt: "ready_queue ?s ! pos < num_tasks ?s" if "pos < n" for pos
    using mem [OF that] coreD(1) [OF assms(1)] by (simp add: ready_set_def)
  obtain bp bi pr where f: "fold (best_step ?s) [1..<n] (0, ready_queue ?s ! 0, priority (tk ?s (ready_queue ?s ! 0))) = (bp, bi, pr)"
    by (cases "fold (best_step ?s) [1..<n] (0, ready_queue ?s ! 0, priority (tk ?s (ready_queue ?s ! 0)))") auto
  have b: "bp < n" "q ! bp = bi" "pr = priority (tk s bi)" "\<forall>pos < n. priority (tk s (q ! pos)) \<le> pr"
    using best_step_fold [of n ?s bp bi pr, OF lt n(1) f] by auto
  define s' where "s' = ?s\<lparr>ready_queue := swap_remove q n bp, rq_len := n - 1\<rparr>"
  have sw: "set (take (n - 1) (swap_remove q n bp)) = ready_set D s - {bi}" "distinct (take (n - 1) (swap_remove q n bp))"
    using distinct_swap_remove [of bp n q] b(1,2) q rs by simp_all
  have bi: "bi \<in> ready_set D s" using mem b(1,2) by blast
  have "core (insert bi D) (s\<lparr>ready_queue := swap_remove q n bp, rq_len := n - 1\<rparr>)"
    using core_detach_ready [OF assms(1) bi _ _ sw(2,1)] q(1,2) by simp
  then have "core (insert bi D) (push_event (ReadyDequeued (t_id (tk s bi))) s')" by (simp add: s'_def)
  moreover have "dequeue_ready_highest_priority s = (Some bi, push_event (ReadyDequeued (t_id (tk s bi))) s')"
    using n lt [of 0] f unfolding dequeue_ready_highest_priority_def c Let_def s'_def by simp
  moreover have "\<forall>k \<in> ready_set D s. priority (tk s k) \<le> priority (tk s bi)"
    using b(3,4) unfolding elems by simp
  ultimately show thesis
    using bi by (intro that [of bi "push_event (ReadyDequeued (t_id (tk s bi))) s'"]) (simp_all add: s'_def)
qed

section \<open>schedule\_next\_task\<close>

text \<open>The switch of address space a schedule may make does not panic.\<close>

definition switch_safe :: "'m Env \<Rightarrow> 'm KernelState \<Rightarrow> bool" where
  "switch_safe E s \<longleftrightarrow> (\<forall>a \<in> set (address_spaces s). \<forall>r v. root_page_frame a = Some r \<longrightarrow>
     switch_address_space E (Some r) (set_vga_enabled v (hw s)) \<noteq> None
     \<and> switch_address_space_quiet E r (set_vga_enabled v (hw s)) \<noteq> None)"

lemma set_vga_enabled_simps [simp]:
  "set_vga_enabled v (set_vga_enabled w h) = set_vga_enabled v h" "set_vga_enabled (vga_enabled h) h = h"
  by (simp_all add: set_vga_enabled_def)

lemma switch_safeD:
  assumes "switch_safe E s" "a \<in> set (address_spaces s)" "root_page_frame a = Some r"
  shows "switch_address_space E (Some r) (set_vga_enabled v (hw s)) \<noteq> None"
    "switch_address_space_quiet E r (set_vga_enabled v (hw s)) \<noteq> None" "switch_address_space_quiet E r (hw s) \<noteq> None"
  using assms set_vga_enabled_simps(2) [of "hw s"] unfolding switch_safe_def by metis+

lemma switch_safe_cong:
  "address_spaces s' = address_spaces s \<Longrightarrow> hw s' = set_vga_enabled v (hw s) \<Longrightarrow> switch_safe E s' = switch_safe E s"
  by (simp add: switch_safe_def)

definition sched_safe :: "'m Env \<Rightarrow> 'm KernelState \<Rightarrow> bool" where
  "sched_safe E s \<longleftrightarrow> switch_safe E s \<and> unat (sched_switches (counters s)) + 1 < 2 ^ 64"

definition runnable :: "'m KernelState \<Rightarrow> usize set" where
  "runnable s = {i. 0 < i \<and> i < 3 \<and> (t_state (tk s i) = Ready \<or> t_state (tk s i) = Running)}"

definition good_choice :: "'m KernelState \<Rightarrow> usize \<Rightarrow> bool" where
  "good_choice s c \<longleftrightarrow> (if runnable s = {} then c = 0
     else c \<in> runnable s \<and> (\<forall>k \<in> runnable s. priority (tk s k) \<le> priority (tk s c)))"

definition start_running :: "Task \<Rightarrow> Task" where
  "start_running t = t\<lparr>t_state := Running, time_slice_used := 0, blocked_reason := None\<rparr>"

lemma same_id_start_running [simp]: "same_id start_running"
  by (simp add: same_id_def start_running_def)

lemma core_detach_idle_task:
  assumes "core D s" "t_state (f (tk s 0)) = Ready \<or> t_state (f (tk s 0)) = Running" "same_id f"
    "blocked_reason (f (tk s 0)) = None" "pending_send_msg (f (tk s 0)) = pending_send_msg (tk s 0)"
    "pending_syscall (f (tk s 0)) = pending_syscall (tk s 0)"
  shows "core D (upd_task 0 f s)"
proof (rule coreI)
  have l: "0 < length (tasks s)" and D: "0 \<notin> D" using coreD(2,10) [OF assms(1)] by auto
  have ok: "task_ok 0 (tk s 0)" using coreD(7) [OF assms(1) _ D] by simp
  then have none: "blocked_reason (tk s 0) = None" by (auto simp: task_ok_def)
  have b: "blk D (upd_task 0 f s) P = blk D s P" if "\<not> P None" for P
    using that none assms(4) l unfolding blk_def by (intro Collect_cong) auto
  have "ready_set D (upd_task 0 f s) = ready_set D s"
    using l unfolding ready_set_def by (intro Collect_cong) auto
  then show "rq_ok D (upd_task 0 f s)" using coreD(8) [OF assms(1)] by (simp add: rq_ok_def)
  show "ep_ok D (upd_task 0 f s) j (endpoints (upd_task 0 f s) ! j)" if "j < 2" for j
    using coreD(9) [OF assms(1) that] by (simp add: ep_ok_def b)
  show "shape (upd_task 0 f s)" using shape_upd_task [OF core_shape [OF assms(1)] assms(3)] by simp
  show "D \<subseteq> {1, 2}" using coreD(10) [OF assms(1)] .
  fix k assume k: "k < 3" "k \<notin> D"
  show "task_ok k (tk (upd_task 0 f s) k)"
    using coreD(7) [OF assms(1) k] ok assms(2,4-6) l
    by (cases "k = 0") (auto simp: task_ok_def reason_ok_def)
  show "partner_ok D (upd_task 0 f s) k p" if r: "blocked_reason (tk (upd_task 0 f s) k) = Some (IpcReply p j)" for p j
  proof -
    have "k \<noteq> 0" using r assms(4) l by (cases "k = 0") auto
    then have "partner_ok D s k p" using coreD(11) [OF assms(1) k] r l by simp
    then show ?thesis unfolding partner_ok_def using l by (elim exE) (rule exI, auto)
  qed
qed

definition demoted :: "Task \<Rightarrow> Task" where
  "demoted t = t\<lparr>t_state := Ready, blocked_reason := None, time_slice_used := 0\<rparr>"

lemma same_id_demoted [simp]: "same_id demoted"
  by (simp add: same_id_def demoted_def)

lemma demote_tk:
  assumes "shape s" "c < 3"
  shows "tk (demote_previous c s) i = (if i = c \<and> t_state (tk s c) = Running then demoted (tk s c) else tk s i)"
  using assms by (simp add: demote_previous_def enqueue_ready_def shape_def Let_def demoted_def)

lemma demote_fields [simp]:
  "endpoints (demote_previous c s) = endpoints s" "num_tasks (demote_previous c s) = num_tasks s"
  "wq_len (demote_previous c s) = wq_len s" "current_task (demote_previous c s) = current_task s"
  "address_spaces (demote_previous c s) = address_spaces s" "counters (demote_previous c s) = counters s"
  "hw (demote_previous c s) = hw s" "length (tasks (demote_previous c s)) = length (tasks s)"
  "mem_demo_stage (demote_previous c s) = mem_demo_stage s" "mem_demo_mapped (demote_previous c s) = mem_demo_mapped s"
  "mem_demo_frame (demote_previous c s) = mem_demo_frame s"
  by (simp_all add: demote_previous_def enqueue_ready_def Let_def)

lemma ainv_demote: "shape s \<Longrightarrow> c < 3 \<Longrightarrow> ainv D s \<Longrightarrow> ainv D (demote_previous c s)"
  by (auto simp: ainv_def demote_tk demoted_def)

lemma core_push_event_queue [simp]:
  "core D ((push_event ev s)\<lparr>ready_queue := q, rq_len := n\<rparr>) = core D (s\<lparr>ready_queue := q, rq_len := n\<rparr>)"
  by (rule core_cong) simp_all

lemma core_demote:
  assumes "core {} s" "c < 3"
  shows "core {} (demote_previous c s)"
proof (cases "t_state (tk s c) = Running")
  case False
  then show ?thesis using assms by (simp add: demote_previous_def)
next
  case True
  note sh = coreD(1,2) [OF assms(1)]
  let ?u = "upd_task c demoted s"
  show ?thesis
  proof (cases "c = 0")
    case c0: True
    have "pending_send_msg (demoted t) = pending_send_msg t" "pending_syscall (demoted t) = pending_syscall t"
        "t_state (demoted t) = Ready" "blocked_reason (demoted t) = None" for t
      by (simp_all add: demoted_def)
    then have "core {} (upd_task 0 demoted s)" using assms(1) by (intro core_detach_idle_task) simp_all
    then show ?thesis using True c0 sh by (simp add: demote_previous_def Let_def TASK0_INDEX_def demoted_def [abs_def])
  next
    case False
    have "core {c} s" using core_detach_running [OF assms(1), of c] assms(2) True False by simp
    then have c: "core {c} ?u" by (rule core_upd_detached) simp_all
    have ok: "task_ok c (tk s c)" using coreD(7) [OF assms] by simp
    have "task_ok c (tk ?u c)" "t_state (tk ?u c) = Ready" using ok True assms(2) sh by (auto simp: demoted_def task_ok_def reason_ok_def)
    from core_attach_ready [OF c _ this]
    have "core {} (?u\<lparr>ready_queue := (ready_queue ?u)[rq_len ?u := c], rq_len := rq_len ?u + 1\<rparr>)" by simp
    moreover have "\<not> is_in_ready_queue ?u c" "rq_len s < 3"
      using ready_room [OF c, of c] coreD(8) [OF c]
      by (simp_all add: is_in_ready_queue_def rdy_def rq_ok_def array_contains_iff)
    ultimately show ?thesis
      using True False sh assms(2) by (simp add: demote_previous_def Let_def TASK0_INDEX_def demoted_def [abs_def] enqueue_ready_def MAX_TASKS_def
        is_in_ready_queue_def)
  qed
qed

lemma run_idle_post:
  assumes "core {} s" "ainv {} s" "\<And>i. i < 3 \<Longrightarrow> t_state (tk s i) \<noteq> Running" "b \<Longrightarrow> switch_safe E s"
  shows "post b (run_idle E s) (\<lambda>s'. kinv s' \<and> current_task s' = 0 \<and> endpoints s' = endpoints s
    \<and> (\<forall>i. tk s' i = (if i = 0 then start_running (tk s i) else tk s i)))"
proof -
  note sh = coreD(1,2) [OF assms(1)]
  have ok: "task_ok 0 (tk s 0)" using coreD(7) [OF assms(1)] by simp
  let ?u = "(upd_task 0 (\<lambda>t. t\<lparr>t_state := Running, blocked_reason := None, time_slice_used := 0\<rparr>) s)\<lparr>current_task := 0\<rparr>"
  have c: "core {} ?u" using assms(1) by (simp, intro core_detach_idle_task) (simp_all add: same_id_def)
  have a: "ainv {} ?u" using ainv_upd_task [OF assms(2)] sh by simp
  have m: "at_most_current ?u" "t_state (tk ?u 0) = Running"
    using assms(3) sh by (auto simp: at_most_current_def)
  obtain r where r: "root_page_frame (address_spaces s ! 0) = Some r" "address_spaces s ! 0 \<in> set (address_spaces s)"
    using ainvD(1) [OF assms(2)] ainvD(5) [OF assms(2), of 0] by (auto intro: nth_mem)
  have "post b (switch_address_space_quiet E r (hw s)) (\<lambda>h. True)"
    using switch_safeD(3) [OF assms(4) r(2,1)] by (auto simp: post_def split: option.split)
  then show ?thesis
    using ok r c a m sh
    by (cases "switch_address_space_quiet E r (hw s)")
       (auto simp: run_idle_def switch_to_kernel_def Let_def TASK0_INDEX_def KERNEL_ASID_INDEX_def task_ok_def kinv_def pre_kinv_def start_running_def)
qed

lemma core_start:
  assumes "core {i} s" "t_state (tk s i) = Ready" "task_ok i (tk s i)"
  shows "core {} (upd_task i start_running s)"
proof -
  note b = detached_bounds [OF assms(1), of i, simplified]
  have c: "core {i} (upd_task i start_running s)" by (rule core_upd_detached [OF assms(1)]) simp_all
  have "task_ok i (tk (upd_task i start_running s) i)"
    using assms(2,3) b by (auto simp: start_running_def task_ok_def reason_ok_def)
  from core_attach_idle [OF c _ this] show ?thesis using b by (simp add: start_running_def)
qed

lemma run_next_post:
  assumes "core {} s" "ainv {} s" "\<And>i. i < 3 \<Longrightarrow> t_state (tk s i) \<noteq> Running" "b \<Longrightarrow> sched_safe E s" "rdy s \<noteq> []"
  shows "post b (run_next E prev s) (\<lambda>s'. kinv s' \<and> current_task s' \<in> ready_set {} s \<and> endpoints s' = endpoints s
    \<and> (\<forall>k \<in> ready_set {} s. priority (tk s k) \<le> priority (tk s (current_task s')))
    \<and> (\<forall>i. tk s' i = (if i = current_task s' then start_running (tk s i) else tk s i)))"
proof -
  obtain i s1 where d: "dequeue_ready_highest_priority s = (Some i, s1)" "i \<in> ready_set {} s" "core {i} s1"
      "\<forall>k \<in> ready_set {} s. priority (tk s k) \<le> priority (tk s i)" "tasks s1 = tasks s"
      "current_task s1 = current_task s" "address_spaces s1 = address_spaces s" "hw s1 = hw s"
      "counters s1 = counters s" "endpoints s1 = endpoints s" "\<And>D'. ainv D' s1 = ainv D' s"
    using dequeue_spec [OF assms(1,5)] by metis
  have i: "0 < i" "i < 3" "t_state (tk s i) = Ready" using d(2) by (auto simp: ready_set_def)
  note sh = coreD(1,2) [OF d(3)] and l = ainvD(1) [OF assms(2)]
  have ok: "task_ok i (tk s i)" using coreD(7) [OF assms(1) i(2)] by simp
  let ?u = "(upd_task i start_running s1)\<lparr>current_task := i\<rparr>"
  have c: "core {} ?u" using core_start [OF d(3)] ok i d(5) by simp
  have a: "ainv {} ?u" using ainv_upd_task [of "{}" s1 i start_running] assms(2) d(11) i sh by (simp add: start_running_def)
  have m: "at_most_current ?u" "t_state (tk ?u i) = Running"
    using assms(3) i sh d(5) by (auto simp: at_most_current_def start_running_def)
  obtain r where r: "root_page_frame (address_spaces s ! i) = Some r" using ainvD(5) [OF assms(2) i(2)] by auto
  have mem: "address_spaces s ! i \<in> set (address_spaces s)" using l i(2) by simp
  have k: "kind (address_spaces s ! i) = User" "address_space_id (tk s i) = i"
    using ainvD(4) [OF assms(2) i(2)] i(1) coreD(6) [OF assms(1) i(2)] by simp_all
  have sw: "b \<longrightarrow> switch_address_space E (Some r) (set_vga_enabled False (hw s)) \<noteq> None"
    using switch_safeD(1) [OF _ mem r] assms(4) by (auto simp: sched_safe_def)
  have cn: "b \<longrightarrow> unat (sched_switches (counters s)) + 1 < 2 ^ 64" using assms(4) by (simp add: sched_safe_def)
  have eq: "run_next E prev s = do {
      h \<leftarrow> switch_address_space E (Some r) (set_vga_enabled False (hw s));
      n \<leftarrow> (if i \<noteq> prev then chk_inc (sched_switches (counters s)) else Some (sched_switches (counters s)));
      Some (push_event (TaskStateChanged (t_id (tk s i)) Running) (push_event (TaskSwitched (t_id (tk s i)))
        (?u\<lparr>hw := h, counters := (counters s)\<lparr>sched_switches := n\<rparr>\<rparr>))) }"
    using d(1,5-9) i sh k r l
    by (simp add: run_next_def Let_def start_running_def [abs_def] cong: if_cong)
  show ?thesis
    unfolding eq using c a m d(2,4,5,10) i sh sw cn
    by (cases "switch_address_space E (Some r) (set_vga_enabled False (hw s))")
       (auto simp: post_bind post_chk_inc kinv_def pre_kinv_def)
qed

text \<open>What scheduling leaves alone: everything of a task but its state, its blocked reason and its time
  slice, and everything of a task that cannot run.\<close>

definition payload :: "Task \<Rightarrow> TaskId \<times> u8 \<times> u64 option \<times> u64 option \<times> u64 option \<times> Syscall option" where
  "payload t = (t_id t, priority t, last_msg t, last_reply t, pending_send_msg t, pending_syscall t)"

definition kept :: "'m KernelState \<Rightarrow> 'm KernelState \<Rightarrow> bool" where
  "kept s s' \<longleftrightarrow> endpoints s' = endpoints s \<and> (\<forall>i < 3. payload (tk s' i) = payload (tk s i)
     \<and> (t_state (tk s i) = Blocked \<or> t_state (tk s i) = Dead \<longrightarrow> tk s' i = tk s i)
     \<and> (t_state (tk s i) = Ready \<or> t_state (tk s i) = Running \<longrightarrow> t_state (tk s' i) = Ready \<or> t_state (tk s' i) = Running))"

lemma payload_simps [simp]: "payload (start_running t) = payload t" "payload (demoted t) = payload t"
  by (simp_all add: payload_def start_running_def demoted_def)

lemma schedule_post:
  assumes "pre_kinv s" "b \<Longrightarrow> sched_safe E s"
  shows "post b (schedule_next_task E s) (\<lambda>s'. kinv s' \<and> good_choice s (current_task s') \<and> kept s s')"
proof -
  note core = pre_kinvD(1) [OF assms(1)] and ainv = pre_kinvD(2) [OF assms(1)] and cur = pre_kinvD(3,4) [OF assms(1)]
  define c where "c = current_task s"
  define s1 where "s1 = s\<lparr>hw := set_vga_enabled (kind (address_spaces s ! c) = Kernel) (hw s)\<rparr>"
  define s2 where "s2 = demote_previous c (compact_ready_queue_to_ready_only s1)"
  have c: "c < 3" using cur by (simp add: c_def)
  have core1: "core {} (compact_ready_queue_to_ready_only s1)" by (rule core_compact) (simp add: s1_def core)
  have core2: "core {} s2" using core_demote [OF core1 c] by (simp add: s2_def)
  have tk2: "tk s2 i = (if i = c \<and> t_state (tk s c) = Running then demoted (tk s c) else tk s i)" for i
    unfolding s2_def demote_tk [OF core_shape [OF core1] c] by (simp add: s1_def)
  have run: "i = c" if "i < 3" "t_state (tk s i) = Running" for i
    using cur that by (simp add: at_most_current_def c_def)
  have dem: "t_state (demoted t) = Ready" "priority (demoted t) = priority t" for t by (simp_all add: demoted_def)
  have ainv2: "ainv {} s2"
    unfolding s2_def using ainv by (intro ainv_demote [OF core_shape [OF core1] c]) (simp add: s1_def)
  have norun: "t_state (tk s2 i) \<noteq> Running" if "i < 3" for i
  proof (cases "i = c")
    case False
    then have "t_state (tk s i) \<noteq> Running" using run [OF that] by blast
    then show ?thesis using False by (simp add: tk2)
  qed (simp add: tk2 dem)
  have safe2: "b \<Longrightarrow> sched_safe E s2"
    using assms(2) switch_safe_cong [of s2 s "kind (address_spaces s ! c) = Kernel" E]
    by (simp add: sched_safe_def s2_def s1_def)
  have rs2: "set (rdy s2) = ready_set {} s2" using coreD(8) [OF core2] by (simp add: rq_ok_def)
  have r: "ready_set {} s2 = runnable s"
    unfolding ready_set_def runnable_def by (intro Collect_cong) (auto simp: tk2 dem dest: run)
  have prio: "priority (tk s2 i) = priority (tk s i)" "payload (tk s2 i) = payload (tk s i)"
      "t_state (tk s i) = Blocked \<or> t_state (tk s i) = Dead \<Longrightarrow> tk s2 i = tk s i"
      "t_state (tk s i) = Ready \<or> t_state (tk s i) = Running \<Longrightarrow> t_state (tk s2 i) = Ready \<or> t_state (tk s2 i) = Running" for i
    by (auto simp: tk2 dem)
  have ep: "endpoints s2 = endpoints s" by (simp add: s2_def s1_def)
  have idle: "rdy s2 = [] \<longleftrightarrow> rq_len s2 = 0" using coreD(8) [OF core2] by (auto simp: rq_ok_def rdy_def)
  have eq: "schedule_next_task E s = (if rq_len s2 = 0 then run_idle E s2 else run_next E c s2)"
    using coreD(2,4) [OF core] coreD(4) [OF core2] coreD(6) [OF core c] ainvD(1) [OF ainv] c
    by (simp add: schedule_next_task_def Let_def c_def [symmetric] s1_def [symmetric] s2_def [symmetric])
  have kept: "kept s s'" if "endpoints s' = endpoints s2" "t_state (tk s2 n) = Ready"
      "\<forall>i. tk s' i = (if i = n then start_running (tk s2 i) else tk s2 i)" for s' :: "'a KernelState" and n
  proof -
    have "t_state (tk s n) \<noteq> Blocked \<and> t_state (tk s n) \<noteq> Dead" using prio(3) [of n] that(2) by auto
    moreover have "t_state (start_running t) = Running" for t by (simp add: start_running_def)
    ultimately show ?thesis using that(1,3) prio ep unfolding kept_def by auto
  qed
  show ?thesis
  proof (cases "rq_len s2 = 0")
    case True
    then have "runnable s = {}" using idle rs2 r by simp
    moreover have "t_state (tk s2 0) = Ready"
      using coreD(7) [OF core2, of 0] norun [of 0] by (auto simp: task_ok_def)
    ultimately show ?thesis
      unfolding eq using True safe2
      by (auto intro!: post_mono [OF run_idle_post [OF core2 ainv2 norun]] kept [of _ 0] simp: good_choice_def sched_safe_def)
  next
    case False
    then have "rdy s2 \<noteq> []" using idle by simp
    with run_next_post [of s2 b E c] core2 ainv2 norun safe2
    have "post b (run_next E c s2) (\<lambda>s'. kinv s' \<and> current_task s' \<in> runnable s \<and> endpoints s' = endpoints s2
        \<and> (\<forall>k \<in> runnable s. priority (tk s k) \<le> priority (tk s (current_task s')))
        \<and> (\<forall>i. tk s' i = (if i = current_task s' then start_running (tk s2 i) else tk s2 i)))"
      unfolding r prio by blast
    then have "post b (run_next E c s2) (\<lambda>s'. kinv s' \<and> good_choice s (current_task s') \<and> kept s s')"
    proof (rule post_mono, elim conjE)
      fix s' :: "'a KernelState" assume h: "kinv s'" "current_task s' \<in> runnable s" "endpoints s' = endpoints s2"
        "\<forall>k \<in> runnable s. priority (tk s k) \<le> priority (tk s (current_task s'))"
        "\<forall>i. tk s' i = (if i = current_task s' then start_running (tk s2 i) else tk s2 i)"
      have "t_state (tk s2 (current_task s')) = Ready" using h(2) unfolding r [symmetric] ready_set_def by simp
      from kept [OF h(3) this h(5)] h show "kinv s' \<and> good_choice s (current_task s') \<and> kept s s'"
        by (auto simp: good_choice_def)
    qed
    then show ?thesis unfolding eq using False by simp
  qed
qed

end
