(* ===== verification/Ipc_Spec.thy ===== *)
theory Ipc_Spec
  imports Syscalls
begin

text \<open>
  What IPC promises, without its queues: a task is free, waits in one of three phases on an endpoint,
  or is dead, and has the last message and the last reply it got.  \<open>ipc_spec\<close> is the rendezvous
  protocol over these views: which steps a receive, a send and a reply may take.  The lemmas of the
  last section are consequences of the protocol alone.
\<close>

datatype phase = Free | WaitRecv EndpointId | WaitSend EndpointId u64 | WaitReply EndpointId TaskId | Gone

record TaskView =
  ph :: phase
  inbox :: "u64 option"
  answer :: "u64 option"

type_synonym view = "usize \<Rightarrow> TaskView"

definition phase_of :: "Task \<Rightarrow> phase" where
  "phase_of t = (case t_state t of
       Dead \<Rightarrow> Gone
     | Blocked \<Rightarrow> (case blocked_reason t of
           Some (IpcRecv j) \<Rightarrow> WaitRecv j
         | Some (IpcSend j) \<Rightarrow> WaitSend j (the (pending_send_msg t))
         | Some (IpcReply p j) \<Rightarrow> WaitReply j p
         | _ \<Rightarrow> Free)
     | _ \<Rightarrow> Free)"

definition task_view :: "Task \<Rightarrow> TaskView" where
  "task_view t = \<lparr>ph = phase_of t, inbox = last_msg t, answer = last_reply t\<rparr>"

definition view :: "'m KernelState \<Rightarrow> view" where
  "view s i = (if i < 3 then task_view (tasks s ! i) else \<lparr>ph = Gone, inbox = None, answer = None\<rparr>)"

definition closed_eps :: "'m KernelState \<Rightarrow> EndpointId \<Rightarrow> bool" where
  "closed_eps s j = is_closed (endpoints s ! j)"

section \<open>The protocol\<close>

definition accepts :: "(EndpointId \<Rightarrow> bool) \<Rightarrow> usize \<Rightarrow> EndpointId \<Rightarrow> bool" where
  "accepts cl c j \<longleftrightarrow> j < MAX_ENDPOINTS \<and> c \<noteq> TASK0_INDEX \<and> \<not> cl j"

definition tid_of :: "usize \<Rightarrow> TaskId" where
  "tid_of i = of_nat (Suc i)"

text \<open>Caller \<open>c\<close> makes the call; \<open>cl\<close> tells which endpoints are closed.\<close>

inductive ipc_spec :: "(EndpointId \<Rightarrow> bool) \<Rightarrow> usize \<Rightarrow> Syscall \<Rightarrow> view \<Rightarrow> view \<Rightarrow> bool"
  for cl :: "EndpointId \<Rightarrow> bool" and c :: usize where
  bad_endpoint: "is_ipc_syscall sc \<Longrightarrow> sc_ep sc \<ge> MAX_ENDPOINTS \<Longrightarrow> ipc_spec cl c sc v v"
| kernel_caller: "is_ipc_syscall sc \<Longrightarrow> sc_ep sc < MAX_ENDPOINTS \<Longrightarrow> c = TASK0_INDEX \<Longrightarrow>
    ipc_spec cl c sc v (v(c := (v c)\<lparr>answer := Some IPC_ERR_DEAD_PARTNER\<rparr>))"
| closed_endpoint: "is_ipc_syscall sc \<Longrightarrow> sc_ep sc < MAX_ENDPOINTS \<Longrightarrow> c \<noteq> TASK0_INDEX \<Longrightarrow> cl (sc_ep sc) \<Longrightarrow>
    ipc_spec cl c sc v (v(c := (v c)\<lparr>answer := Some IPC_ERR_ENDPOINT_CLOSED\<rparr>))"
| recv_take: "accepts cl c j \<Longrightarrow> ph (v i) = WaitSend j m \<Longrightarrow>
    ipc_spec cl c (SysIpcRecv j) v (v(i := (v i)\<lparr>ph := WaitReply j (tid_of c)\<rparr>, c := (v c)\<lparr>inbox := Some m\<rparr>))"
| recv_wait: "accepts cl c j \<Longrightarrow> (\<And>i m. ph (v i) \<noteq> WaitSend j m) \<Longrightarrow> (\<And>i. ph (v i) \<noteq> WaitRecv j) \<Longrightarrow>
    ipc_spec cl c (SysIpcRecv j) v (v(c := (v c)\<lparr>ph := WaitRecv j\<rparr>))"
| recv_busy: "accepts cl c j \<Longrightarrow> (\<And>i m. ph (v i) \<noteq> WaitSend j m) \<Longrightarrow> ph (v i) = WaitRecv j \<Longrightarrow>
    ipc_spec cl c (SysIpcRecv j) v (v(c := (v c)\<lparr>answer := Some IPC_ERR_RECV_ALREADY_WAITING\<rparr>))"
| send_give: "accepts cl c j \<Longrightarrow> ph (v i) = WaitRecv j \<Longrightarrow>
    ipc_spec cl c (SysIpcSend j m) v
      (v(i := (v i)\<lparr>ph := Free, inbox := Some m\<rparr>, c := (v c)\<lparr>ph := WaitReply j (tid_of i)\<rparr>))"
| send_wait: "accepts cl c j \<Longrightarrow> (\<And>i. ph (v i) \<noteq> WaitRecv j) \<Longrightarrow>
    ipc_spec cl c (SysIpcSend j m) v (v(c := (v c)\<lparr>ph := WaitSend j m\<rparr>))"
| reply_deliver: "accepts cl c j \<Longrightarrow> ph (v i) = WaitReply j (tid_of c) \<Longrightarrow>
    ipc_spec cl c (SysIpcReply j m) v (v(i := (v i)\<lparr>ph := Free, answer := Some m\<rparr>))"
| reply_nobody: "accepts cl c j \<Longrightarrow> (\<And>i. ph (v i) \<noteq> WaitReply j (tid_of c)) \<Longrightarrow>
    ipc_spec cl c (SysIpcReply j m) v v"

inductive_cases ipc_spec_recvE: "ipc_spec cl c (SysIpcRecv j) v v'"
inductive_cases ipc_spec_sendE: "ipc_spec cl c (SysIpcSend j m) v v'"
inductive_cases ipc_spec_replyE: "ipc_spec cl c (SysIpcReply j m) v v'"

section \<open>Consequences of the protocol\<close>

text \<open>A queued message is not lost: the sender stays in its phase, or some other task has the message
  and is the one the sender now waits for.\<close>

lemma spec_message_kept:
  assumes "ipc_spec cl c sc v v'" "ph (v c) = Free" "ph (v i) = WaitSend j m"
  shows "ph (v' i) = WaitSend j m \<or> (ph (v' i) = WaitReply j (tid_of c) \<and> inbox (v' c) = Some m)"
  using assms by (cases rule: ipc_spec.cases) auto

text \<open>A waiting sender is answered only by the task it waits for.\<close>

lemma spec_answer_from_partner:
  assumes "ipc_spec cl c sc v v'" "ph (v c) = Free" "ph (v i) = WaitReply j p" "ph (v' i) \<noteq> WaitReply j p"
  shows "p = tid_of c \<and> (\<exists>m. sc = SysIpcReply j m \<and> v' i = (v i)\<lparr>ph := Free, answer := Some m\<rparr>)"
  using assms by (cases rule: ipc_spec.cases) (auto split: if_splits)

text \<open>A call changes the caller and at most one other task.\<close>

lemma spec_two_tasks:
  assumes "ipc_spec cl c sc v v'"
  shows "\<exists>i. \<forall>k. k \<noteq> c \<longrightarrow> k \<noteq> i \<longrightarrow> v' k = v k"
  using assms by (cases rule: ipc_spec.cases) auto

end
