(* ===== verification/Inv_Ipc.thy ===== *)
theory Inv_Ipc
  imports Inv_Sched Ipc_Spec
begin

text \<open>
  IPC keeps the invariant, and what its paths do: a receive takes the message of a blocked sender and
  makes it wait for the reply, or blocks the receiver; a send hands the message to the waiting
  receiver, or queues the sender; a reply wakes the sender that waits for it.
\<close>

section \<open>Counters\<close>

definition room :: "'m KernelState \<Rightarrow> bool" where
  "room s \<longleftrightarrow> list_all (\<lambda>c. unat c + 1 < 2 ^ 64)
     [sched_switches (counters s), ipc_send_fast (counters s), ipc_send_slow (counters s), ipc_recv_fast (counters s),
      ipc_recv_slow (counters s), ipc_reply_delivered (counters s)]"

definition ipc_safe :: "'m Env \<Rightarrow> 'm KernelState \<Rightarrow> bool" where
  "ipc_safe E s \<longleftrightarrow> switch_safe E s \<and> room s"

lemma sched_safe_cong:
  assumes "address_spaces s' = address_spaces s" "hw s' = hw s" "sched_switches (counters s') = sched_switches (counters s)"
  shows "sched_safe E s' = sched_safe E s"
  using assms by (simp add: sched_safe_def switch_safe_def)

lemma ipc_safe_sched: "ipc_safe E s \<Longrightarrow> sched_safe E s"
  by (simp add: ipc_safe_def sched_safe_def room_def)

lemma count_delivery_fields [simp]:
  "tasks (count_delivery ep r s) = tasks s" "endpoints (count_delivery ep r s) = endpoints s"
  "address_spaces (count_delivery ep r s) = address_spaces s" "hw (count_delivery ep r s) = hw s"
  "counters (count_delivery ep r s) = counters s" "current_task (count_delivery ep r s) = current_task s"
  "kinv (count_delivery ep r s) = kinv s" "pre_kinv (count_delivery ep r s) = pre_kinv s"
  by (simp_all add: count_delivery_def)

lemma remove_ready_upd_endpoint:
  "snd (remove_from_ready_queue i (upd_endpoint j g s)) = upd_endpoint j g (snd (remove_from_ready_queue i s))"
  by (simp add: remove_from_ready_queue_def upd_endpoint_def split: prod.split)

section \<open>Moving a task between the structures of an endpoint\<close>

lemma kernel_task_iff:
  assumes "kinv s" "i < 3"
  shows "is_kernel_task_index s i \<longleftrightarrow> i = 0"
proof -
  note c = kinvD(1) [OF assms(1)]
  have "num_tasks s = 3" "address_space_id (tk s i) = i" "kind (address_spaces s ! i) = (if i = 0 then Kernel else User)"
    using coreD(1) [OF c] coreD(6) [OF c assms(2)] ainvD(4) [OF kinvD(2) [OF assms(1)] assms(2)] by simp_all
  then show ?thesis using assms(2) by (simp add: is_kernel_task_index_def)
qed

text \<open>A task that is in no structure and not dead starts to wait for a reply.\<close>

lemma attach_reply:
  assumes "core {i} s" "j < 2" "t_state (tk s i) \<noteq> Dead" "pending_send_msg (tk s i) = None"
    "pending_ok (pending_syscall (tk s i))" "\<not> is_closed (endpoints s ! j)"
    "0 < k" "k < 3" "k \<noteq> i" "t_state (tk s k) \<noteq> Dead" "p = t_id (tk s k)"
  shows "fst (try_enqueue_reply_waiter (endpoints s ! j) i)"
    "core {} (block_task i (IpcReply p j) (upd_endpoint j (\<lambda>_. snd (try_enqueue_reply_waiter (endpoints s ! j) i)) s))"
    "i \<in> set (rq (snd (try_enqueue_reply_waiter (endpoints s ! j) i)))"
proof -
  note b = detached_bounds [OF assms(1), of i, simplified] and n = coreD(1,3) [OF assms(1)]
  have e: "ep_ok {i} s j (endpoints s ! j)" using coreD(9) [OF assms(1,2)] .
  define u where "u = upd_task i (block_with (IpcReply p j)) (snd (remove_from_ready_queue i s))"
  have cu: "core {i} u" unfolding u_def by (rule core_upd_detached [OF core_remove_ready [OF assms(1)]]) simp_all
  have tu: "tk u i = block_with (IpcReply p j) (tk s i)" using b by (simp add: u_def)
  have eu: "endpoints u = endpoints s" by (simp add: u_def)
  obtain ok e2 where t: "try_enqueue_reply_waiter (endpoints s ! j) i = (ok, e2)" by fastforce
  have "set (rq (endpoints s ! j)) \<subseteq> {..<MAX_TASKS} - {i}" using e by (auto simp: ep_ok_def blk_def MAX_TASKS_def)
  from reply_bag.push_other [OF _ this _ t] e b
  have p: "ok" "ep_wf e2" "set (rq e2) = insert i (set (rq (endpoints s ! j)))" by (auto simp: ep_ok_def MAX_TASKS_def)
  have "sq e2 = sq (endpoints s ! j)" "ep_id e2 = j" "recv_waiter e2 = recv_waiter (endpoints s ! j)"
      "is_closed e2 = is_closed (endpoints s ! j)"
    using t e by (auto simp: try_enqueue_reply_waiter_def ep_ok_def sq_def split: if_splits)
  moreover have "blk {} u P = (if P (Some (IpcReply p j)) then insert i (blk {i} u P) else blk {i} u P)" for P
    using blk_attach [of i "{i}" u P] b tu by (simp add: block_with_def)
  ultimately have e2: "ep_ok {} u j e2"
    using p(2,3) coreD(9) [OF cu assms(2)] assms(6) eu by (simp add: ep_ok_def)
  have "task_ok i (tk u i)"
    using assms(2,4,5) b tu by (simp add: task_ok_def reason_ok_def block_with_def MAX_ENDPOINTS_def)
  moreover have "tk u k = tk s k" using assms(9) b by (simp add: u_def)
  then have "partner_ok {} u i p"
    using assms(7-11) coreD(5) [OF assms(1,8)] unfolding partner_ok_def by (intro exI [of _ k]) simp
  ultimately have "core {} (upd_endpoint j (\<lambda>_. e2) u)"
    using core_attach_ep [OF cu, of i j e2] assms(2) e2 tu by (simp add: block_with_def)
  then show "core {} (block_task i (IpcReply p j) (upd_endpoint j (\<lambda>_. snd (try_enqueue_reply_waiter (endpoints s ! j) i)) s))"
    using b n assms(3) t by (simp add: block_task_eq remove_ready_upd_endpoint u_def upd_commute)
  show "fst (try_enqueue_reply_waiter (endpoints s ! j) i)" "i \<in> set (rq (snd (try_enqueue_reply_waiter (endpoints s ! j) i)))"
    using p t by simp_all
qed

lemma attach_send:
  assumes "core {i} s" "j < 2" "t_state (tk s i) \<noteq> Dead" "pending_send_msg (tk s i) \<noteq> None"
    "pending_ok (pending_syscall (tk s i))" "\<not> is_closed (endpoints s ! j)"
  shows "fst (try_enqueue_sender (endpoints s ! j) i)"
    "core {} (block_task i (IpcSend j) (upd_endpoint j (\<lambda>_. snd (try_enqueue_sender (endpoints s ! j) i)) s))"
proof -
  note b = detached_bounds [OF assms(1), of i, simplified] and n = coreD(1,3) [OF assms(1)]
  have e: "ep_ok {i} s j (endpoints s ! j)" using coreD(9) [OF assms(1,2)] .
  define u where "u = upd_task i (block_with (IpcSend j)) (snd (remove_from_ready_queue i s))"
  have cu: "core {i} u" unfolding u_def by (rule core_upd_detached [OF core_remove_ready [OF assms(1)]]) simp_all
  have tu: "tk u i = block_with (IpcSend j) (tk s i)" using b by (simp add: u_def)
  have eu: "endpoints u = endpoints s" by (simp add: u_def)
  obtain ok e2 where t: "try_enqueue_sender (endpoints s ! j) i = (ok, e2)" by fastforce
  have "set (sq (endpoints s ! j)) \<subseteq> {..<MAX_TASKS} - {i}" using e by (auto simp: ep_ok_def blk_def MAX_TASKS_def)
  from send_bag.push_other [OF _ this _ t] e b
  have p: "ok" "ep_wf e2" "set (sq e2) = insert i (set (sq (endpoints s ! j)))" by (auto simp: ep_ok_def MAX_TASKS_def)
  have "rq e2 = rq (endpoints s ! j)" "ep_id e2 = j" "recv_waiter e2 = recv_waiter (endpoints s ! j)"
      "is_closed e2 = is_closed (endpoints s ! j)"
    using t e by (auto simp: try_enqueue_sender_def ep_ok_def rq_def split: if_splits)
  moreover have "blk {} u P = (if P (Some (IpcSend j)) then insert i (blk {i} u P) else blk {i} u P)" for P
    using blk_attach [of i "{i}" u P] b tu by (simp add: block_with_def)
  ultimately have e2: "ep_ok {} u j e2"
    using p(2,3) coreD(9) [OF cu assms(2)] assms(6) eu by (simp add: ep_ok_def)
  have "task_ok i (tk u i)"
    using assms(2,4,5) b tu by (simp add: task_ok_def reason_ok_def block_with_def MAX_ENDPOINTS_def)
  then have "core {} (upd_endpoint j (\<lambda>_. e2) u)"
    using core_attach_ep [OF cu, of i j e2] assms(2) e2 tu by (simp add: block_with_def)
  then show "core {} (block_task i (IpcSend j) (upd_endpoint j (\<lambda>_. snd (try_enqueue_sender (endpoints s ! j) i)) s))"
    using b n assms(3) t by (simp add: block_task_eq remove_ready_upd_endpoint u_def upd_commute)
  show "fst (try_enqueue_sender (endpoints s ! j) i)" using p t by simp
qed

lemma attach_recv:
  assumes "core {i} s" "j < 2" "t_state (tk s i) \<noteq> Dead" "pending_send_msg (tk s i) = None"
    "pending_ok (pending_syscall (tk s i))" "\<not> is_closed (endpoints s ! j)" "recv_waiter (endpoints s ! j) = None"
  shows "core {} (upd_endpoint j (\<lambda>e. e\<lparr>recv_waiter := Some i\<rparr>) (block_task i (IpcRecv j) s))"
proof -
  note b = detached_bounds [OF assms(1), of i, simplified] and n = coreD(1,3) [OF assms(1)]
  define u where "u = upd_task i (block_with (IpcRecv j)) (snd (remove_from_ready_queue i s))"
  have cu: "core {i} u" unfolding u_def by (rule core_upd_detached [OF core_remove_ready [OF assms(1)]]) simp_all
  have tu: "tk u i = block_with (IpcRecv j) (tk s i)" using b by (simp add: u_def)
  have eu: "endpoints u = endpoints s" by (simp add: u_def)
  let ?e = "(endpoints s ! j)\<lparr>recv_waiter := Some i\<rparr>"
  have "ep_wf ?e = ep_wf (endpoints s ! j)" "sq ?e = sq (endpoints s ! j)" "rq ?e = rq (endpoints s ! j)"
    by (simp_all add: ep_wf_def sq_def rq_def)
  moreover have "blk {} u P = (if P (Some (IpcRecv j)) then insert i (blk {i} u P) else blk {i} u P)" for P
    using blk_attach [of i "{i}" u P] b tu by (simp add: block_with_def)
  ultimately have e: "ep_ok {} u j ?e"
    using coreD(9) [OF cu assms(2)] assms(6,7) eu by (auto simp: ep_ok_def)
  have "task_ok i (tk u i)"
    using assms(2,4,5) b tu by (simp add: task_ok_def reason_ok_def block_with_def MAX_ENDPOINTS_def)
  then have "core {} (upd_endpoint j (\<lambda>_. ?e) u)"
    using core_attach_ep [OF cu, of i j ?e] assms(2) e tu by (simp add: block_with_def)
  moreover have "upd_endpoint j (\<lambda>_. ?e) u = upd_endpoint j (\<lambda>e. e\<lparr>recv_waiter := Some i\<rparr>) u"
    using eu by (simp add: upd_endpoint_def)
  moreover have "block_task i (IpcRecv j) s = push_event (TaskStateChanged (t_id (tk s i)) Blocked) u"
    using b n assms(3) by (simp add: block_task_eq u_def)
  moreover have "core {} (upd_endpoint j g (push_event ev u)) = core {} (upd_endpoint j g u)" for g ev
    by (rule core_cong) (simp_all add: upd_endpoint_def)
  ultimately show ?thesis by simp
qed


section \<open>Waking and blocking in place\<close>

lemma task_ok_live [simp]:
  "t_state t \<noteq> Dead \<Longrightarrow> task_ok i (t\<lparr>last_msg := x\<rparr>) = task_ok i t"
  "t_state t \<noteq> Dead \<Longrightarrow> task_ok i (t\<lparr>last_reply := x\<rparr>) = task_ok i t"
  by (simp_all add: task_ok_def)

lemma local_upd_simps [simp]:
  "local_upd (last_msg_update f)" "local_upd (last_reply_update f)" "local_upd (pending_syscall_update g)"
  by (simp_all add: local_upd_def)

lemma block_fields [simp]:
  "endpoints (block_task i r s) = endpoints s" "num_tasks (block_task i r s) = num_tasks s"
  "length (tasks (block_task i r s)) = length (tasks s)"
  "current_task (block_task i r s) = current_task s" "address_spaces (block_task i r s) = address_spaces s"
  "hw (block_task i r s) = hw s" "counters (block_task i r s) = counters s"
  by (simp_all add: block_task_def enqueue_wait_def Let_def)

lemma tk_block:
  assumes "i < num_tasks s" "i < length (tasks s)" "t_state (tk s i) \<noteq> Dead" "r \<noteq> Sleep"
  shows "tk (block_task i r s) k = (if k = i then block_with r (tk s i) else tk s k)"
  using assms by (simp add: block_task_eq)

lemma block_invs:
  assumes "i < num_tasks s" "i < length (tasks s)" "t_state (tk s i) \<noteq> Dead" "r \<noteq> Sleep"
  shows "ainv D s \<Longrightarrow> ainv D (block_task i r s)" "at_most_current s \<Longrightarrow> at_most_current (block_task i r s)"
proof -
  show "ainv D (block_task i r s)" if "ainv D s"
    using assms that by (simp add: block_task_eq, intro ainv_upd_task) (simp_all add: block_with_def)
  show "at_most_current (block_task i r s)" if "at_most_current s"
    using that assms by (auto simp: at_most_current_def tk_block block_with_def)
qed

lemma blocked_user:
  assumes "core D s" "i < 3" "i \<notin> D" "blocked_reason (tk s i) = Some r"
  shows "t_state (tk s i) = Blocked" "0 < i" "pending_ok (pending_syscall (tk s i))" "br_ep r < 2"
    "pending_send_msg (tk s i) \<noteq> None \<longleftrightarrow> r = IpcSend (br_ep r)"
proof -
  have ok: "task_ok i (tk s i)" using coreD(7) [OF assms(1-3)] .
  then show "t_state (tk s i) = Blocked" "pending_ok (pending_syscall (tk s i))"
    using assms(4) by (auto simp: task_ok_def)
  then show "0 < i" using ok by (cases "i = 0") (auto simp: task_ok_def)
  show "br_ep r < 2" using ok assms(4) by (cases r) (auto simp: task_ok_def reason_ok_def MAX_ENDPOINTS_def)
  show "pending_send_msg (tk s i) \<noteq> None \<longleftrightarrow> r = IpcSend (br_ep r)"
    using ok assms(4) by (cases r) (auto simp: task_ok_def)
qed

text \<open>Releasing a blocked task: it leaves its endpoint and becomes ready.\<close>

definition frees :: "(Task \<Rightarrow> Task) \<Rightarrow> Task \<Rightarrow> bool" where
  "frees f t \<longleftrightarrow> same_id f \<and> t_state (f t) = t_state t \<and> pending_send_msg (f t) = None \<and> pending_syscall (f t) = pending_syscall t"

lemma core_release:
  assumes "core D s" "i < 3" "i \<notin> D" "blocked_reason (tk s i) = Some r" "about_ep j (Some r)" "j < 2"
    "ep_ok (insert i D) s j e'" "frees f (tk s i)"
  shows "core D (wake_task_to_ready i (upd_task i f (upd_endpoint j (\<lambda>_. e') s)))"
proof -
  note b = blocked_user [OF assms(1-4)] and n = coreD(2) [OF assms(1)]
  have d: "core (insert i D) (upd_endpoint j (\<lambda>_. e') s)"
    using core_detach_ep [OF assms(1) b(2) assms(2,3) b(1) assms(6)] assms(4,5,7) by simp
  have u: "core (insert i D) (upd_task i f (upd_endpoint j (\<lambda>_. e') s))" (is "core _ ?u")
    by (rule core_upd_detached [OF d]) (use assms(8) in \<open>simp_all add: frees_def\<close>)
  have "core (insert i D - {i}) (wake_task_to_ready i ?u)"
    using core_wake [OF u, of i] assms(2,8) b n by (simp add: frees_def)
  then show ?thesis using assms(3) by simp
qed

lemma tk_release:
  assumes "core D s" "i < 3" "t_state (tk s i) = Blocked" "t_state (f (tk s i)) = t_state (tk s i)"
  shows "tk (wake_task_to_ready i (upd_task i f (upd_endpoint j g s))) k = (if k = i then wake_with (f (tk s i)) else tk s k)"
  using assms coreD(1,2) [OF assms(1)] by (simp add: tk_wake)

lemma release_invs:
  assumes "core D s" "i < 3" "t_state (tk s i) = Blocked" "t_state (f (tk s i)) = t_state (tk s i)"
  shows "ainv D' s \<Longrightarrow> ainv D' (wake_task_to_ready i (upd_task i f (upd_endpoint j g s)))"
    "at_most_current s \<Longrightarrow> at_most_current (wake_task_to_ready i (upd_task i f (upd_endpoint j g s)))"
proof -
  have n: "num_tasks s = 3" "length (tasks s) = 3" using coreD(1,2) [OF assms(1)] .
  show "ainv D' (wake_task_to_ready i (upd_task i f (upd_endpoint j g s)))" if "ainv D' s"
    using ainv_upd_task [of D' "upd_endpoint j g s" i f] that assms n by (intro ainv_wake) simp_all
  show "at_most_current (wake_task_to_ready i (upd_task i f (upd_endpoint j g s)))" if "at_most_current s"
    using at_most_current_upd_task [of "upd_endpoint j g s" i f] that assms n by (intro at_most_current_wake) simp_all
qed

section \<open>Views under the invariant\<close>

lemma view_cong: "tasks s' = tasks s \<Longrightarrow> view s' = view s"
  by (simp add: view_def fun_eq_iff)

lemma phase_of_local [simp]:
  "phase_of (t\<lparr>last_reply := x\<rparr>) = phase_of t" "phase_of (t\<lparr>last_msg := x\<rparr>) = phase_of t"
  "phase_of (t\<lparr>pending_syscall := y\<rparr>) = phase_of t"
  by (simp_all add: phase_of_def cong: TaskState.case_cong option.case_cong BlockedReason.case_cong)

lemma view_phase:
  assumes "core {} s"
  shows "ph (view s i) = WaitSend j m \<longleftrightarrow> i < 3 \<and> blocked_reason (tk s i) = Some (IpcSend j) \<and> pending_send_msg (tk s i) = Some m"
    "ph (view s i) = WaitRecv j \<longleftrightarrow> i < 3 \<and> blocked_reason (tk s i) = Some (IpcRecv j)"
    "ph (view s i) = WaitReply j p \<longleftrightarrow> i < 3 \<and> blocked_reason (tk s i) = Some (IpcReply p j)"
proof -
  have ok: "task_ok i (tk s i)" if "i < 3" using coreD(7) [OF assms that] by simp
  show "ph (view s i) = WaitSend j m \<longleftrightarrow> i < 3 \<and> blocked_reason (tk s i) = Some (IpcSend j) \<and> pending_send_msg (tk s i) = Some m"
    "ph (view s i) = WaitRecv j \<longleftrightarrow> i < 3 \<and> blocked_reason (tk s i) = Some (IpcRecv j)"
    "ph (view s i) = WaitReply j p \<longleftrightarrow> i < 3 \<and> blocked_reason (tk s i) = Some (IpcReply p j)"
    using ok by (cases "t_state (tk s i)"; auto simp: view_def task_view_def phase_of_def task_ok_def
      split: option.splits BlockedReason.splits)+
qed

lemma view_kept:
  assumes "kept s s'"
  shows "view s' = view s"
proof (rule ext)
  fix i show "view s' i = view s i"
  proof (cases "i < 3")
    case True
    then have k: "payload (tk s' i) = payload (tk s i)"
        "t_state (tk s i) = Blocked \<or> t_state (tk s i) = Dead \<longrightarrow> tk s' i = tk s i"
        "t_state (tk s i) = Ready \<or> t_state (tk s i) = Running \<longrightarrow> t_state (tk s' i) = Ready \<or> t_state (tk s' i) = Running"
      using assms by (simp_all add: kept_def)
    show ?thesis using k True
      by (cases "t_state (tk s i)") (auto simp: view_def task_view_def phase_of_def payload_def)
  qed (simp add: view_def)
qed

text \<open>A blocked task of the endpoint is in the queue its phase names.\<close>

lemma in_queues:
  assumes "core {} s" "j < 2"
  shows "i \<in> set (sq (endpoints s ! j)) \<longleftrightarrow> i < 3 \<and> blocked_reason (tk s i) = Some (IpcSend j)"
    "i \<in> set (rq (endpoints s ! j)) \<longleftrightarrow> i < 3 \<and> (\<exists>p. blocked_reason (tk s i) = Some (IpcReply p j))"
    "recv_waiter (endpoints s ! j) = Some i \<longleftrightarrow> i < 3 \<and> blocked_reason (tk s i) = Some (IpcRecv j)"
proof -
  have e: "set (sq (endpoints s ! j)) = blk {} s (wants_send j)" "set (rq (endpoints s ! j)) = blk {} s (wants_reply j)"
      "set_option (recv_waiter (endpoints s ! j)) = blk {} s (wants_recv j)"
    using coreD(9) [OF assms] by (simp_all add: ep_ok_def)
  show "i \<in> set (sq (endpoints s ! j)) \<longleftrightarrow> i < 3 \<and> blocked_reason (tk s i) = Some (IpcSend j)"
    "i \<in> set (rq (endpoints s ! j)) \<longleftrightarrow> i < 3 \<and> (\<exists>p. blocked_reason (tk s i) = Some (IpcReply p j))"
    unfolding e by (simp_all add: blk_def wants_send_def wants_reply_def)
  have "i \<in> set_option (recv_waiter (endpoints s ! j)) \<longleftrightarrow> i < 3 \<and> blocked_reason (tk s i) = Some (IpcRecv j)"
    unfolding e by (simp add: blk_def wants_recv_def)
  then show "recv_waiter (endpoints s ! j) = Some i \<longleftrightarrow> i < 3 \<and> blocked_reason (tk s i) = Some (IpcRecv j)" by simp
qed

section \<open>Receive\<close>

lemma dequeue_blocked_sender_core:
  assumes "core {} s" "j < 2" "dequeue_blocked_sender s j (endpoints s ! j) = (found, e1)"
  shows "found = None \<Longrightarrow> e1 = endpoints s ! j \<and> sq (endpoints s ! j) = []"
    "found = Some i \<Longrightarrow> i \<in> set (sq (endpoints s ! j)) \<and> i < 3 \<and> blocked_reason (tk s i) = Some (IpcSend j)
       \<and> ep_ok {i} s j e1 \<and> is_closed e1 = is_closed (endpoints s ! j)"
proof -
  have e: "ep_ok {} s j (endpoints s ! j)" using coreD(9) [OF assms(1,2)] .
  then have wf: "ep_wf (endpoints s ! j)" and m: "set (sq (endpoints s ! j)) = blk {} s (wants_send j)"
    by (simp_all add: ep_ok_def)
  obtain r e' where d: "dequeue_sender (endpoints s ! j) = (r, e')" by fastforce
  have some: "i < 3 \<and> blocked_reason (tk s i) = Some (IpcSend j) \<and> i \<in> set (sq (endpoints s ! j)) \<and> found = Some i \<and> e1 = e'"
    if "r = Some i" for i
  proof -
    have "i \<in> set (sq (endpoints s ! j))" using dequeue_sender_spec [OF wf] d that by simp
    then have i: "i < 3" "blocked_reason (tk s i) = Some (IpcSend j)" using m by (auto simp: blk_def wants_send_def)
    then show ?thesis
      using \<open>i \<in> _\<close> assms(3) d that blocked_user(1) [OF assms(1) i(1) _ i(2)] coreD(1) [OF assms(1)]
      by (simp add: dequeue_blocked_sender.simps [of s j "endpoints s ! j"])
  qed
  show "e1 = endpoints s ! j \<and> sq (endpoints s ! j) = []" if "found = None"
  proof (cases r)
    case None
    then show ?thesis using dequeue_sender_None [OF wf] d assms(3)
      by (simp add: dequeue_blocked_sender.simps [of s j "endpoints s ! j"])
  qed (use some that in auto)
  show "i \<in> set (sq (endpoints s ! j)) \<and> i < 3 \<and> blocked_reason (tk s i) = Some (IpcSend j)
       \<and> ep_ok {i} s j e1 \<and> is_closed e1 = is_closed (endpoints s ! j)" if f: "found = Some i"
  proof (cases r)
    case None
    then show ?thesis using d assms(3) f by (simp add: dequeue_blocked_sender.simps [of s j "endpoints s ! j"])
  next
    case (Some k)
    then have k: "k = i" "e1 = e'" "blocked_reason (tk s i) = Some (IpcSend j)" "i < 3" "i \<in> set (sq (endpoints s ! j))"
      using some [OF Some] f by auto
    have s: "ep_wf e1" "set (sq e1) = set (sq (endpoints s ! j)) - {i}" "rq e1 = rq (endpoints s ! j)"
        "e1 = (endpoints s ! j)\<lparr>sq_len := sq_len (endpoints s ! j) - 1\<rparr>"
      using dequeue_sender_spec [OF wf d [unfolded Some]] unfolding k(1,2) by blast+
    have "recv_waiter e1 = recv_waiter (endpoints s ! j)" "ep_id e1 = ep_id (endpoints s ! j)"
        "is_closed e1 = is_closed (endpoints s ! j)" "e_rq_len e1 = e_rq_len (endpoints s ! j)" "sq_len e1 \<le> sq_len (endpoints s ! j)"
      by (simp_all add: s(4))
    then have "ep_ok {i} s j e1"
      using e s(1-3) k(3) by (auto simp: ep_ok_def blk_insert blk_not)
    moreover have "is_closed e1 = is_closed (endpoints s ! j)" by (simp add: s(4))
    ultimately show ?thesis using k(3-5) by blast
  qed
qed


definition user_runs :: "usize \<Rightarrow> EndpointId \<Rightarrow> 'm KernelState \<Rightarrow> bool" where
  "user_runs c j s \<longleftrightarrow> kinv s \<and> current_task s = c \<and> c \<noteq> 0 \<and> j < 2 \<and> \<not> is_closed (endpoints s ! j)"

lemma user_runsD:
  assumes "user_runs c j s"
  shows "core {} s" "ainv {} s" "at_most_current s" "current_task s = c" "0 < c" "c < 3" "j < 2"
    "t_state (tk s c) = Running" "t_id (tk s c) = tid_of c" "num_tasks s = 3" "length (tasks s) = 3" "length (endpoints s) = 2"
    "\<not> is_closed (endpoints s ! j)" "blocked_reason (tk s c) = None" "pending_send_msg (tk s c) = None"
    "pending_ok (pending_syscall (tk s c))" "accepts (closed_eps s) c j" "kinv s" "pre_kinv s"
proof -
  have k: "kinv s" and c: "current_task s = c" "c \<noteq> 0" "j < 2" "\<not> is_closed (endpoints s ! j)"
    using assms by (simp_all add: user_runs_def)
  note kd = kinvD [OF k]
  show "core {} s" "ainv {} s" "at_most_current s" "current_task s = c" "j < 2" "\<not> is_closed (endpoints s ! j)"
      "kinv s" "pre_kinv s" using kd k c by simp_all
  show c3: "c < 3" "t_state (tk s c) = Running" using kd(4,5) c by simp_all
  have ok: "task_ok c (tk s c)" using coreD(7) [OF kd(1) c3(1)] by simp
  then show "blocked_reason (tk s c) = None" "pending_ok (pending_syscall (tk s c))" using c3(2) by (auto simp: task_ok_def)
  then show "pending_send_msg (tk s c) = None" using ok by (auto simp: task_ok_def)
  show "0 < c" "t_id (tk s c) = tid_of c" "num_tasks s = 3" "length (tasks s) = 3" "length (endpoints s) = 2"
    using c coreD(1-3) [OF kd(1)] coreD(5) [OF kd(1) c3(1)] by (simp_all add: tid_of_def)
  show "accepts (closed_eps s) c j" using c by (simp add: accepts_def closed_eps_def MAX_ENDPOINTS_def TASK0_INDEX_def)
qed

lemma kinvI:
  assumes "core {} s" "ainv {} s" "at_most_current s" "t_state (tk s (current_task s)) = Running"
  shows "kinv s"
  using assms by (simp add: kinv_def pre_kinv_def)

lemma recv_fastpath_post:
  assumes "user_runs c j s" "b \<Longrightarrow> room s"
  shows "post b (ipc_recv_fastpath j c s) (\<lambda>(d, s').
    if d then kinv s' \<and> ipc_spec (closed_eps s) c (SysIpcRecv j) (view s) (view s')
    else s' = s \<and> sq (endpoints s ! j) = [])"
proof -
  note u = user_runsD [OF assms(1)]
  obtain found e1 where d: "dequeue_blocked_sender s j (endpoints s ! j) = (found, e1)" by fastforce
  note dq = dequeue_blocked_sender_core [OF u(1,7) d]
  show ?thesis
  proof (cases found)
    case None
    then show ?thesis using dq(1) d by (simp add: ipc_recv_fastpath_def)
  next
    case (Some i)
    with dq(2) have i: "i \<in> set (sq (endpoints s ! j))" "i < 3" "blocked_reason (tk s i) = Some (IpcSend j)"
        "ep_ok {i} s j e1" "is_closed e1 = is_closed (endpoints s ! j)" by blast+
    note bu = blocked_user [OF u(1) i(2) _ i(3), simplified]
    obtain msg where m: "pending_send_msg (tk s i) = Some msg" using bu(5) by auto
    have ic: "i \<noteq> c" using bu(1) u(8) by auto
    let ?f = "\<lambda>t. t\<lparr>pending_send_msg := None\<rparr>" and ?r = "IpcReply (tid_of c) j"
    define s1 where "s1 = upd_endpoint j (\<lambda>_. e1) s"
    define s2 where "s2 = upd_task i ?f s1"
    obtain ok e2 where t: "try_enqueue_reply_waiter (endpoints s2 ! j) i = (ok, e2)" by fastforce
    define s3 where "s3 = upd_endpoint j (\<lambda>_. e2) s2"
    define s5 where "s5 = count_delivery j c (upd_task c (\<lambda>t. t\<lparr>last_msg := Some msg\<rparr>) (block_task i ?r s3))"
    have c1: "core {i} s1" using core_detach_ep [OF u(1) bu(2) i(2) _ bu(1) u(7)] i by (simp add: s1_def)
    have c2: "core {i} s2" unfolding s2_def by (rule core_upd_detached [OF c1]) (simp_all add: same_id_def)
    have tk2: "tk s2 k = (if k = i then ?f (tk s i) else tk s k)" for k using u(11) i(2) by (simp add: s2_def s1_def)
    have len: "num_tasks s3 = 3" "length (tasks s3) = 3" "tasks s3 = tasks s2" using u by (simp_all add: s3_def s2_def s1_def)
    have e2': "endpoints s2 ! j = e1" using u by (simp add: s2_def s1_def)
    have k4: "ok" "core {} (block_task i ?r s3)"
      using attach_reply [OF c2 u(7), of c "tid_of c"] t i(5) bu ic u tk2 e2' by (simp_all add: s3_def)
    have inv: "ainv {} (block_task i ?r s3)" "at_most_current (block_task i ?r s3)"
      using block_invs [of i s3 ?r] len i(2) bu(1) tk2 u(2,3) ainv_upd_task [of "{}" s1 i ?f] at_most_current_upd_task [of s1 i ?f]
      by (simp_all add: s3_def s2_def s1_def u(11))
    have tk4: "tk (block_task i ?r s3) k = (if k = i then block_with ?r (?f (tk s i)) else tk s k)" for k
      using tk_block [of i s3 ?r k] len i(2) bu(1) tk2 by simp
    have cur: "current_task s5 = c" using u(4) by (simp add: s5_def s3_def s2_def s1_def)
    have "kinv (block_task i ?r s3)"
      using kinvI [OF k4(2) inv] u(4,8) tk4 ic by (simp add: s3_def s2_def s1_def)
    then have k5: "kinv s5"
      using kinv_upd_local(2) [of c "\<lambda>t. t\<lparr>last_msg := Some msg\<rparr>" "block_task i ?r s3"] u(6,8) tk4 ic coreD(7) [OF u(1,6)]
      by (simp add: s5_def)
    have tk5: "tk s5 k = (if k = i then block_with ?r (?f (tk s i)) else if k = c then (tk s c)\<lparr>last_msg := Some msg\<rparr> else tk s k)" for k
      using ic u(6) len(2) tk4 by (simp add: s5_def)
    have v: "view s5 = (view s)(i := (view s i)\<lparr>ph := WaitReply j (tid_of c)\<rparr>, c := (view s c)\<lparr>inbox := Some msg\<rparr>)"
      using ic i(2) u(6,8) by (auto simp: fun_eq_iff view_def tk5 task_view_def phase_of_def block_with_def)
    have "ipc_spec (closed_eps s) c (SysIpcRecv j) (view s) (view s5)"
      unfolding v using view_phase(1) [OF u(1)] i(2,3) m by (intro recv_take [OF u(17)]) simp
    moreover have "view (push_event ev (s5\<lparr>counters := cs\<rparr>)) = view s5" for ev cs by (rule view_cong) simp
    moreover have "counters s5 = counters s" by (simp add: s5_def s3_def s2_def s1_def)
    moreover have "ipc_recv_fastpath j c s = do { n \<leftarrow> chk_inc (ipc_recv_fast (counters s5));
        Some (True, push_event (IpcDelivered (t_id (tk s2 i)) (t_id (tk s2 c)) j msg) (s5\<lparr>counters := (counters s5)\<lparr>ipc_recv_fast := n\<rparr>\<rparr>)) }"
      using d Some m t [unfolded e2'] k4(1) ic i(2) u(6,7,9,11,12)
      by (simp add: ipc_recv_fastpath_def Let_def s1_def s2_def s3_def s5_def)
    ultimately show ?thesis using assms(2) k5 by (auto simp: post_bind post_chk_inc room_def)
  qed
qed

lemma push_fields [simp]:
  "view (push_event ev s) = view s" "closed_eps (push_event ev s) = closed_eps s" "user_runs c j (push_event ev s) = user_runs c j s"
  "room (push_event ev s) = room s" "ipc_safe E (push_event ev s) = ipc_safe E s" "sched_safe E (push_event ev s) = sched_safe E s"
  "view (s\<lparr>counters := cs\<rparr>) = view s"
  by (simp_all add: view_def closed_eps_def user_runs_def room_def ipc_safe_def switch_safe_def sched_safe_def fun_eq_iff)

text \<open>An answer to the running task.\<close>

lemma answer_current:
  assumes "kinv s"
  shows "kinv (upd_task (current_task s) (\<lambda>t. t\<lparr>last_reply := Some e\<rparr>) s)"
    "view (upd_task (current_task s) (\<lambda>t. t\<lparr>last_reply := Some e\<rparr>) s)
       = (view s)(current_task s := (view s (current_task s))\<lparr>answer := Some e\<rparr>)"
proof -
  note k = kinvD [OF assms]
  show "kinv (upd_task (current_task s) (\<lambda>t. t\<lparr>last_reply := Some e\<rparr>) s)"
    using kinv_upd_local(2) [of "current_task s" "\<lambda>t. t\<lparr>last_reply := Some e\<rparr>" s] assms k(4,5) coreD(7) [OF k(1,4)] by simp
  show "view (upd_task (current_task s) (\<lambda>t. t\<lparr>last_reply := Some e\<rparr>) s)
       = (view s)(current_task s := (view s (current_task s))\<lparr>answer := Some e\<rparr>)"
    using k(4) coreD(2) [OF k(1)] by (auto simp: fun_eq_iff view_def task_view_def)
qed

lemma reject_kernel:
  assumes "kinv s"
  shows "reject_ipc_if_kernel_current j s = (current_task s = 0,
    if current_task s = 0 then upd_task (current_task s) (\<lambda>t. t\<lparr>last_reply := Some IPC_ERR_DEAD_PARTNER\<rparr>) s else s)"
  using kinvD(4,5) [OF assms] coreD(1) [OF kinvD(1) [OF assms]] kernel_task_iff [OF assms, of "current_task s"]
  by (simp add: reject_ipc_if_kernel_current_def Let_def)

lemma reject_closed:
  assumes "kinv s" "j < 2"
  shows "reject_ipc_if_endpoint_closed j s = (is_closed (endpoints s ! j),
    if is_closed (endpoints s ! j) then upd_task (current_task s) (\<lambda>t. t\<lparr>last_reply := Some IPC_ERR_ENDPOINT_CLOSED\<rparr>) s else s)"
  using kinvD(4,5) [OF assms(1)] coreD(1) [OF kinvD(1) [OF assms(1)]] assms(2)
  by (simp add: reject_ipc_if_endpoint_closed_def Let_def MAX_ENDPOINTS_def)

lemma schedule_view:
  assumes "pre_kinv s" "b \<Longrightarrow> sched_safe E s"
  shows "post b (schedule_next_task E s) (\<lambda>s'. kinv s' \<and> view s' = view s)"
  using schedule_post [OF assms] by (rule post_mono) (auto dest: view_kept)

lemma pre_kinvI: "core {} s \<Longrightarrow> ainv {} s \<Longrightarrow> at_most_current s \<Longrightarrow> pre_kinv s"
  by (simp add: pre_kinv_def)

lemma view_block:
  assumes "c < 3" "\<And>k. tk s' k = (if k = c then block_with r t else tk s k)"
    "last_msg t = last_msg (tk s c)" "last_reply t = last_reply (tk s c)"
  shows "view s' = (view s)(c := (view s c)\<lparr>ph := phase_of (block_with r t)\<rparr>)"
  using assms by (auto simp: fun_eq_iff view_def task_view_def block_with_def)

lemma recv_slowpath_post:
  assumes "user_runs c j s" "\<not> ring3_mailbox E" "b \<Longrightarrow> ipc_safe E s" "sq (endpoints s ! j) = []"
  shows "post b (ipc_recv_slowpath E j c s) (\<lambda>s'. kinv s' \<and> ipc_spec (closed_eps s) c (SysIpcRecv j) (view s) (view s'))"
proof -
  note u = user_runsD [OF assms(1)] and q = in_queues [OF user_runsD(1,7) [OF assms(1)]]
  have nosend: "ph (view s i) \<noteq> WaitSend j m" for i m using q(1) [of i] assms(4) view_phase(1) [OF u(1)] by auto
  show ?thesis
  proof (cases "recv_waiter (endpoints s ! j)")
    case (Some i)
    then have i: "ph (view s i) = WaitRecv j" using q(3) view_phase(2) [OF u(1)] by simp
    show ?thesis
      using Some answer_current [OF u(18)] recv_busy [where v = "view s", OF u(17) nosend i] u(4) by (simp add: ipc_recv_slowpath_def)
  next
    case None
    have norecv: "ph (view s i) \<noteq> WaitRecv j" for i using q(3) [of i] None view_phase(2) [OF u(1)] by simp
    let ?b = "\<lambda>n. s\<lparr>counters := (counters s)\<lparr>ipc_recv_slow := n\<rparr>\<rparr>"
    define s2 where "s2 n = upd_endpoint j (\<lambda>e. e\<lparr>recv_waiter := Some c\<rparr>) (block_task c (IpcRecv j) (?b n))" for n
    have "core {c} s" using core_detach_running [OF u(1,5,6)] u(8) by simp
    then have c2: "core {} (s2 n)" for n unfolding s2_def by (intro attach_recv) (use u None in simp_all)
    moreover have "ainv {} (s2 n)" "at_most_current (s2 n)" for n
      using block_invs [of c "?b n" "IpcRecv j"] u unfolding s2_def by simp_all
    ultimately have p2: "pre_kinv (s2 n)" for n using pre_kinvI by blast
    have t2: "tk (s2 n) k = (if k = c then block_with (IpcRecv j) (tk s c) else tk s k)" for n k
      using tk_block [of c "?b n" "IpcRecv j" k] u by (simp add: s2_def)
    have "view (s2 n) = (view s)(c := (view s c)\<lparr>ph := WaitRecv j\<rparr>)" for n
      using view_block [OF u(6) t2] by (simp add: phase_of_def block_with_def)
    then have spec: "ipc_spec (closed_eps s) c (SysIpcRecv j) (view s) (view (s2 n))" for n
      using recv_wait [where v = "view s", OF u(17) nosend norecv] by simp
    have safe: "b \<Longrightarrow> sched_safe E (push_event ev (s2 n))" for n ev
      using sched_safe_cong [of "s2 n" s E] ipc_safe_sched [OF assms(3)] by (simp add: s2_def)
    have "post b (schedule_next_task E (push_event ev (s2 n)))
        (\<lambda>s'. kinv s' \<and> ipc_spec (closed_eps s) c (SysIpcRecv j) (view s) (view s'))" for n ev
      by (rule post_mono [OF schedule_view [of "push_event ev (s2 n)" b E, OF _ safe]]) (use p2 spec in auto)
    moreover have "b \<Longrightarrow> unat (ipc_recv_slow (counters s)) + 1 < 2 ^ 64" using assms(3) by (simp add: ipc_safe_def room_def)
    ultimately show ?thesis
      using None assms(2) unfolding s2_def by (auto simp: ipc_recv_slowpath_def Let_def post_bind post_chk_inc)
  qed
qed

lemma ipc_calls:
  "is_ipc_syscall (SysIpcRecv j)" "sc_ep (SysIpcRecv j) = j" "is_ipc_syscall (SysIpcSend j m)" "sc_ep (SysIpcSend j m) = j"
  "is_ipc_syscall (SysIpcReply j m)" "sc_ep (SysIpcReply j m) = j"
  by simp_all

lemma entry_cases:
  assumes "kinv s" "is_ipc_syscall sc" "sc_ep sc = j"
  obtains (bad) "j \<ge> MAX_ENDPOINTS" "ipc_spec (closed_eps s) (current_task s) sc (view s) (view s)"
  | (kernel) s' where "j < MAX_ENDPOINTS" "reject_ipc_if_kernel_current j s = (True, s')" "kinv s'"
      "ipc_spec (closed_eps s) (current_task s) sc (view s) (view s')"
  | (closed) s' where "j < MAX_ENDPOINTS" "reject_ipc_if_kernel_current j s = (False, s)" "reject_ipc_if_endpoint_closed j s = (True, s')" "kinv s'"
      "ipc_spec (closed_eps s) (current_task s) sc (view s) (view s')"
  | (ok) "j < MAX_ENDPOINTS" "reject_ipc_if_kernel_current j s = (False, s)" "reject_ipc_if_endpoint_closed j s = (False, s)"
      "user_runs (current_task s) j s"
proof -
  note rk = reject_kernel [OF assms(1), of j] and an = answer_current [OF assms(1)]
  consider "j \<ge> MAX_ENDPOINTS" | "j < 2" "current_task s = 0" | "j < 2" "current_task s \<noteq> 0" "is_closed (endpoints s ! j)"
    | "j < 2" "current_task s \<noteq> 0" "\<not> is_closed (endpoints s ! j)" by (cases "j < 2") (auto simp: MAX_ENDPOINTS_def)
  then show thesis
  proof cases
    case 1
    then show thesis using bad bad_endpoint [OF assms(2), of "closed_eps s" "current_task s" "view s"] assms(3) by simp
  next
    case 2
    then show thesis using kernel [OF _ _ an(1)] rk an(2) kernel_caller [OF assms(2)] assms(3)
      by (simp add: MAX_ENDPOINTS_def TASK0_INDEX_def)
  next
    case 3
    then show thesis using closed [OF _ _ _ an(1)] rk reject_closed [OF assms(1) 3(1)] an(2) closed_endpoint [OF assms(2)] assms(3)
      by (simp add: MAX_ENDPOINTS_def TASK0_INDEX_def closed_eps_def)
  next
    case 4
    then show thesis using ok rk reject_closed [OF assms(1) 4(1)] assms(1) by (simp add: MAX_ENDPOINTS_def user_runs_def)
  qed
qed

lemma ipc_recv_post:
  assumes "kinv s" "\<not> ring3_mailbox E" "b \<Longrightarrow> ipc_safe E s"
  shows "post b (ipc_recv E j s) (\<lambda>s'. kinv s' \<and> ipc_spec (closed_eps s) (current_task s) (SysIpcRecv j) (view s) (view s'))"
  using assms(1) ipc_calls(1,2) [of j]
proof (cases rule: entry_cases)
  case ok
  note u = user_runsD [OF ok(4)]
  let ?c = "current_task s" and ?s = "push_event (IpcRecvCalled (t_id (tk s (current_task s))) j) s"
  have f: "post b (ipc_recv_fastpath j ?c ?s) (\<lambda>(d, s').
      if d then kinv s' \<and> ipc_spec (closed_eps s) ?c (SysIpcRecv j) (view s) (view s') else s' = ?s \<and> sq (endpoints s ! j) = [])"
    by (rule post_mono [OF recv_fastpath_post [of ?c j ?s b]]) (use ok(4) assms(3) in \<open>auto simp: ipc_safe_def split: if_splits\<close>)
  have "post b (ipc_recv_slowpath E j ?c ?s) (\<lambda>s'. kinv s' \<and> ipc_spec (closed_eps s) ?c (SysIpcRecv j) (view s) (view s'))"
    if "sq (endpoints s ! j) = []"
    using recv_slowpath_post [of ?c j ?s E b] ok(4) assms(2,3) that by simp
  then show ?thesis
    using ok(1-3) u(6,8,10)
    by (simp add: ipc_recv_def Let_def) (rule post_bindI [OF f], auto split: if_splits)
qed (use assms(1) in \<open>simp_all add: ipc_recv_def\<close>)

end
