(* ===== verification/Inv_Send.thy ===== *)
theory Inv_Send
  imports Inv_Ipc
begin

text \<open>
  Send and reply keep the invariant and follow the protocol of \<open>Ipc_Spec\<close>.
\<close>

section \<open>Send\<close>

lemma upd_endpoint_const: "upd_endpoint j g s = upd_endpoint j (\<lambda>_. g (endpoints s ! j)) s"
  by (simp add: upd_endpoint_def)

lemma upd_task_id [simp]: "upd_task i id s = s" "upd_task i (\<lambda>t. t) s = s"
  by (simp_all add: upd_task_def)

lemma ep_ok_no_receiver:
  assumes "core {} s" "j < 2" "recv_waiter (endpoints s ! j) = Some i"
  shows "ep_ok {i} s j ((endpoints s ! j)\<lparr>recv_waiter := None\<rparr>)"
proof -
  have e: "ep_ok {} s j (endpoints s ! j)" using coreD(9) [OF assms(1,2)] .
  have "blocked_reason (tk s i) = Some (IpcRecv j)" using in_queues(3) [OF assms(1,2), of i] assms(3) by blast
  moreover have "blk {} s (wants_recv j) = {i}" using e assms(3) by (simp add: ep_ok_def)
  moreover have "ep_wf (e\<lparr>recv_waiter := None\<rparr>) = ep_wf e" "sq (e\<lparr>recv_waiter := None\<rparr>) = sq e" "rq (e\<lparr>recv_waiter := None\<rparr>) = rq e" for e
    by (simp_all add: ep_wf_def sq_def rq_def)
  ultimately show ?thesis using e by (simp add: ep_ok_def blk_insert blk_not)
qed

lemma schedule_after_send_eq: "\<not> ring3_mailbox E \<Longrightarrow> schedule_after_send E s = schedule_next_task E s"
  by (simp add: schedule_after_send_def)

lemma send_fastpath_post:
  assumes "user_runs c j s" "\<not> ring3_mailbox E" "b \<Longrightarrow> ipc_safe E s"
  shows "post b (ipc_send_fastpath E j c msg s) (\<lambda>(d, s').
    if d then kinv s' \<and> ipc_spec (closed_eps s) c (SysIpcSend j msg) (view s) (view s')
    else s' = s \<and> recv_waiter (endpoints s ! j) = None)"
proof (cases "recv_waiter (endpoints s ! j)")
  case None
  then show ?thesis using user_runsD(4) [OF assms(1)] by (simp add: ipc_send_fastpath_def)
next
  case (Some i)
  note u = user_runsD [OF assms(1)]
  have i: "i < 3" "blocked_reason (tk s i) = Some (IpcRecv j)" using in_queues(3) [OF u(1,7)] Some by blast+
  note bu = blocked_user [OF u(1) i(1) _ i(2), simplified]
  have ic: "i \<noteq> c" using bu(1) u(8) by auto
  let ?m = "\<lambda>t. t\<lparr>last_msg := Some msg\<rparr>" and ?r = "IpcReply (tid_of i) j"
  define s1 where "s1 = upd_endpoint j (\<lambda>e. e\<lparr>recv_waiter := None\<rparr>) s"
  define w where "w = wake_task_to_ready i s1"
  define s2 where "s2 = upd_task i ?m w"
  obtain ok e2 where t: "try_enqueue_reply_waiter (endpoints s2 ! j) c = (ok, e2)" by fastforce
  define s4 where "s4 = block_task c ?r (upd_endpoint j (\<lambda>_. e2) s2)"
  have fr: "frees (\<lambda>t. t) (tk s i)" using bu(5) by (simp add: frees_def same_id_def)
  have sr: "w = wake_task_to_ready i (upd_task i (\<lambda>t. t) (upd_endpoint j (\<lambda>_. (endpoints s ! j)\<lparr>recv_waiter := None\<rparr>) s))"
    unfolding w_def s1_def by (subst upd_endpoint_const) simp
  have cw: "core {} w" unfolding sr
    by (rule core_release [OF u(1) i(1) _ i(2) _ u(7) ep_ok_no_receiver [OF u(1,7) Some] fr]) simp_all
  have tkw: "tk w k = (if k = i then wake_with (tk s i) else tk s k)" for k
    using tk_release [OF u(1) i(1) bu(1), of "\<lambda>t. t"] by (simp add: sr)
  have "pre_kinv w" unfolding pre_kinv_def using cw u(2,3) release_invs [OF u(1) i(1) bu(1), of "\<lambda>t. t"] by (simp add: sr)
  then have p2: "pre_kinv s2" unfolding s2_def
    by (rule kinv_upd_local(1) [rotated 3]) (use i(1) coreD(7) [OF cw i(1)] in \<open>simp_all add: tkw wake_with_def\<close>)
  have len: "num_tasks s2 = 3" "length (tasks s2) = 3" "length (endpoints s2) = 2" "current_task s2 = c"
    "address_spaces s2 = address_spaces s" "hw s2 = hw s" "counters s2 = counters s"
    using u(4,10-12) by (simp_all add: s2_def w_def s1_def)
  have tk2: "tk s2 k = (if k = i then ?m (wake_with (tk s i)) else tk s k)" for k
    using tkw i(1) len(2) by (simp add: s2_def)
  have e1: "endpoints s2 ! j = (endpoints s ! j)\<lparr>recv_waiter := None\<rparr>" using u(7,12) by (simp add: s2_def w_def s1_def)
  have "core {c} s2" using core_detach_running [OF pre_kinvD(1) [OF p2] u(5,6)] tk2 ic u(8) by simp
  then have c4: "ok" "core {} s4"
    using attach_reply [of c s2 j i "tid_of i"] tk2 ic u bu i(1) e1 t coreD(5) [OF u(1) i(1)]
    by (simp_all add: wake_with_def tid_of_def s4_def)
  have "pre_kinv s4" unfolding pre_kinv_def s4_def
    using c4(2) pre_kinvD(2,3) [OF p2] block_invs [of c "upd_endpoint j (\<lambda>_. e2) s2" ?r] len u(6,8) tk2 ic by (simp add: s4_def)
  then have p4: "pre_kinv (count_delivery j i s4)" by simp
  have tk4: "tk s4 k = (if k = c then block_with ?r (tk s c) else if k = i then ?m (wake_with (tk s i)) else tk s k)" for k
    using tk_block [of c "upd_endpoint j (\<lambda>_. e2) s2" ?r k] len u(6,8) tk2 ic by (simp add: s4_def)
  have v: "view s4 = (view s)(i := (view s i)\<lparr>ph := Free, inbox := Some msg\<rparr>, c := (view s c)\<lparr>ph := WaitReply j (tid_of i)\<rparr>)"
    using ic i(1) u(6) by (auto simp: fun_eq_iff view_def tk4 task_view_def phase_of_def block_with_def wake_with_def)
  have spec: "ipc_spec (closed_eps s) c (SysIpcSend j msg) (view s) (view s4)"
    unfolding v using view_phase(2) [OF u(1)] i by (intro send_give [OF u(17)]) simp
  have vd: "view (count_delivery j i s4) = view s4" by (rule view_cong) simp
  let ?s5 = "\<lambda>n. push_event (IpcDelivered (tid_of c) (tid_of i) j msg)
      ((count_delivery j i s4)\<lparr>counters := (counters (count_delivery j i s4))\<lparr>ipc_send_fast := n\<rparr>\<rparr>)"
  have safe: "b \<Longrightarrow> sched_safe E (?s5 n)" for n
    using ipc_safe_sched [OF assms(3)] sched_safe_cong [of "?s5 n" s E] len by (simp add: s4_def)
  have "post b (schedule_next_task E (?s5 n)) (\<lambda>s'. kinv s' \<and> ipc_spec (closed_eps s) c (SysIpcSend j msg) (view s) (view s'))" for n
    by (rule post_mono [OF schedule_view [of "?s5 n" b E, OF _ safe]]) (use p4 spec vd in auto)
  moreover have "ipc_send_fastpath E j c msg s = do { n \<leftarrow> chk_inc (ipc_send_fast (counters s)); s5 \<leftarrow> schedule_next_task E (?s5 n); Some (True, s5) }"
    using Some u(4,6,7,9,10,11,12) i bu(1) t [unfolded e1] c4(1) coreD(5) [OF u(1) i(1)] ic assms(2)
    by (simp add: ipc_send_fastpath_def Let_def s1_def [symmetric] w_def [symmetric] s2_def [symmetric] schedule_after_send_eq
        tkw tid_of_def e1) (simp add: s4_def s2_def w_def s1_def tid_of_def schedule_after_send_eq)
  moreover have "b \<Longrightarrow> unat (ipc_send_fast (counters s)) + 1 < 2 ^ 64" using assms(3) by (simp add: ipc_safe_def room_def)
  ultimately show ?thesis by (auto simp: post_bind post_chk_inc)
qed


lemma send_slowpath_post:
  assumes "user_runs c j s" "\<not> ring3_mailbox E" "b \<Longrightarrow> ipc_safe E s" "recv_waiter (endpoints s ! j) = None"
  shows "post b (ipc_send_slowpath E j c msg s) (\<lambda>s'. kinv s' \<and> ipc_spec (closed_eps s) c (SysIpcSend j msg) (view s) (view s'))"
proof -
  note u = user_runsD [OF assms(1)]
  have norecv: "ph (view s i) \<noteq> WaitRecv j" for i
    using in_queues(3) [OF u(1,7), of i] assms(4) view_phase(2) [OF u(1)] by simp
  let ?m = "\<lambda>t. t\<lparr>pending_send_msg := Some msg\<rparr>" and ?b = "\<lambda>n. s\<lparr>counters := (counters s)\<lparr>ipc_send_slow := n\<rparr>\<rparr>"
  obtain ok e where t: "try_enqueue_sender (endpoints s ! j) c = (ok, e)" by fastforce
  define s2 where "s2 n = upd_endpoint j (\<lambda>_. e) (upd_task c ?m (?b n))" for n
  define s3 where "s3 n = block_task c (IpcSend j) (s2 n)" for n
  have "core {c} (?b n)" for n using core_detach_running [OF u(1,5,6)] u(8) by simp
  then have "core {c} (upd_task c ?m (?b n))" for n by (rule core_upd_detached) (simp_all add: same_id_def)
  from attach_send [OF this u(7)] have c3: "ok" "core {} (s3 n)" for n
    using u t by (simp_all add: s3_def s2_def)
  have t2: "tk (s2 n) k = (if k = c then ?m (tk s c) else tk s k)" "num_tasks (s2 n) = 3" "length (tasks (s2 n)) = 3" for n k
    using u by (simp_all add: s2_def)
  have "ainv {} (s2 n)" "at_most_current (s2 n)" for n
    unfolding s2_def using u ainv_upd_task [of "{}" "?b n" c ?m] at_most_current_upd_task [of "?b n" c ?m] by simp_all
  then have p3: "pre_kinv (s3 n)" for n
    using c3(2) block_invs [of c "s2 n" "IpcSend j"] t2 u(6,8) by (simp add: pre_kinv_def s3_def)
  have t3: "tk (s3 n) k = (if k = c then block_with (IpcSend j) (?m (tk s c)) else tk s k)" for n k
    using tk_block [of c "s2 n" "IpcSend j" k] t2 u(6,8) by (simp add: s3_def)
  have "view (s3 n) = (view s)(c := (view s c)\<lparr>ph := WaitSend j msg\<rparr>)" for n
    using view_block [OF u(6) t3] by (simp add: phase_of_def block_with_def)
  then have spec: "ipc_spec (closed_eps s) c (SysIpcSend j msg) (view s) (view (s3 n))" for n
    using send_wait [where v = "view s", OF u(17) norecv] by simp
  have safe: "b \<Longrightarrow> sched_safe E (push_event ev (s3 n))" for n ev
    using sched_safe_cong [of "s3 n" s E] ipc_safe_sched [OF assms(3)] by (simp add: s3_def s2_def)
  have "post b (schedule_next_task E (push_event ev (s3 n)))
      (\<lambda>s'. kinv s' \<and> ipc_spec (closed_eps s) c (SysIpcSend j msg) (view s) (view s'))" for n ev
    by (rule post_mono [OF schedule_view [of "push_event ev (s3 n)" b E, OF _ safe]]) (use p3 spec in auto)
  moreover have "b \<Longrightarrow> unat (ipc_send_slow (counters s)) + 1 < 2 ^ 64" using assms(3) by (simp add: ipc_safe_def room_def)
  ultimately show ?thesis
    using assms(2) t c3(1) u(4) unfolding s3_def s2_def
    by (auto simp: ipc_send_slowpath_def Let_def post_bind post_chk_inc schedule_after_send_eq upd_commute)
qed

lemma ipc_send_post:
  assumes "kinv s" "\<not> ring3_mailbox E" "b \<Longrightarrow> ipc_safe E s"
  shows "post b (ipc_send E j msg s) (\<lambda>s'. kinv s' \<and> ipc_spec (closed_eps s) (current_task s) (SysIpcSend j msg) (view s) (view s'))"
  using assms(1) ipc_calls(3,4) [of j msg]
proof (cases rule: entry_cases)
  case ok
  note u = user_runsD [OF ok(4)]
  let ?c = "current_task s" and ?s = "push_event (IpcSendCalled (t_id (tk s (current_task s))) j msg) s"
  have f: "post b (ipc_send_fastpath E j ?c msg ?s) (\<lambda>(d, s').
      if d then kinv s' \<and> ipc_spec (closed_eps s) ?c (SysIpcSend j msg) (view s) (view s')
      else s' = ?s \<and> recv_waiter (endpoints s ! j) = None)"
    by (rule post_mono [OF send_fastpath_post [of ?c j ?s E b msg]]) (use ok(4) assms(2,3) in \<open>auto split: if_splits\<close>)
  have "post b (ipc_send_slowpath E j ?c msg ?s) (\<lambda>s'. kinv s' \<and> ipc_spec (closed_eps s) ?c (SysIpcSend j msg) (view s) (view s'))"
    if "recv_waiter (endpoints s ! j) = None"
    using send_slowpath_post [of ?c j ?s E b msg] ok(4) assms(2,3) that by simp
  then show ?thesis
    using ok(1-3) u(6,8,10)
    by (simp add: ipc_send_def Let_def) (rule post_bindI [OF f], auto split: if_splits)
qed (use assms(1) in \<open>simp_all add: ipc_send_def\<close>)

section \<open>Reply\<close>

text \<open>While a user task runs, the other user task is the only one that can wait for a reply, and it
  waits for the running one.\<close>

lemma reply_queue_running:
  assumes "user_runs c j s"
  shows "rq (endpoints s ! j) = [] \<or> (\<exists>i. rq (endpoints s ! j) = [i] \<and> i < 3 \<and> i \<noteq> c \<and> blocked_reason (tk s i) = Some (IpcReply (tid_of c) j))"
proof -
  note u = user_runsD [OF assms]
  have wf: "ep_wf (endpoints s ! j)" using coreD(9) [OF u(1,7)] by (simp add: ep_ok_def)
  have w: "i < 3 \<and> i \<noteq> c \<and> 0 < i \<and> blocked_reason (tk s i) = Some (IpcReply (tid_of c) j)" if m: "i \<in> set (rq (endpoints s ! j))" for i
  proof -
    obtain p where i: "i < 3" "blocked_reason (tk s i) = Some (IpcReply p j)" using in_queues(2) [OF u(1,7)] m by blast
    have ic: "i \<noteq> c" "0 < i" using i(2) u(14) blocked_user(2) [OF u(1) i(1) _ i(2)] by auto
    obtain k where "0 < k" "k < 3" "k \<noteq> i" "p = of_nat (Suc k)" using coreD(11) [OF u(1) i(1) _ i(2)] by (auto simp: partner_ok_def)
    moreover have "k = c" using \<open>0 < k\<close> \<open>k < 3\<close> \<open>k \<noteq> i\<close> i(1) ic u(5,6) by linarith
    ultimately show ?thesis using i ic by (simp add: tid_of_def)
  qed
  have "set (rq (endpoints s ! j)) \<subseteq> {3 - c}"
  proof
    fix i assume "i \<in> set (rq (endpoints s ! j))"
    from w [OF this] show "i \<in> {3 - c}" using u(5,6) by auto
  qed
  moreover have "distinct (rq (endpoints s ! j))" using wf by (simp add: ep_wf_def)
  ultimately show ?thesis
    using w by (cases "rq (endpoints s ! j)"; cases "tl (rq (endpoints s ! j))") (auto dest: w)
qed

lemma rq_single:
  assumes "ep_wf e" "rq e = [i]"
  shows "e_rq_len e = Suc 0" "reply_queue e ! 0 = i"
proof -
  show l: "e_rq_len e = Suc 0" using length_rq [OF assms(1)] assms(2) by simp
  have "rq e ! 0 = reply_queue e ! 0" using l by (simp add: rq_def)
  then show "reply_queue e ! 0 = i" using assms(2) by simp
qed

lemma ep_ok_no_reply_waiter:
  assumes "core D s" "j < 2" "i \<notin> D" "blocked_reason (tk s i) = Some (IpcReply p j)"
    "pos < e_rq_len (endpoints s ! j)" "rq (endpoints s ! j) ! pos = i" "remove_reply_waiter_at (endpoints s ! j) pos = (r, e')"
  shows "ep_ok (insert i D) s j e'" "r = Some i" "rq e' = remove1 i (rq e')"
proof -
  have e: "ep_ok D s j (endpoints s ! j)" using coreD(9) [OF assms(1,2)] .
  then have wf: "ep_wf (endpoints s ! j)" by (simp add: ep_ok_def)
  note sp = remove_reply_waiter_at_spec [OF wf assms(5,7), unfolded assms(6)]
  have f: "ep_id e' = ep_id (endpoints s ! j)" "recv_waiter e' = recv_waiter (endpoints s ! j)"
      "is_closed e' = is_closed (endpoints s ! j)" "sq_len e' = sq_len (endpoints s ! j)"
    using assms(5,7) by (auto simp: remove_reply_waiter_at_def)
  show "ep_ok (insert i D) s j e'" using e sp f assms(4) by (auto simp: ep_ok_def blk_insert blk_not)
  show "r = Some i" using sp by blast
  show "rq e' = remove1 i (rq e')" using sp by (simp add: remove1_idem)
qed

lemma take_reply_waiter:
  assumes "user_runs c j s"
  shows "rq (endpoints s ! j) = [] \<Longrightarrow> take_reply_waiter_for_partner j (tid_of c) s = (None, s)"
    "rq (endpoints s ! j) = [i] \<Longrightarrow> \<exists>e'. take_reply_waiter_for_partner j (tid_of c) s = (Some i, upd_endpoint j (\<lambda>_. e') s) \<and> ep_ok {i} s j e'"
proof -
  note u = user_runsD [OF assms]
  have wf: "ep_wf (endpoints s ! j)" using coreD(9) [OF u(1,7)] by (simp add: ep_ok_def)
  show "take_reply_waiter_for_partner j (tid_of c) s = (None, s)" if "rq (endpoints s ! j) = []"
    using length_rq [OF wf] that u(7) by (simp add: take_reply_waiter_for_partner_def MAX_ENDPOINTS_def)
  assume q: "rq (endpoints s ! j) = [i]"
  then have i: "i < 3" "blocked_reason (tk s i) = Some (IpcReply (tid_of c) j)" using reply_queue_running [OF assms] by auto
  obtain r e' where r: "remove_reply_waiter_at (endpoints s ! j) 0 = (r, e')" by fastforce
  note l = rq_single [OF wf q]
  have "ep_ok {i} s j e'" "r = Some i" using ep_ok_no_reply_waiter [OF u(1,7) _ i(2) _ _ r] l q by simp_all
  moreover have "t_state (tk s i) \<noteq> Dead" using blocked_user(1) [OF u(1) i(1) _ i(2)] by simp
  ultimately show "\<exists>e'. take_reply_waiter_for_partner j (tid_of c) s = (Some i, upd_endpoint j (\<lambda>_. e') s) \<and> ep_ok {i} s j e'"
    using l i r u(7,10) by (intro exI [of _ e']) (simp add: take_reply_waiter_for_partner_def MAX_ENDPOINTS_def)
qed

lemma reply_deliver_post:
  assumes "user_runs c j s" "b \<Longrightarrow> room s" "i < 3" "i \<noteq> c" "blocked_reason (tk s i) = Some (IpcReply (tid_of c) j)" "ep_ok {i} s j e'"
  shows "post b (ipc_reply_deliver j c i msg (upd_endpoint j (\<lambda>_. e') s))
    (\<lambda>s'. kinv s' \<and> ipc_spec (closed_eps s) c (SysIpcReply j msg) (view s) (view s'))"
proof -
  note u = user_runsD [OF assms(1)]
  note bu = blocked_user [OF u(1) assms(3) _ assms(5), simplified]
  let ?f = "\<lambda>t. t\<lparr>last_reply := Some msg\<rparr>"
  define ev where "ev = IpcReplyCalled (t_id (tk s c)) j (t_id (tk s i))"
  define s0 where "s0 = push_event ev s"
  define w where "w = wake_task_to_ready i (upd_task i ?f (upd_endpoint j (\<lambda>_. e') s0))"
  have c0: "core {} s0" "ainv {} s0" "at_most_current s0" "tasks s0 = tasks s" using u by (simp_all add: s0_def)
  have fr: "frees ?f (tk s0 i)" using bu(5) c0(4) by (simp add: frees_def same_id_def)
  have e0: "ep_ok {i} s0 j e'" using assms(6) by (simp add: s0_def ep_ok_def blk_def)
  have cw: "core {} w" unfolding w_def
    by (rule core_release [where r = "IpcReply (tid_of c) j", OF c0(1) assms(3) _ _ _ u(7) e0 fr]) (use assms(5) c0(4) in simp_all)
  have tkw: "tk w k = (if k = i then wake_with (?f (tk s i)) else tk s k)" for k
    using tk_release [OF c0(1) assms(3), of ?f j "\<lambda>_. e'" k] bu(1) c0(4) by (simp add: w_def)
  have "ainv {} w" "at_most_current w" unfolding w_def
    using release_invs [OF c0(1) assms(3), of ?f] bu(1) c0 by simp_all
  then have kw: "kinv w" using kinvI [OF cw] tkw assms(4) u(4,8) by (simp add: w_def s0_def)
  have v: "view w = (view s)(i := (view s i)\<lparr>ph := Free, answer := Some msg\<rparr>)"
    using assms(3) by (auto simp: fun_eq_iff view_def tkw task_view_def phase_of_def wake_with_def)
  have spec: "ipc_spec (closed_eps s) c (SysIpcReply j msg) (view s) (view w)"
    unfolding v using view_phase(3) [OF u(1)] assms(3,5) by (intro reply_deliver [OF u(17)]) simp
  have pe: "push_event ev (upd_endpoint j (\<lambda>_. e') s) = upd_endpoint j (\<lambda>_. e') s0"
    by (simp add: s0_def push_event_def upd_endpoint_def Let_def)
  define s3 where "s3 = (if j = IPC_DEMO_EP0 \<and> c = TASK2_INDEX \<and> demo_replies_sent w < 2 then w\<lparr>demo_replies_sent := demo_replies_sent w + 1\<rparr> else w)"
  have "view (w\<lparr>demo_replies_sent := x\<rparr>) = view w" for x by (rule view_cong) simp
  then have k3: "kinv s3" "view s3 = view w" "counters s3 = counters s" using kw by (simp_all add: s3_def, simp_all add: w_def s0_def)
  moreover have "ipc_reply_deliver j c i msg (upd_endpoint j (\<lambda>_. e') s) = do {
      n \<leftarrow> chk_inc (ipc_reply_delivered (counters s3));
      Some (push_event (IpcReplyDelivered (t_id (tk s c)) (t_id (tk s i)) j) (s3\<lparr>counters := (counters s3)\<lparr>ipc_reply_delivered := n\<rparr>\<rparr>)) }"
    unfolding ipc_reply_deliver_def Let_def upd_endpoint_fields(1) ev_def [symmetric] pe w_def [symmetric] s3_def [symmetric] ..
  moreover have "b \<Longrightarrow> unat (ipc_reply_delivered (counters s)) + 1 < 2 ^ 64" using assms(2) by (simp add: room_def)
  ultimately show ?thesis using spec by (auto simp: post_bind post_chk_inc)
qed

lemma ipc_reply_post:
  assumes "kinv s" "b \<Longrightarrow> room s"
  shows "post b (ipc_reply j msg s) (\<lambda>s'. kinv s' \<and> ipc_spec (closed_eps s) (current_task s) (SysIpcReply j msg) (view s) (view s'))"
  using assms(1) ipc_calls(5,6) [of j msg]
proof (cases rule: entry_cases)
  case ok
  note u = user_runsD [OF ok(4)] and tw = take_reply_waiter [OF ok(4)]
  have eq: "ipc_reply j msg s = (case take_reply_waiter_for_partner j (tid_of (current_task s)) s of
        (None, s3) \<Rightarrow> Some s3
      | (Some i, s3) \<Rightarrow> (if i \<ge> num_tasks s3 then Some s3
             else if t_state (tasks s3 ! i) = Dead then Some s3
             else if blocked_reason (tasks s3 ! i) \<noteq> Some (IpcReply (tid_of (current_task s)) j) then
               Some (rescue_task_with_error i IPC_ERR_DEAD_PARTNER s3)
             else ipc_reply_deliver j (current_task s) i msg s3))"
    using ok(1-3) u(6,8,9,10) by (simp add: ipc_reply_def Let_def)
  from reply_queue_running [OF ok(4)] show ?thesis
  proof (elim disjE exE conjE)
    assume e: "rq (endpoints s ! j) = []"
    have "ph (view s i) \<noteq> WaitReply j p" for i p
      using in_queues(2) [OF u(1,7), of i] e view_phase(3) [OF u(1)] by auto
    then show ?thesis using tw(1) [OF e] assms(1) reply_nobody [OF u(17)] by (simp add: eq)
  next
    fix i assume i: "rq (endpoints s ! j) = [i]" "i < 3" "i \<noteq> current_task s"
      "blocked_reason (tk s i) = Some (IpcReply (tid_of (current_task s)) j)"
    obtain e' where e: "take_reply_waiter_for_partner j (tid_of (current_task s)) s = (Some i, upd_endpoint j (\<lambda>_. e') s)" "ep_ok {i} s j e'"
      using tw(2) [OF i(1)] by blast
    show ?thesis
      using reply_deliver_post [OF ok(4) assms(2) i(2-4) e(2)] e(1) i(2,4) u(10) blocked_user(1) [OF u(1) i(2) _ i(4)] by (simp add: eq)
  qed
qed (use assms(1) in \<open>simp_all add: ipc_reply_def\<close>)

end
