(* ===== verification/Inv_Close.thy ===== *)
theory Inv_Close
  imports Inv_Send
begin

text \<open>
  Closing an endpoint keeps the invariant and wakes exactly the tasks that wait on it, each with the
  error for a closed endpoint.
\<close>

section \<open>Rescued tasks\<close>

definition rescued :: "u64 \<Rightarrow> Task \<Rightarrow> Task" where
  "rescued e t = t\<lparr>t_state := Ready, blocked_reason := None, time_slice_used := 0, pending_send_msg := None, last_reply := Some e\<rparr>"

text \<open>From \<open>s\<close> to \<open>s'\<close> the tasks in \<open>X\<close> were rescued and the others left alone.\<close>

definition freed :: "usize set \<Rightarrow> u64 \<Rightarrow> usize set \<Rightarrow> 'm KernelState \<Rightarrow> 'm KernelState \<Rightarrow> bool" where
  "freed D e X s s' \<longleftrightarrow> core D s' \<and> (\<forall>k. tk s' k = (if k \<in> X then rescued e (tk s k) else tk s k))
     \<and> (\<forall>D'. ainv D' s \<longrightarrow> ainv D' s') \<and> (at_most_current s \<longrightarrow> at_most_current s') \<and> current_task s' = current_task s
     \<and> address_spaces s' = address_spaces s \<and> hw s' = hw s \<and> counters s' = counters s"

lemma freedD:
  assumes "freed D e X s s'"
  shows "core D s'" "tk s' k = (if k \<in> X then rescued e (tk s k) else tk s k)" "ainv D' s \<Longrightarrow> ainv D' s'"
    "at_most_current s \<Longrightarrow> at_most_current s'" "current_task s' = current_task s" "address_spaces s' = address_spaces s"
    "hw s' = hw s" "counters s' = counters s"
  using assms by (simp_all add: freed_def)

lemma freed_refl: "core D s \<Longrightarrow> freed D e {} s s"
  by (simp add: freed_def)

lemma freed_trans:
  assumes "freed D e X s s1" "freed D e Y s1 s2" "X \<inter> Y = {}"
  shows "freed D e (X \<union> Y) s s2"
  using assms by (auto simp: freed_def)

definition rescuer :: "(Task \<Rightarrow> Task) \<Rightarrow> u64 \<Rightarrow> Task \<Rightarrow> bool" where
  "rescuer f e t \<longleftrightarrow> frees f t \<and> wake_with (f t) = rescued e t"

lemma release_freed:
  assumes "core D s" "i < 3" "i \<notin> D" "blocked_reason (tk s i) = Some r" "about_ep j (Some r)" "j < 2"
    "ep_ok (insert i D) s j e'" "rescuer f e (tk s i)"
  shows "freed D e {i} s (wake_task_to_ready i (upd_task i f (upd_endpoint j (\<lambda>_. e') s)))"
proof -
  have f: "frees f (tk s i)" "wake_with (f (tk s i)) = rescued e (tk s i)" using assms(8) by (simp_all add: rescuer_def)
  note b = blocked_user(1) [OF assms(1-4)]
  have st: "t_state (f (tk s i)) = t_state (tk s i)" using f(1) by (simp add: frees_def)
  show ?thesis
    unfolding freed_def
    using core_release [OF assms(1-7) f(1)] tk_release [where f = f, OF assms(1,2) b st] release_invs [where f = f, OF assms(1,2) b st] f(2) by auto
qed

lemma rescuer_simps:
  assumes "t_state t = Blocked"
  shows "rescuer (\<lambda>t. t\<lparr>pending_send_msg := None, blocked_reason := None, last_reply := Some e\<rparr>) e t"
    "pending_send_msg t = None \<Longrightarrow> rescuer (\<lambda>t. t\<lparr>blocked_reason := None, last_reply := Some e\<rparr>) e t"
proof -
  have "t\<lparr>pending_send_msg := None\<rparr> = t" if "pending_send_msg t = None" using that by (cases t) simp
  then show "pending_send_msg t = None \<Longrightarrow> rescuer (\<lambda>t. t\<lparr>blocked_reason := None, last_reply := Some e\<rparr>) e t"
    using assms by (cases t) (simp add: rescuer_def frees_def same_id_def wake_with_def rescued_def)
  show "rescuer (\<lambda>t. t\<lparr>pending_send_msg := None, blocked_reason := None, last_reply := Some e\<rparr>) e t"
    using assms by (cases t) (simp add: rescuer_def frees_def same_id_def wake_with_def rescued_def)
qed

lemma close_rescue_freed:
  assumes "core D s" "i < 3" "i \<notin> D" "blocked_reason (tk s i) = Some r" "about_ep j (Some r)" "j < 2"
    "ep_ok (insert i D) s j e'" "f = id \<and> pending_send_msg (tk s i) = None \<or> f = (\<lambda>t. t\<lparr>pending_send_msg := None\<rparr>)"
  shows "freed D IPC_ERR_ENDPOINT_CLOSED {i} s (close_rescue i f (upd_endpoint j (\<lambda>_. e') s))"
    "endpoints (close_rescue i f (upd_endpoint j (\<lambda>_. e') s)) = endpoints (upd_endpoint j (\<lambda>_. e') s)"
proof -
  note b = blocked_user(1) [OF assms(1-4)]
  have "rescuer (\<lambda>t. (f t)\<lparr>blocked_reason := None, last_reply := Some IPC_ERR_ENDPOINT_CLOSED\<rparr>) IPC_ERR_ENDPOINT_CLOSED (tk s i)"
    using assms(8) rescuer_simps [OF b] by auto
  from release_freed [OF assms(1-7) this]
  show "freed D IPC_ERR_ENDPOINT_CLOSED {i} s (close_rescue i f (upd_endpoint j (\<lambda>_. e') s))"
    using b assms(2) coreD(1) [OF assms(1)] by (simp add: close_rescue_def)
  show "endpoints (close_rescue i f (upd_endpoint j (\<lambda>_. e') s)) = endpoints (upd_endpoint j (\<lambda>_. e') s)"
    by (simp add: close_rescue_def)
qed

section \<open>The drains\<close>

lemma take_len_Suc: "n < length q \<Longrightarrow> take (Suc n) q = take n q @ [q ! n]"
  by (simp add: take_Suc_conv_app_nth)

lemma ep_ok_sq_pop:
  assumes "core D s" "j < 2" "sq_len (endpoints s ! j) = Suc n"
  defines "e \<equiv> endpoints s ! j"
  defines "e' \<equiv> e\<lparr>sq_len := n\<rparr>" and "i \<equiv> send_queue e ! n"
  shows "i < 3" "i \<notin> D" "blocked_reason (tk s i) = Some (IpcSend j)" "ep_ok (insert i D) s j e'"
    "set (sq e) = insert i (set (sq e'))" "i \<notin> set (sq e')"
proof -
  have ok: "ep_ok D s j e" using coreD(9) [OF assms(1,2)] by (simp add: e_def)
  then have wf: "ep_wf e" and m: "set (sq e) = blk D s (wants_send j)" by (simp_all add: ep_ok_def)
  have "n < length (send_queue e)" using wf assms(3) by (simp add: ep_wf_def e_def MAX_TASKS_def)
  then have q: "sq e = sq e' @ [i]" using assms(3) by (simp add: sq_def e_def e'_def i_def take_len_Suc)
  show s: "set (sq e) = insert i (set (sq e'))" using q by simp
  show n: "i \<notin> set (sq e')" using wf q by (simp add: ep_wf_def)
  have "i \<in> blk D s (wants_send j)" using m s by blast
  then show b: "i < 3" "i \<notin> D" "blocked_reason (tk s i) = Some (IpcSend j)" by (auto simp: blk_def wants_send_def)
  have "rq e' = rq e" "ep_wf e'" using wf q assms(3) by (simp_all add: e'_def rq_def ep_wf_def e_def MAX_TASKS_def)
  moreover have "set (sq e') = blk D s (wants_send j) - {i}" using m s n by auto
  moreover have "recv_waiter e' = recv_waiter e" "ep_id e' = ep_id e" "is_closed e' = is_closed e" "e_rq_len e' = e_rq_len e"
    by (simp_all add: e'_def)
  moreover have "\<not> is_closed e" using ok assms(3) by (auto simp: ep_ok_def e_def)
  ultimately show "ep_ok (insert i D) s j e'" using ok b(3) by (simp add: ep_ok_def blk_insert blk_not)
qed

lemma ep_ok_rq_pop:
  assumes "core D s" "j < 2" "e_rq_len (endpoints s ! j) = Suc n"
  defines "e \<equiv> endpoints s ! j"
  defines "e' \<equiv> e\<lparr>e_rq_len := n\<rparr>" and "i \<equiv> reply_queue e ! n"
  shows "i < 3" "i \<notin> D" "\<exists>p. blocked_reason (tk s i) = Some (IpcReply p j)" "ep_ok (insert i D) s j e'"
    "set (rq e) = insert i (set (rq e'))" "i \<notin> set (rq e')"
proof -
  have ok: "ep_ok D s j e" using coreD(9) [OF assms(1,2)] by (simp add: e_def)
  then have wf: "ep_wf e" and m: "set (rq e) = blk D s (wants_reply j)" by (simp_all add: ep_ok_def)
  have "n < length (reply_queue e)" using wf assms(3) by (simp add: ep_wf_def e_def MAX_TASKS_def)
  then have q: "rq e = rq e' @ [i]" using assms(3) by (simp add: rq_def e_def e'_def i_def take_len_Suc)
  show s: "set (rq e) = insert i (set (rq e'))" using q by simp
  show n: "i \<notin> set (rq e')" using wf q by (simp add: ep_wf_def)
  have "i \<in> blk D s (wants_reply j)" using m s by blast
  then show b: "i < 3" "i \<notin> D" "\<exists>p. blocked_reason (tk s i) = Some (IpcReply p j)" by (auto simp: blk_def wants_reply_def)
  have "sq e' = sq e" "ep_wf e'" using wf q assms(3) by (simp_all add: e'_def sq_def ep_wf_def e_def MAX_TASKS_def)
  moreover have "set (rq e') = blk D s (wants_reply j) - {i}" using m s n by auto
  moreover have "recv_waiter e' = recv_waiter e" "ep_id e' = ep_id e" "is_closed e' = is_closed e" "sq_len e' = sq_len e"
    by (simp_all add: e'_def)
  moreover have "\<not> is_closed e" using ok assms(3) by (auto simp: ep_ok_def e_def)
  ultimately show "ep_ok (insert i D) s j e'" using ok b(3) by (auto simp: ep_ok_def blk_insert blk_not)
qed

lemma drain_send_freed:
  assumes "core D s" "j < 2" "sq_len (endpoints s ! j) = n"
  shows "freed D IPC_ERR_ENDPOINT_CLOSED (set (sq (endpoints s ! j))) s (drain_send_queue n j s)
    \<and> endpoints (drain_send_queue n j s) = endpoints (upd_endpoint j (\<lambda>e. e\<lparr>sq_len := 0\<rparr>) s)"
  using assms
proof (induction n arbitrary: s)
  case 0
  then have "sq (endpoints s ! j) = []" "(endpoints s ! j)\<lparr>sq_len := 0\<rparr> = endpoints s ! j" by (simp_all add: sq_def)
  then show ?case using freed_refl [OF 0(1)] by (simp add: upd_endpoint_def)
next
  case (Suc n)
  define i where "i = send_queue (endpoints s ! j) ! n"
  define e' where "e' = (endpoints s ! j)\<lparr>sq_len := n\<rparr>"
  note p = ep_ok_sq_pop [OF Suc.prems, folded i_def e'_def]
  define s1 where "s1 = close_rescue i (\<lambda>t. t\<lparr>pending_send_msg := None\<rparr>) (upd_endpoint j (\<lambda>_. e') s)"
  have f: "freed D IPC_ERR_ENDPOINT_CLOSED {i} s s1" "endpoints s1 = endpoints (upd_endpoint j (\<lambda>_. e') s)"
    unfolding s1_def using close_rescue_freed [OF Suc.prems(1) p(1-3) _ Suc.prems(2) p(4)] by simp_all
  have e1: "endpoints s1 ! j = e'" using f(2) coreD(3) [OF Suc.prems(1)] Suc.prems(2) by simp
  have "sq_len (endpoints s1 ! j) = n" by (simp add: e1 e'_def)
  note IH = Suc.IH [OF freedD(1) [OF f(1)] Suc.prems(2) this, unfolded e1]
  have "freed D IPC_ERR_ENDPOINT_CLOSED (set (sq (endpoints s ! j))) s (drain_send_queue n j s1)"
    using freed_trans [OF f(1) conjunct1 [OF IH]] p(5,6) by simp
  moreover have "drain_send_queue (Suc n) j s = drain_send_queue n j s1"
    by (simp add: Let_def s1_def i_def e'_def) (subst upd_endpoint_const, simp)
  moreover have "endpoints (drain_send_queue n j s1) = endpoints (upd_endpoint j (\<lambda>e. e\<lparr>sq_len := 0\<rparr>) s)"
    using IH f(2) coreD(3) [OF Suc.prems(1)] Suc.prems(2) by (simp add: upd_endpoint_def e1 e'_def)
  ultimately show ?case by simp
qed

lemma drain_reply_freed:
  assumes "core D s" "j < 2" "e_rq_len (endpoints s ! j) = n"
  shows "freed D IPC_ERR_ENDPOINT_CLOSED (set (rq (endpoints s ! j))) s (drain_reply_queue n j s)
    \<and> endpoints (drain_reply_queue n j s) = endpoints (upd_endpoint j (\<lambda>e. e\<lparr>e_rq_len := 0\<rparr>) s)"
  using assms
proof (induction n arbitrary: s)
  case 0
  then have "rq (endpoints s ! j) = []" "(endpoints s ! j)\<lparr>e_rq_len := 0\<rparr> = endpoints s ! j" by (simp_all add: rq_def)
  then show ?case using freed_refl [OF 0(1)] by (simp add: upd_endpoint_def)
next
  case (Suc n)
  define i where "i = reply_queue (endpoints s ! j) ! n"
  define e' where "e' = (endpoints s ! j)\<lparr>e_rq_len := n\<rparr>"
  note p = ep_ok_rq_pop [OF Suc.prems, folded i_def e'_def]
  obtain q where q: "blocked_reason (tk s i) = Some (IpcReply q j)" using p(3) by blast
  define s1 where "s1 = close_rescue i id (upd_endpoint j (\<lambda>_. e') s)"
  have f: "freed D IPC_ERR_ENDPOINT_CLOSED {i} s s1" "endpoints s1 = endpoints (upd_endpoint j (\<lambda>_. e') s)"
    unfolding s1_def using close_rescue_freed [OF Suc.prems(1) p(1,2) q _ Suc.prems(2) p(4)] blocked_user(5) [OF Suc.prems(1) p(1,2) q]
    by simp_all
  have e1: "endpoints s1 ! j = e'" using f(2) coreD(3) [OF Suc.prems(1)] Suc.prems(2) by simp
  have "e_rq_len (endpoints s1 ! j) = n" by (simp add: e1 e'_def)
  note IH = Suc.IH [OF freedD(1) [OF f(1)] Suc.prems(2) this, unfolded e1]
  have "freed D IPC_ERR_ENDPOINT_CLOSED (set (rq (endpoints s ! j))) s (drain_reply_queue n j s1)"
    using freed_trans [OF f(1) conjunct1 [OF IH]] p(5,6) by simp
  moreover have "drain_reply_queue (Suc n) j s = drain_reply_queue n j s1"
    by (simp add: Let_def s1_def i_def e'_def) (subst upd_endpoint_const, simp)
  moreover have "endpoints (drain_reply_queue n j s1) = endpoints (upd_endpoint j (\<lambda>e. e\<lparr>e_rq_len := 0\<rparr>) s)"
    using IH f(2) coreD(3) [OF Suc.prems(1)] Suc.prems(2) by (simp add: upd_endpoint_def e1 e'_def)
  ultimately show ?case by simp
qed


section \<open>Closing\<close>

lemma push_commute:
  "push_event ev (upd_endpoint j g s) = upd_endpoint j g (push_event ev s)"
  "(upd_endpoint j g s)\<lparr>ready_queue := q, rq_len := n\<rparr> = upd_endpoint j g (s\<lparr>ready_queue := q, rq_len := n\<rparr>)"
  by (simp_all add: upd_endpoint_def push_event_def Let_def)

lemma wake_commute: "wake_task_to_ready i (upd_endpoint j g s) = upd_endpoint j g (wake_task_to_ready i s)"
proof -
  let ?t = "upd_task i (\<lambda>t. t\<lparr>t_state := Ready, blocked_reason := None, time_slice_used := 0\<rparr>)"
  have "ready_queue_contains (upd_endpoint j g (?t s)) i = ready_queue_contains (?t s) i" by (simp add: ready_queue_contains_def)
  then show ?thesis
    by (cases "t_state (tk s i)"; cases "ready_queue_contains (?t s) i"; cases "rq_len s < MAX_TASKS")
       (simp_all add: wake_task_to_ready_def Let_def upd_commute [symmetric] push_commute)
qed

lemma flag_commute: "close_rescue i f (upd_endpoint j g s) = upd_endpoint j g (close_rescue i f s)"
  by (simp add: close_rescue_def upd_commute [symmetric] wake_commute)

lemma upd_endpoint_upd [simp]:
  "j < length (endpoints s) \<Longrightarrow> upd_endpoint j g (upd_endpoint j h s) = upd_endpoint j (\<lambda>e. g (h e)) s"
  by (simp add: upd_endpoint_def)

lemma close_rescue_endpoints [simp]: "endpoints (close_rescue i f s) = endpoints s"
  by (simp add: close_rescue_def)

abbreviation (input) shut :: "Endpoint \<Rightarrow> Endpoint" where
  "shut e \<equiv> e\<lparr>is_closed := True\<rparr>"

lemma shut_last:
  "e\<lparr>is_closed := True, sq_len := n\<rparr> = shut (e\<lparr>sq_len := n\<rparr>)" "e\<lparr>is_closed := True, e_rq_len := n\<rparr> = shut (e\<lparr>e_rq_len := n\<rparr>)"
  "e\<lparr>is_closed := True, recv_waiter := r\<rparr> = shut (e\<lparr>recv_waiter := r\<rparr>)"
  by simp_all

lemma drain_send_flag:
  "j < length (endpoints s) \<Longrightarrow> drain_send_queue n j (upd_endpoint j shut s) = upd_endpoint j shut (drain_send_queue n j s)"
proof (induction n arbitrary: s)
  case (Suc n)
  define s1 where "s1 = upd_endpoint j (\<lambda>e. e\<lparr>sq_len := n\<rparr>) s"
  have "upd_endpoint j (\<lambda>e. e\<lparr>sq_len := n\<rparr>) (upd_endpoint j shut s) = upd_endpoint j shut s1"
    using Suc.prems by (simp add: s1_def shut_last)
  then show ?case using Suc.prems Suc.IH by (simp add: Let_def flag_commute s1_def [symmetric] del: upd_endpoint_upd) (simp add: s1_def)
qed simp

lemma drain_reply_flag:
  "j < length (endpoints s) \<Longrightarrow> drain_reply_queue n j (upd_endpoint j shut s) = upd_endpoint j shut (drain_reply_queue n j s)"
proof (induction n arbitrary: s)
  case (Suc n)
  define s1 where "s1 = upd_endpoint j (\<lambda>e. e\<lparr>e_rq_len := n\<rparr>) s"
  have "upd_endpoint j (\<lambda>e. e\<lparr>e_rq_len := n\<rparr>) (upd_endpoint j shut s) = upd_endpoint j shut s1"
    using Suc.prems by (simp add: s1_def shut_last)
  then show ?case using Suc.prems Suc.IH by (simp add: Let_def flag_commute s1_def [symmetric] del: upd_endpoint_upd) (simp add: s1_def)
qed simp


lemma core_upd_endpoint_ok:
  assumes "core D s" "j < 2" "ep_ok D s j e'"
  shows "core D (upd_endpoint j (\<lambda>_. e') s)"
proof (rule coreI)
  fix j' :: nat assume "j' < 2"
  then show "ep_ok D (upd_endpoint j (\<lambda>_. e') s) j' (endpoints (upd_endpoint j (\<lambda>_. e') s) ! j')"
    using assms coreD(3) [OF assms(1)] coreD(9) [OF assms(1)] by simp
qed (use core_shape [OF assms(1)] coreD(7,8,10,11) [OF assms(1)] in simp_all)

text \<open>The tasks that wait on an endpoint, in whatever role.\<close>

definition waiters :: "Endpoint \<Rightarrow> usize set" where
  "waiters e = set_option (recv_waiter e) \<union> set (sq e) \<union> set (rq e)"

definition emptied :: "Endpoint \<Rightarrow> Endpoint" where
  "emptied e = e\<lparr>is_closed := True, recv_waiter := None, sq_len := 0, e_rq_len := 0\<rparr>"

lemma waiters_disjoint:
  assumes "ep_ok D s j e"
  shows "set_option (recv_waiter e) \<inter> set (sq e) = {}" "(set_option (recv_waiter e) \<union> set (sq e)) \<inter> set (rq e) = {}"
  using assms by (auto simp: ep_ok_def blk_def wants_send_def wants_reply_def wants_recv_def)

lemma recv_freed:
  assumes "core D s" "j < 2"
  defines "s2 \<equiv> (case recv_waiter (endpoints s ! j) of
      Some i \<Rightarrow> close_rescue i id (upd_endpoint j (\<lambda>e. e\<lparr>recv_waiter := None\<rparr>) s) | None \<Rightarrow> s)"
  shows "freed D IPC_ERR_ENDPOINT_CLOSED (set_option (recv_waiter (endpoints s ! j))) s s2"
    "endpoints s2 = endpoints (upd_endpoint j (\<lambda>e. e\<lparr>recv_waiter := None\<rparr>) s)"
proof -
  let ?e = "(endpoints s ! j)\<lparr>recv_waiter := None\<rparr>"
  have e: "ep_ok D s j (endpoints s ! j)" using coreD(9) [OF assms(1,2)] .
  have eq: "upd_endpoint j (\<lambda>e. e\<lparr>recv_waiter := None\<rparr>) s = upd_endpoint j (\<lambda>_. ?e) s" by (rule upd_endpoint_const)
  show "endpoints s2 = endpoints (upd_endpoint j (\<lambda>e. e\<lparr>recv_waiter := None\<rparr>) s)"
  proof (cases "recv_waiter (endpoints s ! j)")
    case None
    then have "?e = endpoints s ! j" by simp
    then show ?thesis using None unfolding s2_def eq by (simp only: endpoints_upd_endpoint_id option.case)
  qed (simp add: s2_def)
  show "freed D IPC_ERR_ENDPOINT_CLOSED (set_option (recv_waiter (endpoints s ! j))) s s2"
  proof (cases "recv_waiter (endpoints s ! j)")
    case None
    then show ?thesis using freed_refl [OF assms(1)] by (simp add: s2_def)
  next
    case (Some i)
    then have b: "blk D s (wants_recv j) = {i}" using e by (simp add: ep_ok_def)
    then have "i \<in> blk D s (wants_recv j)" by simp
    then have i: "i < 3" "i \<notin> D" "blocked_reason (tk s i) = Some (IpcRecv j)" by (auto simp: blk_def wants_recv_def)
    have "ep_wf ?e = ep_wf (endpoints s ! j)" "sq ?e = sq (endpoints s ! j)" "rq ?e = rq (endpoints s ! j)"
      by (simp_all add: ep_wf_def sq_def rq_def)
    then have "ep_ok (insert i D) s j ?e" using e i(3) b by (simp add: ep_ok_def blk_insert blk_not)
    from close_rescue_freed(1) [OF assms(1) i _ assms(2) this, of id] show ?thesis
      using Some blocked_user(5) [OF assms(1) i] by (simp add: s2_def eq)
  qed
qed

lemma close_freed:
  assumes "core D s" "j < 2" "\<not> is_closed (endpoints s ! j)"
  defines "s' \<equiv> close_endpoint_and_rescue_waiters j s"
  shows "freed D IPC_ERR_ENDPOINT_CLOSED (waiters (endpoints s ! j)) s s'" "endpoints s' = endpoints (upd_endpoint j emptied s)"
proof -
  let ?e = "endpoints s ! j" and ?f = "freed D IPC_ERR_ENDPOINT_CLOSED"
  note len = coreD(3) [OF assms(1)]
  have d: "set_option (recv_waiter ?e) \<inter> set (sq ?e) = {}" "(set_option (recv_waiter ?e) \<union> set (sq ?e)) \<inter> set (rq ?e) = {}"
    using waiters_disjoint [OF coreD(9) [OF assms(1,2)]] .
  define s2 where "s2 = (case recv_waiter ?e of
      Some i \<Rightarrow> close_rescue i id (upd_endpoint j (\<lambda>e. e\<lparr>recv_waiter := None\<rparr>) s) | None \<Rightarrow> s)"
  have f2: "?f (set_option (recv_waiter ?e)) s s2" and e2: "endpoints s2 ! j = ?e\<lparr>recv_waiter := None\<rparr>"
      and es2: "endpoints s2 = endpoints (upd_endpoint j (\<lambda>e. e\<lparr>recv_waiter := None\<rparr>) s)"
    using recv_freed [OF assms(1,2)] assms(2) len by (simp_all add: s2_def)
  define s3 where "s3 = drain_send_queue (sq_len ?e) j s2"
  have "sq (endpoints s2 ! j) = sq ?e" "rq (endpoints s2 ! j) = rq ?e" "sq_len (endpoints s2 ! j) = sq_len ?e" by (simp_all add: e2 sq_def rq_def)
  with drain_send_freed [OF freedD(1) [OF f2] assms(2)]
  have f3: "?f (set (sq ?e)) s2 s3" and es3: "endpoints s3 = endpoints (upd_endpoint j (\<lambda>e. e\<lparr>sq_len := 0\<rparr>) s2)"
    by (simp_all add: s3_def)
  have e3: "endpoints s3 ! j = ?e\<lparr>recv_waiter := None, sq_len := 0\<rparr>" using es3 es2 len assms(2) by (simp add: upd_endpoint_def)
  define s4 where "s4 = drain_reply_queue (e_rq_len ?e) j s3"
  have "rq (endpoints s3 ! j) = rq ?e" "e_rq_len (endpoints s3 ! j) = e_rq_len ?e" by (simp_all add: e3 rq_def)
  with drain_reply_freed [OF freedD(1) [OF f3] assms(2)]
  have f4: "?f (set (rq ?e)) s3 s4" and es4: "endpoints s4 = endpoints (upd_endpoint j (\<lambda>e. e\<lparr>e_rq_len := 0\<rparr>) s3)"
    by (simp_all add: s4_def)
  have e4: "endpoints s4 ! j = ?e\<lparr>recv_waiter := None, sq_len := 0, e_rq_len := 0\<rparr>"
    using es4 es3 es2 len assms(2) by (simp add: upd_endpoint_def)
  have f: "?f (waiters ?e) s s4"
    unfolding waiters_def using freed_trans [OF freed_trans [OF f2 f3 d(1)] f4 d(2)] .
  have fl: "j < length (endpoints s2)" "j < length (endpoints s3)" "j < length (endpoints s)" using es2 es3 len assms(2) by simp_all
  have s': "s' = upd_endpoint j shut s4"
  proof -
    have "upd_endpoint j (\<lambda>e. e\<lparr>recv_waiter := None\<rparr>) (upd_endpoint j shut s) = upd_endpoint j shut (upd_endpoint j (\<lambda>e. e\<lparr>recv_waiter := None\<rparr>) s)"
      using fl by (simp add: shut_last)
    then have "(case recv_waiter (endpoints (upd_endpoint j shut s) ! j) of
        Some i \<Rightarrow> close_rescue i id (upd_endpoint j (\<lambda>e. e\<lparr>recv_waiter := None\<rparr>) (upd_endpoint j shut s)) | None \<Rightarrow> upd_endpoint j shut s)
      = upd_endpoint j shut s2"
      using fl(3) by (cases "recv_waiter ?e") (simp_all add: s2_def flag_commute del: upd_endpoint_upd)
    then show ?thesis
      using assms(2,3) fl e2 e3
      by (simp add: s'_def close_endpoint_and_rescue_waiters_def MAX_ENDPOINTS_def Let_def drain_send_flag drain_reply_flag
          s3_def [symmetric] s4_def [symmetric] del: upd_endpoint_upd)
  qed
  show "endpoints s' = endpoints (upd_endpoint j emptied s)"
    using es4 es3 es2 len assms(2) by (simp add: s' upd_endpoint_def emptied_def shut_last)
  have "ep_ok D s4 j (endpoints s4 ! j)" using coreD(9) [OF freedD(1) [OF f] assms(2)] .
  then have "ep_ok D s4 j (shut (endpoints s4 ! j))" by (simp add: ep_ok_def ep_wf_def sq_def rq_def e4)
  then have "core D s'" unfolding s' by (subst upd_endpoint_const) (rule core_upd_endpoint_ok [OF freedD(1) [OF f] assms(2)])
  then show "?f (waiters ?e) s s'" using f by (simp add: freed_def s')
qed

end
