(* ===== verification/Inv_Kill.thy ===== *)
theory Inv_Kill
  imports Inv_Close
begin

text \<open>
  Killing a user task keeps the invariant, leaves nothing of it behind (no queue entry, no message, no
  mapping) and no task waiting for its reply.
\<close>

section \<open>Detaching the task\<close>

lemma remove_all_loop_set:
  assumes "n \<le> length q" "distinct (take n q)" "remove_all_loop x 0 n q = (q', n')"
  shows "length q' = length q" "n' \<le> n" "set (take n' q') = set (take n q) - {x}" "distinct (take n' q')"
proof -
  have sp: "length q' = length q" "n' \<le> n" "mset (take n' q') = filter_mset (\<lambda>y. y \<noteq> x) (mset (take n q))"
    using remove_all_loop_spec [of 0 n q x] assms(1,3) by simp_all
  then show "length q' = length q" "n' \<le> n" by blast+
  have m: "mset (take n' q') = mset (filter (\<lambda>y. y \<noteq> x) (take n q))" using sp(3) by (simp add: mset_filter)
  show "set (take n' q') = set (take n q) - {x}" using mset_eq_setD [OF m] by auto
  show "distinct (take n' q')" using mset_eq_imp_distinct_iff [OF m] assms(2) by simp
qed

lemma remove_task_from_endpoint_spec:
  fixes x :: usize
  assumes "ep_wf e"
  defines "e' \<equiv> remove_task_from_endpoint x e"
  shows "ep_wf e'" "set (sq e') = set (sq e) - {x}" "set (rq e') = set (rq e) - {x}"
    "set_option (recv_waiter e') = set_option (recv_waiter e) - {x}" "ep_id e' = ep_id e" "is_closed e' = is_closed e"
    "ep_owner e' = ep_owner e" "sq_len e' \<le> sq_len e" "e_rq_len e' \<le> e_rq_len e"
proof -
  obtain sq' sl where s: "remove_all_loop x 0 (sq_len e) (send_queue e) = (sq', sl)" by fastforce
  obtain rq' rl where r: "remove_all_loop x 0 (e_rq_len e) (reply_queue e) = (rq', rl)" by fastforce
  have wf: "length (send_queue e) = MAX_TASKS" "sq_len e \<le> MAX_TASKS" "distinct (sq e)"
      "length (reply_queue e) = MAX_TASKS" "e_rq_len e \<le> MAX_TASKS" "distinct (rq e)"
    using assms(1) by (simp_all add: ep_wf_def)
  have sp: "length sq' = MAX_TASKS" "sl \<le> sq_len e" "set (take sl sq') = set (sq e) - {x}" "distinct (take sl sq')"
    using remove_all_loop_set [OF _ _ s] wf by (simp_all add: sq_def)
  have rp: "length rq' = MAX_TASKS" "rl \<le> e_rq_len e" "set (take rl rq') = set (rq e) - {x}" "distinct (take rl rq')"
    using remove_all_loop_set [OF _ _ r] wf by (simp_all add: rq_def)
  have e': "e' = (if recv_waiter e = Some x then e\<lparr>recv_waiter := None\<rparr> else e)
      \<lparr>send_queue := sq', sq_len := sl, reply_queue := rq', e_rq_len := rl\<rparr>"
    using s r by (simp add: e'_def remove_task_from_endpoint_def Let_def)
  have f: "send_queue e' = sq'" "sq_len e' = sl" "reply_queue e' = rq'" "e_rq_len e' = rl" by (simp_all add: e')
  show "ep_wf e'" using sp rp wf(2,5) by (simp add: ep_wf_def sq_def rq_def f)
  show "set (sq e') = set (sq e) - {x}" "set (rq e') = set (rq e) - {x}" "sq_len e' \<le> sq_len e" "e_rq_len e' \<le> e_rq_len e"
    using sp rp by (simp_all add: sq_def rq_def f)
  show "set_option (recv_waiter e') = set_option (recv_waiter e) - {x}"
    by (cases "recv_waiter e") (auto simp: e')
  show "ep_id e' = ep_id e" "is_closed e' = is_closed e" "ep_owner e' = ep_owner e" by (simp_all add: e')
qed

lemma core_detach_any:
  assumes "core {} s" "0 < i" "i < 3" "s' = snd (remove_from_ready_queue i s)"
  shows "core {i} (s'\<lparr>endpoints := map (remove_task_from_endpoint i) (endpoints s')\<rparr>)" (is "core _ ?s")
proof (rule coreI)
  obtain q n where q: "s' = s\<lparr>ready_queue := q, rq_len := n\<rparr>" "length q = length (ready_queue s)" "n \<le> rq_len s"
      "take n q = filter (\<lambda>v. v \<noteq> i) (rdy s)"
    using remove_from_ready_queue_eq [of s i] coreD(8) [OF assms(1)] assms(4) by (auto simp: rq_ok_def)
  have rq: "length (ready_queue s) = 3" "rq_len s \<le> 3" "distinct (rdy s)" "set (rdy s) = ready_set {} s"
    using coreD(8) [OF assms(1)] by (simp_all add: rq_ok_def)
  have rs: "ready_set {i} ?s = ready_set {} s - {i}" by (auto simp: ready_set_def q(1))
  have "rdy ?s = filter (\<lambda>v. v \<noteq> i) (rdy s)" using q by (simp add: rdy_def)
  then have "set (rdy ?s) = ready_set {i} ?s" "distinct (rdy ?s)" using rq by (auto simp: rs)
  then show "rq_ok {i} ?s" using q rq by (simp add: rq_ok_def)
  have b: "blk {i} ?s P = blk {} s P - {i}" for P by (auto simp: blk_def q(1))
  show "ep_ok {i} ?s j (endpoints ?s ! j)" if j: "j < 2" for j
  proof -
    have e: "ep_ok {} s j (endpoints s ! j)" using coreD(9) [OF assms(1) j] .
    note r = remove_task_from_endpoint_spec [of "endpoints s ! j" i]
    have "endpoints ?s ! j = remove_task_from_endpoint i (endpoints s ! j)" using j coreD(3) [OF assms(1)] q(1) by simp
    moreover have "recv_waiter e' = None" if "set_option (recv_waiter e') = {} - {i}" for e' using that by simp
    ultimately show ?thesis using e r by (auto simp: ep_ok_def b)
  qed
  show "shape ?s" using core_shape [OF assms(1)] q(1) by (simp add: shape_def)
  show "{i} \<subseteq> {1, 2}" using assms(2,3) by auto
  fix k assume k: "k < 3" "k \<notin> {i}"
  then show "task_ok k (tk ?s k)" using coreD(7) [OF assms(1)] q(1) by simp
  show "partner_ok {i} ?s k p" if "blocked_reason (tk ?s k) = Some (IpcReply p j)" for p j
  proof -
    have "partner_ok {} s k p" using coreD(11) [OF assms(1) k(1)] that q(1) by simp
    then have "partner_ok {i} s k p" by (rule partner_ok_mono) simp
    then show ?thesis by (simp add: partner_ok_def q(1))
  qed
qed

lemma detach_eq:
  fixes i :: usize
  assumes "core {} s"
  defines "s' \<equiv> snd (remove_from_ready_queue i s)"
  shows "detach_task i s = (upd_task i dead_task (s'\<lparr>endpoints := map (remove_task_from_endpoint i) (endpoints s')\<rparr>))
    \<lparr>mem_demo_stage := (mem_demo_stage s')[i := 0], mem_demo_mapped := (mem_demo_mapped s')[i := False],
     mem_demo_frame := (mem_demo_frame s')[i := None], demo_early_sent_by_task0 := False\<rparr>"
proof -
  have "snd (remove_from_wait_queue i s') = s'" using coreD(4) [OF assms(1)] by (simp add: remove_from_wait_queue_def s'_def)
  then show ?thesis by (simp add: detach_task_def remove_task_from_endpoints_def s'_def [symmetric] Let_def)
qed

lemma mem_demo_remove_ready [simp]:
  "mem_demo_stage (snd (remove_from_ready_queue i s)) = mem_demo_stage s"
  "mem_demo_mapped (snd (remove_from_ready_queue i s)) = mem_demo_mapped s"
  "mem_demo_frame (snd (remove_from_ready_queue i s)) = mem_demo_frame s"
  by (simp_all add: remove_from_ready_queue_def split: prod.split)

lemma detach_spec:
  assumes "core {} s" "ainv {} s" "at_most_current s" "0 < i" "i < 3"
  shows "core {i} (detach_task i s)" "ainv {i} (detach_task i s)" "at_most_current (detach_task i s)"
    "tk (detach_task i s) k = (if k = i then dead_task (tk s i) else tk s k)" "current_task (detach_task i s) = current_task s"
    "address_spaces (detach_task i s) = address_spaces s" "num_tasks (detach_task i s) = num_tasks s"
    "length (tasks (detach_task i s)) = 3"
    "map ep_owner (endpoints (detach_task i s)) = map ep_owner (endpoints s)"
proof -
  note len = coreD(2,3) [OF assms(1)]
  let ?s' = "snd (remove_from_ready_queue i s)"
  let ?u = "?s'\<lparr>endpoints := map (remove_task_from_endpoint i) (endpoints ?s')\<rparr>"
  have c: "core {i} ?u" using core_detach_any [OF assms(1,4,5) refl] .
  have "core {i} (upd_task i dead_task ?u)" by (rule core_upd_detached [OF c]) (simp_all add: same_id_def dead_task_def)
  then show "core {i} (detach_task i s)" by (simp add: detach_eq [OF assms(1)])
  show tk: "tk (detach_task i s) k = (if k = i then dead_task (tk s i) else tk s k)" for k
    using len assms(5) by (simp add: detach_eq [OF assms(1)])
  show a: "address_spaces (detach_task i s) = address_spaces s" "num_tasks (detach_task i s) = num_tasks s"
    "current_task (detach_task i s) = current_task s" "length (tasks (detach_task i s)) = 3"
    using len by (simp_all add: detach_eq [OF assms(1)])
  show "ainv {i} (detach_task i s)"
    using assms(2) by (simp add: ainv_def a tk) (simp add: detach_eq [OF assms(1)])
  show "at_most_current (detach_task i s)" using assms(3) by (auto simp: at_most_current_def a tk dead_task_def)
  show "map ep_owner (endpoints (detach_task i s)) = map ep_owner (endpoints s)"
    using remove_task_from_endpoint_spec(7) coreD(3,9) [OF assms(1)]
    by (auto simp: detach_eq [OF assms(1)] list_eq_iff_nth_eq ep_ok_def)
qed

section \<open>Its user mappings\<close>

lemma each_mapping_clear:
  "each_mapping (clear_user_mappings a) = filter (\<lambda>m. \<not> flags_contain (m_flags m) USER) (each_mapping a)"
proof -
  have "map the (filter (\<lambda>m. m \<noteq> None) (map (\<lambda>e. if entry_is_user e then None else e) ms))
      = filter (\<lambda>m. \<not> flags_contain (m_flags m) USER) (map the (filter (\<lambda>m. m \<noteq> None) ms))" for ms
    by (induction ms) (auto simp: entry_is_user_def split: option.splits)
  then show ?thesis by (simp add: each_mapping_def clear_user_mappings_def)
qed

lemma user_flags_user: "flags_contain user_flags USER"
  by (simp add: flags_contain_def user_flags_def PRESENT_def WRITABLE_def USER_def)

lemma as_ok_clear:
  assumes "as_ok i a" "0 < i"
  shows "as_ok i (clear_user_mappings a)" "each_mapping (clear_user_mappings a) = []"
proof -
  show n: "each_mapping (clear_user_mappings a) = []"
    using assms user_flags_user by (auto simp: each_mapping_clear as_ok_def filter_empty_conv)
  show "as_ok i (clear_user_mappings a)"
    using assms n by (simp add: as_ok_def as_wf_def) (simp add: clear_user_mappings_def)
qed

lemma unmap_loop_post:
  "post False (foldM (unmap_user_page E root) xs s) (\<lambda>s'. \<exists>pm h. s' = s\<lparr>phys_mem := pm, hw := h\<rparr>)"
proof (rule post_foldM)
  show "\<exists>pm h. s = s\<lparr>phys_mem := pm, hw := h\<rparr>" by (intro exI [of _ "phys_mem s"] exI [of _ "hw s"]) simp
  fix ip s' assume "\<exists>pm h. s' = s\<lparr>phys_mem := pm, hw := h\<rparr>"
  then show "post False (unmap_user_page E root ip s') (\<lambda>s'. \<exists>pm h. s' = s\<lparr>phys_mem := pm, hw := h\<rparr>)"
    by (intro post_safeI) (auto simp: unmap_user_page_def split: prod.splits sum.splits if_splits option.splits bind_splits)
qed

lemma cleanup_post:
  assumes "ainv {i} s" "num_tasks s = 3" "0 < i" "i < 3" "t_state (tk s i) = Dead"
  shows "post False (cleanup_user_mappings_of_address_space E i s)
    (\<lambda>s'. ainv {} s' \<and> (\<exists>a pm h. s' = s\<lparr>address_spaces := a, phys_mem := pm, hw := h\<rparr>))"
proof -
  let ?a = "clear_user_mappings (address_spaces s ! i)"
  have k: "kind (address_spaces s ! i) = User" using ainvD(4) [OF assms(1,4)] assms(3) by simp
  note c = as_ok_clear [OF ainvD(2) [OF assms(1,4)] assms(3)]
  have a: "ainv {} ((upd_aspace i ?a s)\<lparr>phys_mem := pm, hw := h\<rparr>)" for pm h
    using assms(1,4) c unfolding ainv_def by (auto simp: upd_aspace_def nth_list_update)
  obtain root where "root_page_frame (address_spaces s ! i) = Some root" using ainvD(5) [OF assms(1,4)] by auto
  then have "cleanup_user_mappings_of_address_space E i s = foldM (unmap_user_page E root)
      (enumerate 0 (collected_user_pages (address_spaces s ! i))) (upd_aspace i ?a s)"
    using k assms(2,4) by (simp add: cleanup_user_mappings_of_address_space_def Let_def)
  then show ?thesis
    using a by (simp only:) (rule post_mono [OF unmap_loop_post], auto simp: upd_aspace_def)
qed

section \<open>Its endpoints\<close>

definition mostly_kept :: "usize set \<Rightarrow> u64 \<Rightarrow> 'm KernelState \<Rightarrow> 'm KernelState \<Rightarrow> bool" where
  "mostly_kept D e s s' \<longleftrightarrow> core D s' \<and> (\<forall>D'. ainv D' s \<longrightarrow> ainv D' s') \<and> (at_most_current s \<longrightarrow> at_most_current s')
     \<and> current_task s' = current_task s
     \<and> (\<forall>k < 3. tk s' k = tk s k \<or> k \<notin> D \<and> t_state (tk s k) = Blocked \<and> tk s' k = rescued e (tk s k))"

lemma mostly_keptI: "core D s' \<Longrightarrow> (\<And>D'. ainv D' s \<Longrightarrow> ainv D' s') \<Longrightarrow> (at_most_current s \<Longrightarrow> at_most_current s') \<Longrightarrow>
    current_task s' = current_task s \<Longrightarrow>
    (\<And>k. k < 3 \<Longrightarrow> tk s' k = tk s k \<or> k \<notin> D \<and> t_state (tk s k) = Blocked \<and> tk s' k = rescued e (tk s k)) \<Longrightarrow> mostly_kept D e s s'"
  by (simp add: mostly_kept_def)

lemma mostly_keptD:
  assumes "mostly_kept D e s s'"
  shows "core D s'" "ainv D' s \<Longrightarrow> ainv D' s'" "at_most_current s \<Longrightarrow> at_most_current s'" "current_task s' = current_task s"
    "k < 3 \<Longrightarrow> tk s' k = tk s k \<or> k \<notin> D \<and> t_state (tk s k) = Blocked \<and> tk s' k = rescued e (tk s k)"
  using assms by (simp_all add: mostly_kept_def)

lemma mostly_kept_trans:
  assumes "mostly_kept D e s s1" "mostly_kept D e s1 s2"
  shows "mostly_kept D e s s2"
proof (rule mostly_keptI)
  fix k :: nat assume k: "k < 3"
  have "t_state (rescued e t) = Ready" for t by (simp add: rescued_def)
  then show "tk s2 k = tk s k \<or> k \<notin> D \<and> t_state (tk s k) = Blocked \<and> tk s2 k = rescued e (tk s k)"
    using mostly_keptD(5) [OF assms(1) k] mostly_keptD(5) [OF assms(2) k] by auto
qed (use mostly_keptD [OF assms(1)] mostly_keptD [OF assms(2)] in auto)

lemma waiters_blocked:
  assumes "core D s" "j < 2" "k \<in> waiters (endpoints s ! j)"
  shows "k < 3" "k \<notin> D" "t_state (tk s k) = Blocked"
proof -
  have "ep_ok D s j (endpoints s ! j)" using coreD(9) [OF assms(1,2)] .
  then have "k < 3 \<and> k \<notin> D \<and> (\<exists>r. blocked_reason (tk s k) = Some r)"
    using assms(3) by (auto simp: waiters_def ep_ok_def blk_def wants_send_def wants_reply_def wants_recv_def)
  then show "k < 3" "k \<notin> D" "t_state (tk s k) = Blocked" using blocked_user(1) [OF assms(1)] by auto
qed

lemma close_mostly_kept:
  assumes "core D s" "j < 2"
  shows "mostly_kept D IPC_ERR_ENDPOINT_CLOSED s (close_endpoint_and_rescue_waiters j s)"
proof (cases "is_closed (endpoints s ! j)")
  case True
  then have "close_endpoint_and_rescue_waiters j s = s" by (simp add: close_endpoint_and_rescue_waiters_def)
  then show ?thesis using assms(1) by (simp add: mostly_kept_def)
next
  case False
  note f = close_freed(1) [OF assms False]
  show ?thesis
  proof (rule mostly_keptI)
    fix k :: nat assume "k < 3"
    then show "tk (close_endpoint_and_rescue_waiters j s) k = tk s k
      \<or> k \<notin> D \<and> t_state (tk s k) = Blocked \<and> tk (close_endpoint_and_rescue_waiters j s) k = rescued IPC_ERR_ENDPOINT_CLOSED (tk s k)"
      using freedD(2) [OF f, of k] waiters_blocked [OF assms, of k] by auto
  qed (use freedD [OF f] in auto)
qed

lemma fold_close_mostly_kept:
  assumes "core D s" "\<And>j. j \<in> set js \<Longrightarrow> j < 2"
  shows "mostly_kept D IPC_ERR_ENDPOINT_CLOSED s (fold close_endpoint_and_rescue_waiters js s)"
  using assms
proof (induction js arbitrary: s)
  case (Cons j js)
  have m: "mostly_kept D IPC_ERR_ENDPOINT_CLOSED s (close_endpoint_and_rescue_waiters j s)"
    using close_mostly_kept [OF Cons.prems(1)] Cons.prems(2) by simp
  show ?case using mostly_kept_trans [OF m Cons.IH [OF mostly_keptD(1) [OF m]]] Cons.prems(2) by simp
qed (simp add: mostly_kept_def)

section \<open>The tasks that wait for it\<close>

lemma resolve_loop_id:
  assumes "ep_wf e" "\<And>w. w \<in> set (rq e) \<Longrightarrow> \<not> should_rescue d n (ep_id e) ts w"
  shows "resolve_loop d n pos (e, ts, ws) = (e, ts, ws)"
proof (induction "e_rq_len e - pos" arbitrary: pos)
  case 0
  then show ?case by (simp add: resolve_loop.simps [of d n pos])
next
  case (Suc x)
  then have p: "pos < e_rq_len e" "x = e_rq_len e - Suc pos" by linarith+
  have "rq e ! pos = reply_queue e ! pos" using p(1) by (simp add: rq_def)
  moreover have "rq e ! pos \<in> set (rq e)" using p(1) length_rq [OF assms(1)] by (intro nth_mem) simp
  ultimately have "\<not> should_rescue d n (ep_id e) ts (reply_queue e ! pos)" using assms(2) by metis
  then show ?case using Suc.hyps(1) [OF p(2)] p(1) by (simp add: resolve_loop.simps [of d n pos])
qed

lemma resolve_endpoints_id:
  assumes "\<And>e. e \<in> set es \<Longrightarrow> ep_wf e \<and> (\<forall>w \<in> set (rq e). \<not> should_rescue d n (ep_id e) ts w)"
  shows "resolve_endpoints d n es ts ws = (es, ts, ws)"
  using assms by (induction es) (auto simp: resolve_loop_id)

lemma resolve_loop_single:
  assumes "ep_wf e" "rq e = [k]" "should_rescue d n (ep_id e) ts k" "remove_reply_waiter_at e 0 = (r, e')"
  shows "resolve_loop d n 0 (e, ts, []) = (e', ts[k := (ts ! k)\<lparr>blocked_reason := None, last_reply := Some IPC_ERR_DEAD_PARTNER\<rparr>], [k])"
proof -
  note l = rq_single [OF assms(1,2)]
  have e': "e' = e\<lparr>reply_queue := swap_remove (reply_queue e) (e_rq_len e) 0, e_rq_len := e_rq_len e - 1\<rparr>"
    using assms(4) l by (simp add: remove_reply_waiter_at_def)
  have "e_rq_len e' = 0" using l by (simp add: e')
  then have "resolve_loop d n 0 (e', ts', ws) = (e', ts', ws)" for ts' ws by (simp add: resolve_loop.simps)
  then show ?thesis using assms(3) l by (simp add: resolve_loop.simps [of d n 0 e] Let_def e' MAX_TASKS_def)
qed

text \<open>When user task \<open>i\<close> is detached, at most one task waits for its reply.\<close>

lemma only_waiter:
  assumes "core {i} s" "m < 3" "m \<noteq> i" "blocked_reason (tk s m) = Some r"
  shows "m = 3 - i"
  using blocked_user(2) [OF assms(1,2) _ assms(4)] assms(2,3) detached_bounds [OF assms(1), of i] by auto

lemma two_elems: "length xs = 2 \<Longrightarrow> xs = [xs ! 0, xs ! 1]"
  by (auto simp: list_eq_iff_nth_eq less_2_cases_iff)

lemma resolve_waiter:
  assumes "core {i} s" "k < 3" "k \<noteq> i" "blocked_reason (tk s k) = Some (IpcReply (tid_of i) j)"
  shows "\<exists>e'. ep_ok (insert k {i}) s j e' \<and> resolve_ipc_reply_waiters_for_dead_partner (tid_of i) s
    = wake_task_to_ready k (upd_task k (\<lambda>t. t\<lparr>blocked_reason := None, last_reply := Some IPC_ERR_DEAD_PARTNER\<rparr>) (upd_endpoint j (\<lambda>_. e') s))"
proof -
  let ?d = "tid_of i" and ?f = "\<lambda>t. t\<lparr>blocked_reason := None, last_reply := Some IPC_ERR_DEAD_PARTNER\<rparr>"
  have kD: "k \<notin> {i}" using assms(3) by simp
  note b = blocked_user [OF assms(1,2) kD assms(4)]
  have j: "j < 2" using b(4) by simp
  have ep: "ep_ok {i} s l (endpoints s ! l)" if "l < 2" for l using coreD(9) [OF assms(1) that] .
  have uniq: "m = k" if "m < 3" "m \<noteq> i" "blocked_reason (tk s m) = Some r" for m r
    using only_waiter [OF assms(1) that] only_waiter [OF assms(1-4)] by simp
  have mem: "set (rq (endpoints s ! l)) = (if l = j then {k} else {})" if l: "l < 2" for l
  proof -
    have "set (rq (endpoints s ! l)) = blk {i} s (wants_reply l)" using ep [OF l] by (simp add: ep_ok_def)
    also have "\<dots> = (if l = j then {k} else {})"
      using assms(2-4) by (auto simp: blk_def wants_reply_def dest: uniq)
    finally show ?thesis .
  qed
  have wf: "ep_wf (endpoints s ! l)" "ep_id (endpoints s ! l) = l" if "l < 2" for l using ep [OF that] by (simp_all add: ep_ok_def)
  have q: "rq (endpoints s ! j) = [k]"
    using mem [OF j] wf(1) [OF j] by (cases "rq (endpoints s ! j)"; cases "tl (rq (endpoints s ! j))") (auto simp: ep_wf_def)
  have q': "rq (endpoints s ! l) = []" if "l < 2" "l \<noteq> j" for l using mem [OF that(1)] that(2) by simp
  obtain r e' where r: "remove_reply_waiter_at (endpoints s ! j) 0 = (r, e')" by fastforce
  have e: "ep_ok (insert k {i}) s j e'"
    using ep_ok_no_reply_waiter(1) [OF assms(1) j kD assms(4) _ _ r] rq_single(1) [OF wf(1) [OF j] q] q by simp
  have sr: "should_rescue ?d (num_tasks s) (ep_id (endpoints s ! j)) (tasks s) k"
    using b(1) assms(2,4) coreD(1) [OF assms(1)] wf(2) [OF j] by (simp add: should_rescue_def)
  note single = resolve_loop_single [OF wf(1) [OF j] q sr r]
  have other: "resolve_loop ?d n pos (endpoints s ! l, ts, ws) = (endpoints s ! l, ts, ws)" if "l < 2" "l \<noteq> j" for l n pos ts ws
    using resolve_loop_id [OF wf(1) [OF that(1)]] q' [OF that] by simp
  have es: "endpoints s = [endpoints s ! 0, endpoints s ! 1]" using two_elems [OF coreD(3) [OF assms(1)]] .
  have "resolve_endpoints ?d (num_tasks s) [endpoints s ! 0, endpoints s ! 1] (tasks s) []
      = ([endpoints s ! 0, endpoints s ! 1][j := e'], (tasks s)[k := ?f (tk s k)], [k])"
    using j single other by (cases "j = 0") (auto simp: less_2_cases_iff)
  then have "resolve_endpoints ?d (num_tasks s) (endpoints s) (tasks s) [] = ((endpoints s)[j := e'], (tasks s)[k := ?f (tk s k)], [k])"
    unfolding es [symmetric] .
  then show ?thesis
    using e by (intro exI [of _ e']) (simp add: resolve_ipc_reply_waiters_for_dead_partner_def upd_task_def upd_endpoint_def)
qed

lemma resolve_mostly_kept:
  assumes "core {i} s"
  defines "s' \<equiv> resolve_ipc_reply_waiters_for_dead_partner (tid_of i) s"
  shows "mostly_kept {i} IPC_ERR_DEAD_PARTNER s s'"
    "\<And>m j. m < 3 \<Longrightarrow> m \<noteq> i \<Longrightarrow> blocked_reason (tk s' m) \<noteq> Some (IpcReply (tid_of i) j)"
proof -
  consider (waiter) k j where "k < 3" "k \<noteq> i" "blocked_reason (tk s k) = Some (IpcReply (tid_of i) j)"
    | (none) "\<And>m j. m < 3 \<Longrightarrow> m \<noteq> i \<Longrightarrow> blocked_reason (tk s m) \<noteq> Some (IpcReply (tid_of i) j)" by blast
  then have "mostly_kept {i} IPC_ERR_DEAD_PARTNER s s'
      \<and> (\<forall>m j. m < 3 \<longrightarrow> m \<noteq> i \<longrightarrow> blocked_reason (tk s' m) \<noteq> Some (IpcReply (tid_of i) j))"
  proof cases
    case waiter
    then have kD: "k \<notin> {i}" by simp
    note b = blocked_user [OF assms(1) waiter(1) kD waiter(3)]
    obtain e' where e: "ep_ok (insert k {i}) s j e'" "s' = wake_task_to_ready k (upd_task k (\<lambda>t. t\<lparr>blocked_reason := None, last_reply := Some IPC_ERR_DEAD_PARTNER\<rparr>) (upd_endpoint j (\<lambda>_. e') s))"
      using resolve_waiter [OF assms(1) waiter] by (auto simp: s'_def)
    have f: "freed {i} IPC_ERR_DEAD_PARTNER {k} s s'"
      unfolding e(2) by (rule release_freed [OF assms(1) waiter(1) kD waiter(3) _ _ e(1) rescuer_simps(2) [OF b(1)]])
        (use b(4,5) in simp_all)
    have "blocked_reason (tk s' m) \<noteq> Some (IpcReply (tid_of i) l)" if "m < 3" "m \<noteq> i" for m l
      using freedD(2) [OF f, of m] only_waiter [OF assms(1) that, of "IpcReply (tid_of i) l"] only_waiter [OF assms(1) waiter(1,2,3)]
      by (auto simp: rescued_def)
    moreover have "mostly_kept {i} IPC_ERR_DEAD_PARTNER s s'"
      using freedD [OF f] b(1) kD by (intro mostly_keptI) auto
    ultimately show ?thesis by blast
  next
    case none
    have "ep_wf e \<and> (\<forall>w \<in> set (rq e). \<not> should_rescue (tid_of i) (num_tasks s) (ep_id e) (tasks s) w)" if m: "e \<in> set (endpoints s)" for e
    proof -
      obtain j where j: "j < 2" "e = endpoints s ! j" using m unfolding in_set_conv_nth coreD(3) [OF assms(1)] by metis
      then have "ep_ok {i} s j e" using coreD(9) [OF assms(1)] by blast
      then show ?thesis using none coreD(1) [OF assms(1)] by (auto simp: ep_ok_def blk_def should_rescue_def)
    qed
    from resolve_endpoints_id [OF this]
    have "s' = s" by (simp add: s'_def resolve_ipc_reply_waiters_for_dead_partner_def)
    then show ?thesis using none assms(1) by (auto intro: mostly_keptI)
  qed
  then show "mostly_kept {i} IPC_ERR_DEAD_PARTNER s s'"
    "\<And>m j. m < 3 \<Longrightarrow> m \<noteq> i \<Longrightarrow> blocked_reason (tk s' m) \<noteq> Some (IpcReply (tid_of i) j)" by blast+
qed

section \<open>kill\_task\<close>

lemma dead_task_ok: "0 < i \<Longrightarrow> task_ok i (dead_task t)"
  by (simp add: task_ok_def dead_task_def reason_ok_def pending_ok_def)

lemma endpoints_to_close_less: "core D s \<Longrightarrow> j \<in> set (endpoints_to_close d s) \<Longrightarrow> j < 2"
proof -
  assume c: "core D s" and "j \<in> set (endpoints_to_close d s)"
  then obtain e where "e \<in> set (endpoints s)" "j = ep_id e" by (auto simp: endpoints_to_close_def)
  then obtain l where "l < 2" "j = ep_id (endpoints s ! l)" unfolding in_set_conv_nth coreD(3) [OF c] by metis
  then show "j < 2" using coreD(9) [OF c, of l] by (simp add: ep_ok_def)
qed

text \<open>What a kill does to the other tasks before the next one is chosen.\<close>

definition after_kill :: "usize \<Rightarrow> 'm KernelState \<Rightarrow> 'm KernelState \<Rightarrow> bool" where
  "after_kill i s s' \<longleftrightarrow> tk s' i = dead_task (tk s i)
     \<and> (\<forall>k < 3. k \<noteq> i \<longrightarrow> tk s' k = tk s k \<or> t_state (tk s k) = Blocked
          \<and> (tk s' k = rescued IPC_ERR_DEAD_PARTNER (tk s k) \<or> tk s' k = rescued IPC_ERR_ENDPOINT_CLOSED (tk s k)))
     \<and> (\<forall>k < 3. k \<noteq> i \<longrightarrow> (\<forall>j. blocked_reason (tk s k) = Some (IpcReply (tid_of i) j) \<longrightarrow> tk s' k \<noteq> tk s k))"

lemma kill_core:
  assumes "core {i} s" "ainv {} s" "at_most_current s" "tk s i = dead_task t"
  defines "s3 \<equiv> resolve_ipc_reply_waiters_for_dead_partner (tid_of i) (fold close_endpoint_and_rescue_waiters (endpoints_to_close (tid_of i) s) s)"
  shows "pre_kinv s3" "current_task s3 = current_task s" "tk s3 i = tk s i"
    "k < 3 \<Longrightarrow> k \<noteq> i \<Longrightarrow> tk s3 k = tk s k \<or> t_state (tk s k) = Blocked
       \<and> (tk s3 k = rescued IPC_ERR_DEAD_PARTNER (tk s k) \<or> tk s3 k = rescued IPC_ERR_ENDPOINT_CLOSED (tk s k))"
    "k < 3 \<Longrightarrow> k \<noteq> i \<Longrightarrow> blocked_reason (tk s3 k) \<noteq> Some (IpcReply (tid_of i) j)"
proof -
  note b = detached_bounds [OF assms(1), of i, simplified]
  define s2 where "s2 = fold close_endpoint_and_rescue_waiters (endpoints_to_close (tid_of i) s) s"
  have m2: "mostly_kept {i} IPC_ERR_ENDPOINT_CLOSED s s2"
    unfolding s2_def by (rule fold_close_mostly_kept [OF assms(1) endpoints_to_close_less [OF assms(1)]])
  note r = resolve_mostly_kept [OF mostly_keptD(1) [OF m2], unfolded s2_def, folded s3_def, folded s2_def]
  show "current_task s3 = current_task s" using mostly_keptD(4) [OF m2] mostly_keptD(4) [OF r(1)] by simp
  show dead: "tk s3 i = tk s i" using mostly_keptD(5) [OF m2 b(2)] mostly_keptD(5) [OF r(1) b(2)] by auto
  show none: "blocked_reason (tk s3 k) \<noteq> Some (IpcReply (tid_of i) j)" if "k < 3" "k \<noteq> i" for k j using r(2) [OF that] .
  show "tk s3 k = tk s k \<or> t_state (tk s k) = Blocked
       \<and> (tk s3 k = rescued IPC_ERR_DEAD_PARTNER (tk s k) \<or> tk s3 k = rescued IPC_ERR_ENDPOINT_CLOSED (tk s k))" if "k < 3" "k \<noteq> i"
  proof -
    have "t_state (rescued e t) = Ready" for e t by (simp add: rescued_def)
    then show ?thesis using mostly_keptD(5) [OF m2 that(1)] mostly_keptD(5) [OF r(1) that(1)] by auto
  qed
  have "core ({i} - {i}) s3"
  proof (rule core_attach_idle [OF mostly_keptD(1) [OF r(1)]])
    show "task_ok i (tk s3 i)" "t_state (tk s3 i) = Running \<or> t_state (tk s3 i) = Dead"
      using dead assms(4) dead_task_ok [OF b(1)] by (simp_all add: dead_task_def)
  qed (use none in \<open>auto simp: tid_of_def\<close>)
  then show "pre_kinv s3"
    using mostly_keptD(2,3) [OF m2] mostly_keptD(2,3) [OF r(1)] assms(2,3) by (simp add: pre_kinv_def)
qed

lemma maybe_halt_post:
  assumes "kinv s"
  shows "post False (maybe_halt_if_no_user_tasks E s) (\<lambda>s'. kinv s' \<and> tasks s' = tasks s \<and> endpoints s' = endpoints s)"
  using assms by (intro post_safeI) (auto simp: maybe_halt_if_no_user_tasks_def switch_to_kernel_def split: if_splits bind_splits)

lemma count_kill_post: "post False (count_kill reason s) (\<lambda>s'. \<exists>c. s' = s\<lparr>counters := c\<rparr>)"
  by (intro post_safeI) (auto simp: count_kill_def split: TaskKillReason.splits bind_splits)

definition kill_tail :: "'m Env \<Rightarrow> usize \<Rightarrow> TaskKillReason \<Rightarrow> TaskId \<Rightarrow> 'm KernelState \<Rightarrow> 'm KernelState option" where
  "kill_tail E idx reason dead_id s1 =
     (let s2 = fold close_endpoint_and_rescue_waiters (endpoints_to_close dead_id s1) s1;
          s3 = resolve_ipc_reply_waiters_for_dead_partner dead_id s2;
          s4 = push_event (TaskStateChanged dead_id Dead) (push_event (TaskKilled dead_id reason) s3)
      in do {
        s5 \<leftarrow> (if idx = current_task s4 then schedule_next_task E s4 else Some s4);
        maybe_halt_if_no_user_tasks E s5
      })"

lemma kill_tail_post:
  assumes "kinv s" "core {i} s1" "ainv {} s1" "at_most_current s1" "tk s1 i = dead_task (tk s i)"
    "\<And>k. k \<noteq> i \<Longrightarrow> tk s1 k = tk s k" "current_task s1 = current_task s"
  shows "post False (kill_tail E i reason (tid_of i) s1) (\<lambda>s'. kinv s' \<and> (\<exists>s3. after_kill i s s3 \<and> kept s3 s'))"
proof -
  define s3 where "s3 = resolve_ipc_reply_waiters_for_dead_partner (tid_of i) (fold close_endpoint_and_rescue_waiters (endpoints_to_close (tid_of i) s1) s1)"
  define s4 where "s4 = push_event (TaskStateChanged (tid_of i) Dead) (push_event (TaskKilled (tid_of i) reason) s3)"
  note kc = kill_core [OF assms(2-5), folded s3_def]
  have kc4: "tk s3 k = tk s k \<or> t_state (tk s k) = Blocked
      \<and> (tk s3 k = rescued IPC_ERR_DEAD_PARTNER (tk s k) \<or> tk s3 k = rescued IPC_ERR_ENDPOINT_CLOSED (tk s k))" if "k < 3" "k \<noteq> i" for k
    using kc(4) [OF that] assms(6) [OF that(2)] by simp
  have "tk s3 k \<noteq> tk s k" if "k < 3" "k \<noteq> i" "blocked_reason (tk s k) = Some (IpcReply (tid_of i) j)" for k j
    using kc(5) [OF that(1,2)] that(3) by metis
  then have ak: "after_kill i s s3" unfolding after_kill_def using kc(3) assms(5) kc4 by auto
  have k4: "kept s3 s'" if "kept s4 s'" for s' :: "'a KernelState" using that by (simp add: s4_def kept_def)
  have s5: "post False (if i = current_task s4 then schedule_next_task E s4 else Some s4) (\<lambda>s5. kinv s5 \<and> kept s3 s5)"
  proof (cases "i = current_task s4")
    case True
    have "pre_kinv s4" using kc(1) by (simp add: s4_def)
    from schedule_post [OF this, of False E] True show ?thesis by (auto elim!: post_mono intro: k4)
  next
    case False
    let ?c = "current_task s"
    have c: "?c \<noteq> i" "?c < 3" "t_state (tk s ?c) = Running" using False kc(2) assms(7) kinvD(4,5) [OF assms(1)] by (auto simp: s4_def)
    then have "t_state (tk s3 ?c) = Running" using kc4 [OF c(2,1)] by auto
    then have "kinv s4" using kc(1,2) assms(7) by (simp add: s4_def kinv_def)
    moreover have "kept s4 s4" by (auto simp: kept_def)
    ultimately show ?thesis using False k4 by simp
  qed
  have kt: "kept s3 s'" if "kept s3 s5" "tasks s' = tasks s5" "endpoints s' = endpoints s5" for s5 s' :: "'a KernelState"
    using that by (simp add: kept_def)
  have "post False (do { s5 \<leftarrow> (if i = current_task s4 then schedule_next_task E s4 else Some s4); maybe_halt_if_no_user_tasks E s5 })
      (\<lambda>s'. kinv s' \<and> (\<exists>s3. after_kill i s s3 \<and> kept s3 s'))"
    by (rule post_bindI [OF s5], rule post_mono [OF maybe_halt_post]) (use ak kt in auto)
  then show ?thesis by (simp only: kill_tail_def Let_def s3_def [symmetric] s4_def [symmetric])
qed

lemma kill_task_post:
  assumes "kinv s" "0 < i" "i < 3"
  shows "post False (kill_task E i reason s) (\<lambda>s'. kinv s' \<and> (\<exists>s3. after_kill i s s3 \<and> kept s3 s'))"
proof -
  let ?P = "\<lambda>s'. kinv s' \<and> (\<exists>s3. after_kill i s s3 \<and> kept s3 s')"
  have body: "post False (kill_task E i reason s) ?P" if s0: "count_kill reason s = Some s0" "s0 = s\<lparr>counters := c\<rparr>" for s0 c
  proof -
    have k0: "core {} s0" "ainv {} s0" "at_most_current s0" "tasks s0 = tasks s" "current_task s0 = current_task s"
      using kinvD(1-3) [OF assms(1)] s0(2) by simp_all
    note d = detach_spec [OF k0(1-3) assms(2,3)]
    have id: "t_id (tk s0 i) = tid_of i" "address_space_id (tk s0 i) = i" "num_tasks s0 = 3"
      using coreD(1) [OF k0(1)] coreD(5,6) [OF k0(1) assms(3)] by (simp_all add: tid_of_def)
    have deadi: "t_state (tk (detach_task i s0) i) = Dead" using d(4) [of i] by (simp add: dead_task_def)
    have "post False (cleanup_user_mappings_of_address_space E i (detach_task i s0))
        (\<lambda>s1. ainv {} s1 \<and> (\<exists>a pm h. s1 = (detach_task i s0)\<lparr>address_spaces := a, phys_mem := pm, hw := h\<rparr>))"
      using cleanup_post [OF d(2) _ assms(2,3) deadi] d(7) id(3) by simp
    then have "post False (do { s1 \<leftarrow> cleanup_user_mappings_of_address_space E i (detach_task i s0); kill_tail E i reason (tid_of i) s1 }) ?P"
    proof (rule post_bindI, elim conjE exE)
      fix s1 a pm h assume a1: "ainv {} s1" and s1: "s1 = (detach_task i s0)\<lparr>address_spaces := a, phys_mem := pm, hw := h\<rparr>"
      have c1: "core {i} s1" "at_most_current s1" "tk s1 i = dead_task (tk s i)" "current_task s1 = current_task s"
        using d(1,3,5) d(4) [of i] k0(4,5) s1 by simp_all
      have t1: "tk s1 k = tk s k" if "k \<noteq> i" for k using d(4) [of k] that k0(4) s1 by simp
      show "post False (kill_tail E i reason (tid_of i) s1) ?P"
        by (rule kill_tail_post [OF assms(1) c1(1) a1 c1(2,3) t1 c1(4)])
    qed
    then show ?thesis using s0(1) id assms(3) by (simp add: kill_task_def kill_tail_def Let_def)
  qed
  then show ?thesis
    using count_kill_post [of reason s] by (cases "count_kill reason s") (auto simp: kill_task_def)
qed

end
