(* ===== verification/Inv_Tick.thy ===== *)
theory Inv_Tick
  imports Inv_Kill
begin

text \<open>
  System calls, the user programs, the memory demo and the tick keep the invariant.
\<close>

section \<open>Memory system calls\<close>

lemma as_apply_wf:
  assumes "as_wf a" "as_apply a act = Inr a'"
  shows "as_wf a'" "kind a' = kind a" "root_page_frame a' = root_page_frame a"
proof -
  show "as_wf a'"
  proof (cases act)
    case (Map p f g)
    then have "as_insert a p (f, g) = Inr a'" using assms(2) by (simp add: as_insert_def)
    then show ?thesis using as_map.insert_ok [OF assms(1), of p "(f, g)"] as_map.insert_Inr_iff [OF assms(1)] by (metis sum.inject(2))
  next
    case (Unmap p)
    then have d: "as_delete a p = Inr a'" using assms(2) by (simp add: as_delete_def)
    then have "as_lookup a p \<noteq> None" using as_map.delete_missing [OF assms(1)] by fastforce
    then show ?thesis using as_map.delete_ok [OF assms(1)] d by (metis sum.inject(2))
  qed
  show "kind a' = kind a" "root_page_frame a' = root_page_frame a"
    using assms(2) by (cases act; auto split: if_splits option.splits)+
qed

definition act_ok :: "usize \<Rightarrow> MemAction \<Rightarrow> bool" where
  "act_ok i act \<longleftrightarrow> i = 0 \<or> (case act of Map p f g \<Rightarrow> p = user_page \<and> g = user_flags | Unmap p \<Rightarrow> True)"

lemma as_ok_apply:
  assumes "as_ok i a" "as_apply a act = Inr a'" "act_ok i act"
  shows "as_ok i a'"
proof -
  have m: "m \<in> set (each_mapping a) \<or> (\<exists>p f g. act = Map p f g \<and> m_page m = p \<and> m_flags m = g)" if "m \<in> set (each_mapping a')" for m
  proof (cases act)
    case (Map p f g)
    then obtain l where "mappings a' = (mappings a)[l := Some \<lparr>m_page = p, m_frame = f, m_flags = g\<rparr>]"
      using assms(2) by (auto split: if_splits option.splits)
    then have "set (mappings a') \<subseteq> insert (Some \<lparr>m_page = p, m_frame = f, m_flags = g\<rparr>) (set (mappings a))"
      using set_update_subset_insert by metis
    then show ?thesis using that Map unfolding each_mapping_entries set_some_entries by auto
  next
    case (Unmap p)
    then obtain l where "mappings a' = (mappings a)[l := None]" using assms(2) by (auto split: option.splits)
    then have "set (mappings a') \<subseteq> insert None (set (mappings a))" using set_update_subset_insert by metis
    then show ?thesis using that unfolding each_mapping_entries set_some_entries by blast
  qed
  have wf: "as_wf a" using assms(1) by (simp add: as_ok_def)
  have "m_page m = user_page \<and> m_flags m = user_flags" if "0 < i" "m \<in> set (each_mapping a')" for m
    using m [OF that(2)] that(1) assms(1,3) by (auto simp: as_ok_def act_ok_def)
  then show ?thesis using as_apply_wf [OF wf assms(2)] assms(1) by (simp add: as_ok_def)
qed

lemma ainv_upd_aspace:
  assumes "ainv {} s" "i < 3" "as_ok i a" "t_state (tk s i) \<noteq> Dead"
  shows "ainv {} (upd_aspace i a s)"
  using assms by (auto simp: ainv_def upd_aspace_def nth_list_update)

lemma kinv_upd_aspace:
  assumes "kinv s" "i < 3" "as_ok i a" "t_state (tk s i) \<noteq> Dead"
  shows "kinv (upd_aspace i a s)"
proof -
  have f: "tasks (upd_aspace i a s) = tasks s" "current_task (upd_aspace i a s) = current_task s"
      "core {} (upd_aspace i a s) = core {} s" "at_most_current (upd_aspace i a s) = at_most_current s"
    by (simp_all add: upd_aspace_def)
  show ?thesis using kinvD [OF assms(1)] ainv_upd_aspace [OF kinvD(2) [OF assms(1)] assms(2-4)] by (intro kinvI) (simp_all add: f)
qed

lemma upd_aspace_fields [simp]:
  "tasks (upd_aspace i a s) = tasks s" "current_task (upd_aspace i a s) = current_task s" "endpoints (upd_aspace i a s) = endpoints s"
  by (simp_all add: upd_aspace_def)

text \<open>Operations that keep the invariant, the tasks and the current task.\<close>

definition same_tasks :: "'m KernelState \<Rightarrow> 'm KernelState \<Rightarrow> bool" where
  "same_tasks s s' \<longleftrightarrow> kinv s' \<and> tasks s' = tasks s \<and> current_task s' = current_task s \<and> endpoints s' = endpoints s"

lemma demo_frame_post:
  assumes "kinv s"
  shows "post False (get_or_alloc_demo_frame E i s) (\<lambda>(r, s'). same_tasks s s')"
proof (rule post_safeI)
  fix x assume "get_or_alloc_demo_frame E i s = Some x"
  moreover have "kinv ((push_event FrameAllocated (s\<lparr>phys_mem := pm\<rparr>))\<lparr>mem_demo_frame := (mem_demo_frame s)[i := f]\<rparr>) = kinv s" for pm f
    by (rule kinv_cong(2)) simp_all
  ultimately show "case x of (r, s') \<Rightarrow> same_tasks s s'"
    using assms by (auto simp: get_or_alloc_demo_frame_def same_tasks_def split: if_splits option.splits bind_splits prod.splits)
qed

lemma arch_apply_post:
  assumes "kinv s"
  shows "post False (arch_apply E i act s) (\<lambda>(r, s'). same_tasks s s')"
  using assms by (intro post_safeI) (auto simp: arch_apply_def same_tasks_def split: AddressSpaceKind.splits option.splits bind_splits prod.splits)

lemma logical_then_arch_post:
  assumes "kinv s" "i < 3" "t_state (tk s i) \<noteq> Dead" "act_ok i act"
  shows "post False (logical_then_arch E i act s) (\<lambda>(r, s'). same_tasks s s')"
proof (cases "as_apply (address_spaces s ! i) act")
  case (Inl err)
  then show ?thesis using assms(1) by (simp add: logical_then_arch_def same_tasks_def)
next
  case (Inr a')
  have "as_ok i a'" using as_ok_apply [OF ainvD(2) [OF kinvD(2) [OF assms(1)] assms(2)] Inr assms(4)] .
  then have k: "kinv (upd_aspace i a' s)" using kinv_upd_aspace [OF assms(1,2) _ assms(3)] by simp
  show ?thesis using Inr post_mono [OF arch_apply_post [OF k, of E i act]]
    by (auto simp: logical_then_arch_def same_tasks_def)
qed

lemma page_calls_post:
  assumes "kinv s" "pending_ok (Some (SysPageMap page flags))"
  shows "post False (syscall_page_map E (current_task s) page flags s) (\<lambda>(r, s'). same_tasks s s')"
    "post False (syscall_page_unmap E (current_task s) page' s) (\<lambda>(r, s'). same_tasks s s')"
proof -
  note k = kinvD [OF assms(1)] and c = coreD(1) [OF kinvD(1) [OF assms(1)]] coreD(6) [OF kinvD(1,4) [OF assms(1)]]
  have d: "t_state (tk s (current_task s)) \<noteq> Dead" using k(5) by simp
  show "post False (syscall_page_unmap E (current_task s) page' s) (\<lambda>(r, s'). same_tasks s s')"
    using logical_then_arch_post [OF assms(1) k(4) d, of "Unmap page'" E] c k(4)
    by (simp add: syscall_page_unmap_def act_ok_def)
  have "post False (case r of None \<Rightarrow> Some (SYSCALL_ERR_ARCH_FAILED, s1)
        | Some frame \<Rightarrow> logical_then_arch E (current_task s) (Map page frame flags) s1) (\<lambda>(r, s'). same_tasks s s')"
    if "same_tasks s s1" for r s1
  proof (cases r)
    case None
    then show ?thesis using that by simp
  next
    case (Some frame)
    have s1: "kinv s1" "tasks s1 = tasks s" "current_task s1 = current_task s" using that by (simp_all add: same_tasks_def)
    show ?thesis
      using Some post_mono [OF logical_then_arch_post [OF s1(1) k(4), of "Map page frame flags" E]] d assms(2) that
      by (auto simp: act_ok_def pending_ok_def s1 same_tasks_def)
  qed
  then show "post False (syscall_page_map E (current_task s) page flags s) (\<lambda>(r, s'). same_tasks s s')"
    using c(1) k(4) unfolding syscall_page_map_def Let_def c(2)
    by (auto intro!: post_bindI [OF demo_frame_post [OF assms(1)]])
qed


section \<open>Dispatch\<close>

lemma same_tasksD: "same_tasks s s' \<Longrightarrow> kinv s'"
  by (simp add: same_tasks_def)

lemma set_ret_kinv:
  assumes "kinv s"
  shows "kinv (set_last_syscall_ret_for_current r s)"
proof -
  note k = kinvD [OF assms]
  have "task_ok (current_task s) ((tk s (current_task s))\<lparr>last_syscall_ret := Some r, last_syscall_ret_unread := True\<rparr>)"
    using coreD(7) [OF k(1,4)] by (simp add: task_ok_def)
  with kinv_upd_local(2) [OF k(4) _ _ assms] show ?thesis
    using assms by (simp add: set_last_syscall_ret_for_current_def Let_def local_upd_def)
qed

lemma tid_three: "i < 3 \<Longrightarrow> (of_nat (Suc i) :: u64) = 3 \<Longrightarrow> i = 2"
  by (auto simp: numeral_3_eq_3 less_Suc_eq)

lemma after_recv_post:
  assumes "kinv s" "c < 3" "tid = of_nat (Suc c)"
  shows "post False (on_after_ipc_recv E c tid ep s) kinv"
proof (cases "tid = 3")
  case True
  then have "c = 2" using tid_three assms(2,3) by simp
  then show ?thesis
    using post_mono [OF kill_task_post [of "s\<lparr>hw := (hw s)\<lparr>DEAD_PARTNER_FIRED := True\<rparr>\<rparr>" c E]] assms(1)
    by (auto simp: on_after_ipc_recv_def demo_kill_task_def)
qed (use assms(1) in \<open>simp add: on_after_ipc_recv_def\<close>)

lemma handle_syscall_post:
  assumes "kinv s" "\<not> ring3_mailbox E" "pending_ok (Some sc)"
  shows "post False (handle_syscall E sc s) kinv"
proof -
  note k = kinvD [OF assms(1)]
  let ?s = "push_event (SyscallHandled (t_id (tk s (current_task s)))) s"
  have ks: "kinv ?s" using assms(1) by simp
  have id: "t_id (tk s (current_task s)) = of_nat (Suc (current_task s))" using coreD(5) [OF k(1,4)] .
  have map: "post False (syscall_page_map E (current_task s) page flags ?s) (\<lambda>(r, s'). same_tasks ?s s')"
    if "pending_ok (Some (SysPageMap page flags))" for page flags
    using page_calls_post(1) [OF ks that] by simp
  have unmap: "post False (syscall_page_unmap E (current_task s) page ?s) (\<lambda>(r, s'). same_tasks ?s s')" for page
    using page_calls_post(2) [OF ks, of user_page user_flags] by (simp add: pending_ok_def)
  have "post False (case sc of
            SysIpcRecv ep \<Rightarrow> do { s2 \<leftarrow> ipc_recv E ep ?s; on_after_ipc_recv E (current_task s) (t_id (tk s (current_task s))) ep s2 }
          | SysIpcSend ep msg \<Rightarrow> ipc_send E ep msg ?s
          | SysIpcReply ep msg \<Rightarrow> ipc_reply ep msg ?s
          | SysPageMap page flags \<Rightarrow> do {
              (ret, s2) \<leftarrow> syscall_page_map E (current_task s) page flags ?s;
              Some (set_last_syscall_ret_for_current ret s2) }
          | SysPageUnmap page \<Rightarrow> do {
              (ret, s2) \<leftarrow> syscall_page_unmap E (current_task s) page ?s;
              Some (set_last_syscall_ret_for_current ret s2) }) kinv"
  proof (cases sc)
    case (SysIpcRecv ep)
    then show ?thesis using after_recv_post [OF _ k(4) id]
      by (auto intro!: post_bindI [OF ipc_recv_post [OF ks assms(2)]])
  next
    case (SysIpcSend ep msg)
    then show ?thesis using post_mono [OF ipc_send_post [OF ks assms(2), of False]] by auto
  next
    case (SysIpcReply ep msg)
    then show ?thesis using post_mono [OF ipc_reply_post [OF ks, of False]] by auto
  next
    case (SysPageMap page flags)
    then show ?thesis using assms(3) by (auto intro!: post_bindI [OF map] set_ret_kinv dest: same_tasksD)
  next
    case (SysPageUnmap page)
    then show ?thesis by (auto intro!: post_bindI [OF unmap] set_ret_kinv dest: same_tasksD)
  qed
  then show ?thesis using assms(1) by (simp add: handle_syscall_def Let_def)
qed

lemma kinv_pending:
  assumes "kinv s" "i < 3" "pending_ok p" "i = 0 \<longrightarrow> p = None" "t_state (tk s i) = Dead \<longrightarrow> p = None"
  shows "kinv (upd_task i (\<lambda>t. t\<lparr>pending_syscall := p\<rparr>) s)"
proof (rule kinv_upd_local(2) [OF assms(2) _ _ assms(1)])
  show "task_ok i ((tk s i)\<lparr>pending_syscall := p\<rparr>)"
    using coreD(7) [OF kinvD(1) [OF assms(1)] assms(2)] assms(3-5) by (simp add: task_ok_def)
qed simp

lemma handle_pending_post:
  assumes "kinv s" "\<not> ring3_mailbox E"
  shows "post False (handle_pending_syscall_if_any E s) kinv"
proof -
  note k = kinvD [OF assms(1)]
  have ok: "pending_ok (pending_syscall (tk s (current_task s)))" using coreD(7) [OF k(1,4)] by (simp add: task_ok_def)
  have "kinv (upd_task (current_task s) (\<lambda>t. t\<lparr>pending_syscall := None\<rparr>) s)"
    using kinv_pending [OF assms(1) k(4), of None] by (simp add: pending_ok_def)
  then show ?thesis
    using assms k(5) ok handle_syscall_post [OF _ assms(2)]
    by (auto simp: handle_pending_syscall_if_any_def Let_def split: option.split)
qed


section \<open>User programs\<close>

lemma kinv_local:
  assumes "kinv s" "i < 3" "keeps f (tk s i)"
  shows "kinv (upd_task i f s)"
proof -
  have "task_ok i (tk s i)" using coreD(7) [OF kinvD(1) [OF assms(1)] assms(2)] by simp
  from task_ok_keeps [OF this assms(3)] kinv_upd_local(2) [OF assms(2) _ _ assms(1), of f] assms(3)
  show ?thesis by (simp add: keeps_def)
qed

lemma kinv_set_pending:
  assumes "kinv s" "0 < i" "i < 3" "t_state (tk s i) \<noteq> Dead" "pending_ok (Some sc)"
  shows "kinv (set_pending i sc s)"
  using kinv_pending [OF assms(1,3,5)] assms(2,4) by (simp add: set_pending_def)

lemma kinv_clear_reply:
  assumes "kinv s" "i < 3" "t_state (tk s i) \<noteq> Dead"
  shows "kinv (clear_reply i s)" "t_state (tk (clear_reply i s) i) = t_state (tk s i)"
  using kinv_local [OF assms(1,2), of "\<lambda>t. t\<lparr>last_reply := None\<rparr>"] assms coreD(2) [OF kinvD(1) [OF assms(1)]]
  by (simp_all add: clear_reply_def keeps_def)

lemma take_unread_kinv:
  assumes "kinv s" "i < 3"
  shows "kinv (snd (take_unread_last_syscall_ret i s))"
    "t_state (tk (snd (take_unread_last_syscall_ret i s)) i) = t_state (tk s i)"
  using kinv_local [OF assms, of "\<lambda>t. t\<lparr>last_syscall_ret_unread := False, last_syscall_ret := None\<rparr>"] assms coreD(2) [OF kinvD(1) [OF assms(1)]]
  by (simp_all add: take_unread_last_syscall_ret_def keeps_def local_upd_def)

lemma user_step_kinv:
  assumes "kinv s" "i < 3"
  shows "kinv (user_step_issue_syscall E i s)"
proof (cases "t_state (tk s i) = Dead \<or> t_state (tk s i) = Blocked")
  case True
  then show ?thesis using assms(1) by (auto simp: user_step_issue_syscall_def)
next
  case False
  define s1 where "s1 = snd (take_unread_last_syscall_ret i s)"
  have k1: "kinv s1" "t_state (tk s1 i) \<noteq> Dead" using take_unread_kinv [OF assms] assms False by (simp_all add: s1_def)
  note cr = kinv_clear_reply [OF k1(1) assms(2) k1(2)]
  have ipc: "pending_ok (Some (SysIpcSend ep m))" "pending_ok (Some (SysIpcReply ep m))" "pending_ok (Some (SysIpcRecv ep))" for ep m
    by (simp_all add: pending_ok_def)
  have "kinv (user_step_sender E i s1)" if "i = 1"
    using cr k1(2) that kinv_set_pending [of "clear_reply i s1" i] kinv_set_pending [of "(clear_reply i s1)\<lparr>demo_sent_by_task1 := True\<rparr>" i] ipc
    by (simp add: user_step_sender_def Let_def)
  moreover have "kinv (user_step_server i s1)" if "i = 2"
  proof -
    have m: "kinv (upd_task i (\<lambda>t. t\<lparr>last_msg := None\<rparr>) s1)" using kinv_local [OF k1(1) assms(2), of "\<lambda>t. t\<lparr>last_msg := None\<rparr>"] k1(2) by (simp add: keeps_def)
    show ?thesis using kinv_set_pending [OF m] kinv_set_pending [OF k1(1)] k1 that ipc coreD(2) [OF kinvD(1) [OF k1(1)]]
      by (simp add: user_step_server_def split: option.split)
  qed
  moreover have "i = 0 \<or> i = 1 \<or> i = 2" using assms(2) by linarith
  ultimately show ?thesis
    using assms cr(1) False
    by (auto simp: user_step_issue_syscall_def s1_def [symmetric] Let_def TASK0_INDEX_def TASK1_INDEX_def)
qed

section \<open>The memory demo\<close>

lemma kinv_set_stage [simp]: "kinv (set_stage i v s) = kinv s"
  by (rule kinv_cong(2)) (simp_all add: set_stage_def)

lemma user_page_flags: "demo_page_for_task 1 = user_page" "demo_page_for_task 2 = user_page" "or PRESENT (or WRITABLE USER) = user_flags"
  by (simp_all add: demo_page_for_task_def user_page_def user_flags_def TASK0_INDEX_def TASK1_INDEX_def TASK2_INDEX_def or.assoc)

lemma kill_current_pf_post:
  assumes "kinv s" "0 < current_task s"
  shows "post False (kill_current_task_due_to_user_pf E pf s) kinv"
proof (rule post_safeI)
  fix s' assume "kill_current_task_due_to_user_pf E pf s = Some s'"
  moreover have "kinv s'" if "kill_task E (current_task s) r s = Some s'" for r
    using post_safeD [OF kill_task_post [OF assms kinvD(4) [OF assms(1)]] that] by blast
  ultimately show "kinv s'"
    using assms(1) by (auto simp: kill_current_task_due_to_user_pf_def Let_def split: if_splits bind_splits)
qed

lemma demo_rw_post: "post False (demo_guarded_rw E root va v s) (\<lambda>(r, s'). \<exists>h. s' = s\<lparr>hw := h\<rparr>)"
  by (intro post_safeI) (auto simp: demo_guarded_rw_def split: bind_splits prod.splits)

lemma pf_branch_post:
  assumes "kinv s" "0 < current_task s" "s1 = s\<lparr>hw := h\<rparr>"
  shows "post False (do { s2 \<leftarrow> kill_current_task_due_to_user_pf E pf s1; Some (set_stage i v s2) }) kinv"
  using assms by (intro post_bindI [OF kill_current_pf_post]) simp_all

lemma mem_demo_stage_posts:
  assumes "kinv s" "0 < current_task s"
  shows "post False (mem_demo_user_stage1 E i root va s) kinv" "post False (mem_demo_user_stage3 E i root va s) kinv"
proof -
  have pf: "post False (do { s2 \<leftarrow> kill_current_task_due_to_user_pf E pf (s\<lparr>hw := h\<rparr>); Some (set_stage i v s2) }) kinv" for pf h v
    using pf_branch_post [OF assms refl] .
  show "post False (mem_demo_user_stage1 E i root va s) kinv" unfolding mem_demo_user_stage1_def
    by (rule post_bindI [OF demo_rw_post]) (use pf assms(1) in \<open>auto simp: post_bind split: sum.splits intro: post_safeI\<close>)
  show "post False (mem_demo_user_stage3 E i root va s) kinv" unfolding mem_demo_user_stage3_def
    using assms(1) by (simp, intro impI post_bindI [OF demo_rw_post]) (use pf assms(1) in \<open>auto split: sum.splits\<close>)
qed

lemma mem_demo_user_post:
  assumes "kinv s" "i = current_task s" "0 < i"
  shows "post False (mem_demo_user E i a user_flags s) kinv"
proof -
  note k = kinvD [OF assms(1)]
  have i: "i < 3" "t_state (tk s i) \<noteq> Dead" "i = 1 \<or> i = 2" using k(4,5) assms(2,3) by auto
  have pages: "demo_page_for_task i = user_page" using i(3) user_page_flags by auto
  have "kinv (set_pending i (SysPageMap user_page user_flags) s)" "kinv (set_pending i (SysPageUnmap user_page) s)"
    using kinv_set_pending [OF assms(1,3) i(1,2)] by (simp_all add: pending_ok_def)
  then show ?thesis
    unfolding mem_demo_user_def Let_def pages
    using mem_demo_stage_posts [OF assms(1)] assms by (intro post_bindI [where Q = "\<lambda>_. True"]) (auto intro: post_safeI)
qed

lemma mem_demo_apply_post:
  assumes "kinv s" "t_state (tk s 0) \<noteq> Dead"
  shows "post False (mem_demo_kernel_apply E i 0 act s) kinv"
proof (rule post_safeI)
  fix s' assume e: "mem_demo_kernel_apply E i 0 act s = Some s'"
  then obtain a' where a: "as_apply (address_spaces s ! 0) act = Inr a'"
    by (auto simp: mem_demo_kernel_apply_def nth_chk_def split: bind_splits sum.splits if_splits)
  have "as_ok 0 a'" using as_ok_apply [OF ainvD(2) [OF kinvD(2) [OF assms(1)]] a] by (simp add: act_ok_def)
  then have k: "kinv (upd_aspace 0 a' s)" using kinv_upd_aspace [OF assms(1)] assms(2) by simp
  have "kinv (s1\<lparr>phys_mem := pm, hw := h, mem_demo_mapped := (mem_demo_mapped s1)[i := b]\<rparr>) = kinv s1" for s1 :: "'a KernelState" and pm h b
    by (rule kinv_cong(2)) simp_all
  with e a k show "kinv s'"
    by (auto simp: mem_demo_kernel_apply_def Let_def nth_chk_def split: bind_splits sum.splits prod.splits if_splits)
qed

lemma mem_demo_kernel_post:
  assumes "kinv s" "t_state (tk s 0) \<noteq> Dead"
  shows "post False (mem_demo_kernel E i 0 flags s) kinv"
proof -
  have "post False (case r of None \<Rightarrow> Some (s1\<lparr>should_halt := True\<rparr>)
      | Some frame \<Rightarrow> mem_demo_kernel_apply E i 0 (Map page frame flags) s1) kinv" if "same_tasks s s1" for r s1 page
    using that assms(2) mem_demo_apply_post [of s1] by (auto simp: same_tasks_def split: option.split)
  then show ?thesis
    using mem_demo_apply_post [OF assms]
    by (auto simp: mem_demo_kernel_def Let_def intro!: post_bindI [OF demo_frame_post [OF assms(1)]])
qed

lemma do_mem_demo_normal_post:
  assumes "kinv s"
  shows "post False (do_mem_demo_normal E s) kinv"
proof -
  note k = kinvD [OF assms]
  have len: "length (tasks s) = 3" "address_space_id (tk s (current_task s)) = current_task s"
    using coreD(2) [OF k(1)] coreD(6) [OF k(1,4)] by simp_all
  have fl: "or PRESENT (or WRITABLE USER) = user_flags" by (rule user_page_flags(3))
  show ?thesis
    using assms k(4,5) len mem_demo_user_post [OF assms refl] mem_demo_kernel_post [OF assms]
    by (auto simp: do_mem_demo_normal_def Let_def TASK0_INDEX_def fl)
qed

lemma evil_pending:
  assumes "kinv s" "evil_guard s = None"
  shows "kinv (set_pending (current_task s) (SysPageMap (demo_page_for_task (current_task s)) user_flags) s)"
    "kinv (set_pending (current_task s) (SysPageUnmap (demo_page_for_task (current_task s))) s)"
proof -
  have c: "current_task s = 1" "t_state (tk s 1) \<noteq> Dead"
    using assms(2) kinvD(4,5) [OF assms(1)] by (auto simp: evil_guard_def Let_def TASK1_INDEX_def split: if_splits)
  show "kinv (set_pending (current_task s) (SysPageMap (demo_page_for_task (current_task s)) user_flags) s)"
    "kinv (set_pending (current_task s) (SysPageUnmap (demo_page_for_task (current_task s))) s)"
    using c kinv_set_pending [OF assms(1), of 1] user_page_flags(1) by (simp_all add: pending_ok_def)
qed

lemma on_mem_demo_kinv:
  assumes "kinv s"
  shows "kinv (snd (on_mem_demo E s))"
  using assms evil_pending [OF assms] user_page_flags(3)
  by (auto simp: on_mem_demo_def do_evil_double_map_def do_evil_unmap_not_mapped_def Let_def split: option.split)

lemma do_mem_demo_post:
  assumes "kinv s"
  shows "post False (do_mem_demo E s) kinv"
  using on_mem_demo_kinv [OF assms, of E] do_mem_demo_normal_post [of "snd (on_mem_demo E s)" E]
  by (cases "on_mem_demo E s") (simp add: do_mem_demo_def)

section \<open>The tick\<close>

lemma wake_sleeper_id: "core D s \<Longrightarrow> maybe_wake_one_sleep_task s = s"
  using coreD(4) [of D s] by (simp add: maybe_wake_one_sleep_task_def)

lemma tick_action_post:
  assumes "kinv s"
  shows "post False (tick_action E act s) kinv"
proof (cases act)
  case ActUpdateTimer
  have "maybe_wake_one_sleep_task (push_event (TimerUpdated n) (s\<lparr>time_ticks := n\<rparr>)) = push_event (TimerUpdated n) (s\<lparr>time_ticks := n\<rparr>)" for n
    using kinvD(1) [OF assms] by (intro wake_sleeper_id [of "{}"]) simp
  then show ?thesis using assms ActUpdateTimer by (simp add: post_bind post_chk_inc)
next
  case ActAllocateFrame
  then show ?thesis using assms by (intro post_safeI) (auto split: bind_splits option.splits prod.splits)
qed (use assms do_mem_demo_post [OF assms] in simp_all)

lemma runtime_post:
  assumes "kinv s" "i < 3"
  shows "post False (update_runtime_for i s) (\<lambda>s'. kinv s' \<and> current_task s' = current_task s)"
  using kinv_local [OF assms, of "\<lambda>t. t\<lparr>runtime_ticks := n\<rparr>" for n] assms
  by (auto simp: update_runtime_for_def post_bind post_chk_inc keeps_def local_upd_def)

lemma time_slice_post:
  assumes "kinv s" "i < 3"
  shows "post False (update_time_slice_for_and_maybe_schedule E i s) kinv"
proof -
  have u: "kinv (upd_task i (\<lambda>t. t\<lparr>time_slice_used := n\<rparr>) s)" if "kinv s" for n and s :: "'a KernelState"
    using kinv_local [OF that assms(2), of "\<lambda>t. t\<lparr>time_slice_used := n\<rparr>"] by (simp add: keeps_def local_upd_def)
  have "post False (schedule_next_task E (push_event ev (upd_task i (\<lambda>t. t\<lparr>time_slice_used := n\<rparr>) s))) kinv" for n ev
    using post_mono [OF schedule_post [of "push_event ev (upd_task i (\<lambda>t. t\<lparr>time_slice_used := n\<rparr>) s)" False E]] kinvD(6) [OF u [OF assms(1)]] by auto
  then show ?thesis
    using assms(1) u by (auto simp: update_time_slice_for_and_maybe_schedule_def post_bind post_chk_inc Let_def)
qed

lemma tick_tail_post:
  assumes "kinv s" "i < 3" "\<not> ring3_mailbox E"
  shows "post False (tick_tail E i act s) kinv"
proof -
  let ?s1 = "if ring3_mailbox_loop E \<and> i = TASK1_INDEX then s else user_step_issue_syscall E i s"
  have k1: "kinv ?s1" using assms(1) user_step_kinv [OF assms(1,2)] by simp
  have k2: "post False (if i = current_task ?s1 then handle_pending_syscall_if_any E ?s1 else Some ?s1) kinv"
    using k1 handle_pending_post [OF k1 assms(3)] by simp
  have k5: "post False (do { s5 \<leftarrow> maybe_halt_if_no_user_tasks E (s4\<lparr>activity := act\<rparr>); debug_check_invariants s5; Some s5 }) kinv"
    if "kinv s4" for s4
    using that by (intro post_bindI [OF maybe_halt_post]) (auto simp: post_bind intro: post_safeI)
  show ?thesis
    unfolding tick_tail_def Let_def
  proof (rule post_bindI [OF k2])
    fix s2 :: "'a KernelState" assume k: "kinv s2"
    show "post False (do { s3 \<leftarrow> update_runtime_for i s2;
        s4 \<leftarrow> (if (i = current_task s3 \<and> t_state (tasks s3 ! i) = Running)
               \<and> \<not> (if i = current_task s3 \<and> t_state (tasks s3 ! i) = Running then maybe_block_task i s3 else False)
              then update_time_slice_for_and_maybe_schedule E i s3 else Some s3);
        s5 \<leftarrow> maybe_halt_if_no_user_tasks E (s4\<lparr>activity := act\<rparr>); debug_check_invariants s5; Some s5 }) kinv"
      by (rule post_bindI [OF runtime_post [OF k assms(2)]], rule post_bindI [where Q = kinv])
        (use time_slice_post [OF _ assms(2)] k5 in \<open>auto simp: post_if\<close>)
  qed
qed

lemma tick_post:
  assumes "kinv s" "\<not> ring3_mailbox E"
  shows "post False (tick E s) kinv"
proof -
  have dead: "post False (do {
      s4 \<leftarrow> (if current_task (s2\<lparr>activity := a\<rparr>) < num_tasks (s2\<lparr>activity := a\<rparr>) \<and> t_state (tasks (s2\<lparr>activity := a\<rparr>) ! current_task (s2\<lparr>activity := a\<rparr>)) \<noteq> Running
            then schedule_next_task E (s2\<lparr>activity := a\<rparr>) else Some (s2\<lparr>activity := a\<rparr>));
      debug_check_invariants s4; Some s4 }) kinv" if "kinv s2" for s2 a
    using that kinvD(5) [OF that] by (auto simp: post_bind intro: post_safeI)
  have body: "post False (case next_activity_and_action (activity s1) of (na, act) \<Rightarrow> do {
      s2 \<leftarrow> tick_action E act s1;
      (if current_task s1 < num_tasks s2 \<and> t_state (tasks s2 ! current_task s1) = Dead then
         do { s4 \<leftarrow> (if current_task (s2\<lparr>activity := na\<rparr>) < num_tasks (s2\<lparr>activity := na\<rparr>) \<and> t_state (tasks (s2\<lparr>activity := na\<rparr>) ! current_task (s2\<lparr>activity := na\<rparr>)) \<noteq> Running
                 then schedule_next_task E (s2\<lparr>activity := na\<rparr>) else Some (s2\<lparr>activity := na\<rparr>));
               debug_check_invariants s4; Some s4 }
       else tick_tail E (current_task s1) na s2) }) kinv" if k: "kinv s1" for s1
    using dead tick_tail_post [OF _ kinvD(4) [OF k] assms(2)]
    by (cases "next_activity_and_action (activity s1)") (auto intro!: post_bindI [OF tick_action_post [OF k]])
  show ?thesis
  proof (cases "should_halt s")
    case False
    then show ?thesis
      by (simp only: tick_def Let_def if_False)
        (rule post_bindI [where Q = "\<lambda>_. True"], simp add: post_chk_inc,
         rule post_bindI [where Q = "\<lambda>_. True"], simp add: post_safeI, rule body, simp add: assms(1))
  qed (use assms(1) in \<open>simp add: tick_def\<close>)
qed

end
