(* ===== verification/Inv_Check.thy ===== *)
theory Inv_Check
  imports Inv_Tick
begin

text \<open>
  The kernel's own self-check: in every state that satisfies the invariant, \<open>debug_check_invariants\<close>
  completes and reports nothing.
\<close>

lemma viol_False [simp]: "viol False m = []"
  by (simp add: viol_def)

lemma less_3_cases: "(i :: nat) < 3 \<Longrightarrow> i = 0 \<or> i = 1 \<or> i = 2"
  by linarith

lemma upt_3: "[0..<3] = [0, 1, 2 :: nat]" "[FIRST_USER_ASID_INDEX..<3] = [1, 2]"
  by (simp_all add: upt_rec FIRST_USER_ASID_INDEX_def)

lemma chk_layout_none: "chk_layout = []"
proof -
  have "USER_SPACE_BASE = USER_SPACE_START"
    by (rule word_unat_eq_iff [THEN iffD2]) (simp add: USER_SPACE_START_def layout_USER_PML4_INDEX_def layout_PML4_SLOT_SIZE_def unat_word_ariths)
  moreover have "USER_SPACE_SIZE = layout_PML4_SLOT_SIZE" by (simp add: USER_SPACE_SIZE_def PML4_SLOT_SIZE_def layout_PML4_SLOT_SIZE_def)
  ultimately show ?thesis by (simp add: chk_layout_def)
qed

lemma chk_address_spaces_none:
  assumes "kinv s"
  shows "chk_address_spaces s = []"
proof -
  note a = kinvD(2) [OF assms]
  have "num_tasks s = 3" using coreD(1) [OF kinvD(1) [OF assms]] .
  then show ?thesis
    using ainvD(4,5) [OF a, of 0] ainvD(4,5) [OF a, of 1] ainvD(4,5) [OF a, of 2]
    by (auto simp: chk_address_spaces_def Let_def upt_3 KERNEL_ASID_INDEX_def)
qed

lemma chk_task_reason_none: "task_ok i t \<Longrightarrow> chk_task_reason t = []"
  by (cases "t_state t") (auto simp: chk_task_reason_def task_ok_def)

lemma chk_tasks_none:
  assumes "kinv s"
  shows "concat (map chk_task_reason (take (num_tasks s) (tasks s))) = []"
proof -
  note c = kinvD(1) [OF assms]
  have "chk_task_reason t = []" if m: "t \<in> set (tasks s)" for t
  proof -
    obtain i where i: "i < 3" "t = tk s i" using m unfolding in_set_conv_nth coreD(2) [OF c] by metis
    show ?thesis unfolding i(2) by (rule chk_task_reason_none) (use coreD(7) [OF c i(1)] in simp)
  qed
  then show ?thesis using coreD(1,2) [OF c] by simp
qed

lemma chk_current_none: "kinv s \<Longrightarrow> chk_current s = []"
  using kinvD(4,5) [of s] coreD(1) [OF kinvD(1), of s] by (simp add: chk_current_def)

lemma chk_user_mappings_none:
  assumes "kinv s"
  shows "chk_user_mappings s = Some []"
proof -
  note a = kinvD(2) [OF assms]
  have one: "chk_mapping_offset m = Some []" if "m_page m = user_page" "m_flags m = user_flags" for m
    using that by (simp add: chk_mapping_offset_def user_page_def DEMO_VIRT_PAGE_INDEX_USER_def PAGE_SIZE_def chk_mul_def USER_SPACE_SIZE_def PML4_SLOT_SIZE_def)
  have "foldM (\<lambda>m acc. do { v \<leftarrow> chk_mapping_offset m; Some (acc @ v) }) ms [] = Some []"
    if "\<forall>m \<in> set ms. m_page m = user_page \<and> m_flags m = user_flags" for ms
    using that by (induction ms) (simp_all add: one)
  moreover have "\<forall>m \<in> set (each_mapping (address_spaces s ! i)). m_page m = user_page \<and> m_flags m = user_flags" if "i = 1 \<or> i = 2" for i
    using ainvD(2) [OF a, of i] that by (auto simp: as_ok_def)
  ultimately have f: "foldM (\<lambda>m acc. do { v \<leftarrow> chk_mapping_offset m; Some (acc @ v) }) (each_mapping (address_spaces s ! i)) [] = Some []"
    if "i = 1 \<or> i = 2" for i using that by blast
  show ?thesis
    using coreD(1) [OF kinvD(1) [OF assms]] ainvD(4) [OF a, of 1] ainvD(4) [OF a, of 2] f [of 1] f [of 2]
    by (simp add: chk_user_mappings_def upt_3)
qed

section \<open>Endpoints\<close>

lemma tid_inj: "i < 3 \<Longrightarrow> k < 3 \<Longrightarrow> (of_nat (Suc i) :: u64) = of_nat (Suc k) \<Longrightarrow> i = k"
  by (drule less_3_cases, drule less_3_cases) auto

lemma partner_alive:
  assumes "core {} s" "partner_ok {} s i p"
  shows "\<not> partner_is_dead s p"
proof -
  obtain k where k: "k < 3" "p = of_nat (Suc k)" "t_state (tk s k) \<noteq> Dead" using assms(2) by (auto simp: partner_ok_def)
  show ?thesis
  proof (cases "find_pos (\<lambda>x. t_id x = p) (tasks s)")
    case (Some l)
    then have "l < 3" "t_id (tk s l) = p" using find_pos_Some [OF Some] coreD(2) [OF assms(1)] by auto
    then have "l = k" using coreD(5) [OF assms(1), of l] k(1,2) tid_inj by simp
    then show ?thesis using Some k(3) by (simp add: partner_is_dead_def)
  qed (simp add: partner_is_dead_def)
qed

lemma chk_endpoint_none:
  assumes "kinv s" "j < 2"
  shows "chk_endpoint s (endpoints s ! j) = []"
proof -
  note c = kinvD(1) [OF assms(1)] and q = in_queues [OF kinvD(1) [OF assms(1)] assms(2)]
  let ?e = "endpoints s ! j"
  have e: "ep_ok {} s j ?e" using coreD(9) [OF c assms(2)] .
  have b: "t_state (tk s i) = Blocked \<and> \<not> is_kernel_task_index s i \<and> i < num_tasks s" if "i < 3" "blocked_reason (tk s i) = Some r" for i r
    using blocked_user(1,2) [OF c that(1) _ that(2)] kernel_task_iff [OF assms(1) that(1)] that(1) coreD(1) [OF c] by simp
  have id: "ep_id ?e = j" using e by (simp add: ep_ok_def)
  have "chk_closed ?e = []" using e by (auto simp: chk_closed_def ep_ok_def viol_def)
  moreover have "chk_recv_waiter s ?e = []"
  proof (cases "recv_waiter ?e")
    case (Some i)
    then have "i < 3" "blocked_reason (tk s i) = Some (IpcRecv j)" using q(3) by blast+
    with Some b [OF this] show ?thesis by (simp add: chk_recv_waiter_def Let_def id)
  qed (simp add: chk_recv_waiter_def)
  moreover have "chk_sender s ?e i = []" if "i \<in> set (sq ?e)" for i
    using that q(1) [of i] b [of i] by (auto simp: chk_sender_def Let_def id)
  moreover have "chk_reply_waiter s ?e i = []" if m: "i \<in> set (rq ?e)" for i
  proof -
    obtain p where p: "i < 3" "blocked_reason (tk s i) = Some (IpcReply p j)" using m q(2) by blast
    have "\<not> partner_is_dead s p" using partner_alive [OF c coreD(11) [OF c p(1) _ p(2)]] by simp
    then show ?thesis using b [OF p] p(2) by (simp add: chk_reply_waiter_def Let_def id)
  qed
  ultimately show ?thesis by (simp add: chk_endpoint_def sq_def rq_def)
qed

lemma chk_endpoints_none:
  assumes "kinv s"
  shows "concat (map (chk_endpoint s) (endpoints s)) = []"
proof -
  have "chk_endpoint s e = []" if m: "e \<in> set (endpoints s)" for e
  proof -
    obtain j where j: "j < 2" "e = endpoints s ! j"
      using m unfolding in_set_conv_nth coreD(3) [OF kinvD(1) [OF assms]] by metis
    show ?thesis unfolding j(2) by (rule chk_endpoint_none [OF assms j(1)])
  qed
  then show ?thesis by simp
qed

section \<open>Dead tasks and the reverse checks\<close>

lemma not_waiting [simp]: "core D s \<Longrightarrow> \<not> is_in_wait_queue s i"
  using coreD(4) [of D s] by (simp add: is_in_wait_queue_def array_contains_def)

lemma chk_dead_none:
  assumes "kinv s" "i < 3"
  shows "chk_dead_task s i = []"
proof (cases "t_state (tk s i) = Dead")
  case True
  note c = kinvD(1) [OF assms(1)]
  have "rq_len s \<le> length (ready_queue s)" "set (take (rq_len s) (ready_queue s)) = ready_set {} s"
    using coreD(8) [OF c] by (simp_all add: rq_ok_def rdy_def)
  then have "\<not> is_in_ready_queue s i" using ready_not [of s i "{}"] True by (simp add: is_in_ready_queue_def array_contains_iff)
  then show ?thesis
    using True c coreD(6) [OF c assms(2)] ainvD(3) [OF kinvD(2) [OF assms(1)] assms(2) _ True]
    by (simp add: chk_dead_task_def Let_def)
qed (simp add: chk_dead_task_def)

lemma chk_sleeper_none:
  assumes "kinv s" "i < 3"
  shows "chk_sleeper s i = []"
  using coreD(7) [OF kinvD(1) [OF assms(1)] assms(2)]
  by (auto simp: chk_sleeper_def Let_def task_ok_def reason_ok_def viol_def)

lemma chk_reverse_none:
  assumes "kinv s" "i < 3"
  shows "chk_reverse s i = []"
proof (cases "blocked_reason (tk s i)")
  case None
  then show ?thesis using coreD(7) [OF kinvD(1) [OF assms(1)] assms(2)] by (simp add: chk_reverse_def Let_def task_ok_def)
next
  case (Some r)
  note c = kinvD(1) [OF assms(1)] and b = blocked_user [OF kinvD(1) [OF assms(1)] assms(2) _ Some, simplified]
  note q = in_queues [OF c b(4), of i] and nw = not_waiting [OF c, of i]
  have wf: "ep_wf (endpoints s ! br_ep r)" using coreD(9) [OF c b(4)] by (simp add: ep_ok_def)
  then have ac: "array_contains (send_queue (endpoints s ! br_ep r)) (sq_len (endpoints s ! br_ep r)) i = (i \<in> set (sq (endpoints s ! br_ep r)))"
      "array_contains (reply_queue (endpoints s ! br_ep r)) (e_rq_len (endpoints s ! br_ep r)) i = (i \<in> set (rq (endpoints s ! br_ep r)))"
    by (simp_all add: array_contains_iff sq_def rq_def ep_wf_def)
  have "r \<noteq> Sleep" using coreD(7) [OF c assms(2)] Some by (auto simp: task_ok_def reason_ok_def)
  moreover have "\<not> partner_is_dead s p" if "r = IpcReply p j" for p j
    using partner_alive [OF c coreD(11) [OF c assms(2)]] Some that by simp
  ultimately have "chk_reverse_reason s i r = []"
    using q nw ac Some b(4) assms(2) by (cases r) (simp_all add: chk_reverse_reason_def MAX_ENDPOINTS_def)
  then show ?thesis using Some b(1) by (simp add: chk_reverse_def Let_def)
qed

lemma debug_check_clean:
  assumes "kinv s"
  shows "debug_check_invariants s = Some []"
proof -
  note c = kinvD(1) [OF assms]
  have "concat (map (chk_dead_task s) [0..<3]) = []" "concat (map (chk_sleeper s) [0..<3]) = []" "concat (map (chk_reverse s) [0..<3]) = []"
    using chk_dead_none [OF assms] chk_sleeper_none [OF assms] chk_reverse_none [OF assms] by simp_all
  then show ?thesis
    using chk_address_spaces_none [OF assms] chk_layout_none chk_tasks_none [OF assms] chk_current_none [OF assms]
      chk_user_mappings_none [OF assms] chk_endpoints_none [OF assms] coreD(1,4) [OF c]
    by (simp only: debug_check_invariants_def Let_def) simp
qed

end
