(* ===== verification/Kernel_Run.thy ===== *)
theory Kernel_Run
  imports Inv_Check
begin

text \<open>
  The kernel as a transition system: the states it boots into, the steps it takes (ticks, system calls of
  the running task, kills, endpoint closings), and what holds in every reachable state.  The locale
  \<open>invariant_system\<close> is the argument, interpreted on the kernel.
\<close>

section \<open>Invariants of a transition system\<close>

locale invariant_system =
  fixes init :: "'s \<Rightarrow> bool"
    and step :: "'s \<Rightarrow> 's \<Rightarrow> bool"
    and inv :: "'s \<Rightarrow> bool"
  assumes init_inv: "init s \<Longrightarrow> inv s"
    and step_inv: "inv s \<Longrightarrow> step s s' \<Longrightarrow> inv s'"
begin

lemma rtranclp_inv:
  assumes "step\<^sup>*\<^sup>* s s'" "inv s"
  shows "inv s'"
  using assms by (induction rule: rtranclp_induct) (auto intro: step_inv)

lemma reachable_inv:
  assumes "init s" "step\<^sup>*\<^sup>* s s'"
  shows "inv s'"
  using rtranclp_inv [OF assms(2) init_inv [OF assms(1)]] .

end

section \<open>The initial state\<close>

definition fresh_aspaces :: "AddressSpace list \<Rightarrow> bool" where
  "fresh_aspaces ass \<longleftrightarrow> map kind ass = [Kernel, User, User] \<and> (\<forall>a \<in> set ass. mappings a = replicate MAX_MAPPINGS None)"

lemma fresh_upd_root:
  assumes "fresh_aspaces ass" "i < 3"
  shows "fresh_aspaces (ass[i := (ass ! i)\<lparr>root_page_frame := r\<rparr>])"
proof -
  have len: "length ass = 3" using assms(1) unfolding fresh_aspaces_def by (metis length_map length_Cons list.size(3) numeral_3_eq_3)
  have "map kind (ass[i := (ass ! i)\<lparr>root_page_frame := r\<rparr>]) = map kind ass"
    by (simp add: map_update)
      (metis list_update_id map_update)
  moreover have "mappings a = replicate MAX_MAPPINGS None" if "a \<in> set (ass[i := (ass ! i)\<lparr>root_page_frame := r\<rparr>])" for a
  proof -
    have "a \<in> insert ((ass ! i)\<lparr>root_page_frame := r\<rparr>) (set ass)" using that set_update_subset_insert by fast
    moreover have "ass ! i \<in> set ass" using assms(2) len by simp
    ultimately show ?thesis using assms(1) unfolding fresh_aspaces_def by fastforce
  qed
  ultimately show ?thesis using assms(1) by (simp add: fresh_aspaces_def)
qed

lemma new_user_root_post:
  assumes "fresh_aspaces ass" "i < 3"
  shows "post False (new_user_root E i (ass, pm, h)) (\<lambda>(ass', pm', h'). fresh_aspaces ass')"
  using assms fresh_upd_root [OF assms]
  by (intro post_safeI) (auto simp: new_user_root_def split: bind_splits option.splits prod.splits)

lemma fresh_as_ok:
  assumes "fresh_aspaces ass" "i < 3" "root_page_frame (ass ! i) \<noteq> None"
  shows "as_ok i (ass ! i)" "each_mapping (ass ! i) = []"
proof -
  have l: "map kind ass = [Kernel, User, User]" and "length ass = 3"
    using assms(1) unfolding fresh_aspaces_def by (auto simp: map_eq_Cons_conv)
  then have m: "mappings (ass ! i) = replicate MAX_MAPPINGS None" using assms(1,2) by (auto simp: fresh_aspaces_def)
  then show e: "each_mapping (ass ! i) = []" by (simp add: each_mapping_def)
  have "kind (ass ! i) = map kind ass ! i" using assms(2) \<open>length ass = 3\<close> by simp
  then have "kind (ass ! i) = (if i = 0 then Kernel else User)" using l assms(2) by (auto simp: less_Suc_eq numeral_3_eq_3)
  then show "as_ok i (ass ! i)" using e m assms(3) by (simp add: as_ok_def as_wf_def)
qed

lemma new_roots_post:
  "post False (foldM (new_user_root E) [FIRST_USER_ASID_INDEX..<MAX_TASKS]
     ([new_kernel\<lparr>root_page_frame := r\<rparr>, new_user, new_user], pm, h)) (\<lambda>(ass, pm', h'). fresh_aspaces ass)"
proof (rule post_foldM)
  show "case ([new_kernel\<lparr>root_page_frame := r\<rparr>, new_user, new_user], pm, h) of (ass, pm', h') \<Rightarrow> fresh_aspaces ass"
    by (simp add: fresh_aspaces_def new_kernel_def new_user_def)
  fix i and z :: "AddressSpace list \<times> FrameAlloc \<times> 'a Machine" assume "i \<in> set [FIRST_USER_ASID_INDEX..<MAX_TASKS]" "case z of (ass, pm', h') \<Rightarrow> fresh_aspaces ass"
  then show "post False (new_user_root E i z) (\<lambda>(ass, pm', h'). fresh_aspaces ass)"
    using new_user_root_post by (auto simp: MAX_TASKS_def)
qed

lemma new_state_fields:
  assumes "KernelState_new E bm h = Some s"
  shows "fresh_aspaces (address_spaces s)"
    "tasks s = [new_task TASK0_ID Running 1 0, new_task TASK1_ID Ready 3 1, new_task TASK2_ID Ready 2 2]"
    "num_tasks s = 3" "current_task s = 0" "ready_queue s = [1, 2, 0]" "rq_len s = 2" "wq_len s = 0"
    "\<exists>o0. endpoints s = [(Endpoint_new 0)\<lparr>ep_owner := o0\<rparr>, Endpoint_new 1]"
    "length (mem_demo_stage s) = 3" "length (mem_demo_mapped s) = 3" "length (mem_demo_frame s) = 3"
proof -
  obtain r pm ass pm1 h1 and b :: "'a KernelState" where f: "foldM (new_user_root E) [FIRST_USER_ASID_INDEX..<MAX_TASKS]
       ([new_kernel\<lparr>root_page_frame := r\<rparr>, new_user, new_user], pm, h) = Some (ass, pm1, h1)"
      and s: "s = on_kernel_state_init E b" "address_spaces b = ass" "endpoints b = [Endpoint_new 0, Endpoint_new 1]"
        "tasks b = [new_task TASK0_ID Running 1 0, new_task TASK1_ID Ready 3 1, new_task TASK2_ID Ready 2 2]"
        "num_tasks b = 3" "current_task b = 0" "ready_queue b = [1, 2, 0]" "rq_len b = 2" "wq_len b = 0"
        "length (mem_demo_stage b) = 3" "length (mem_demo_mapped b) = 3" "length (mem_demo_frame b) = 3"
    using assms
    by (auto simp: KernelState_new_def Let_def KERNEL_ASID_INDEX_def MAX_TASKS_def TASK0_INDEX_def TASK1_INDEX_def
        TASK2_INDEX_def FIRST_USER_ASID_INDEX_def numeral_2_eq_2 split: bind_splits prod.splits)
  have i: "address_spaces (on_kernel_state_init E b) = address_spaces b" "tasks (on_kernel_state_init E b) = tasks b"
      "num_tasks (on_kernel_state_init E b) = num_tasks b" "current_task (on_kernel_state_init E b) = current_task b"
      "ready_queue (on_kernel_state_init E b) = ready_queue b" "rq_len (on_kernel_state_init E b) = rq_len b"
      "wq_len (on_kernel_state_init E b) = wq_len b" "mem_demo_stage (on_kernel_state_init E b) = mem_demo_stage b"
      "mem_demo_mapped (on_kernel_state_init E b) = mem_demo_mapped b" "mem_demo_frame (on_kernel_state_init E b) = mem_demo_frame b"
    by (simp_all add: on_kernel_state_init_def)
  show "fresh_aspaces (address_spaces s)" using post_safeD [OF new_roots_post f] s(1,2) i(1) by simp
  have "(Endpoint_new 0)\<lparr>ep_owner := None\<rparr> = Endpoint_new 0" by (simp add: Endpoint_new_def)
  then have "endpoints s = [(Endpoint_new 0)\<lparr>ep_owner := if endpoint_close_test E then Some TASK2_ID else None\<rparr>, Endpoint_new 1]"
    using s(1,3) by (simp add: on_kernel_state_init_def upd_endpoint_def IPC_DEMO_EP0_def)
  then show "\<exists>o0. endpoints s = [(Endpoint_new 0)\<lparr>ep_owner := o0\<rparr>, Endpoint_new 1]" by blast
  show "tasks s = [new_task TASK0_ID Running 1 0, new_task TASK1_ID Ready 3 1, new_task TASK2_ID Ready 2 2]"
    "num_tasks s = 3" "current_task s = 0" "ready_queue s = [1, 2, 0]" "rq_len s = 2" "wq_len s = 0"
    "length (mem_demo_stage s) = 3" "length (mem_demo_mapped s) = 3" "length (mem_demo_frame s) = 3"
    using s i by simp_all
qed


lemma new_tasks_ok:
  assumes "KernelState_new E bm h = Some s" "i < 3"
  shows "t_id (tk s i) = of_nat (Suc i)" "address_space_id (tk s i) = i" "task_ok i (tk s i)" "blocked_reason (tk s i) = None"
    "t_state (tk s i) = (if i = 0 then Running else Ready)"
  using less_3_cases [OF assms(2)] new_state_fields(2) [OF assms(1)]
  by (auto simp: new_task_def task_ok_def reason_ok_def pending_ok_def TASK0_ID_def TASK1_ID_def TASK2_ID_def)

lemma kinv_new:
  assumes "KernelState_new E bm h = Some s" "\<And>i. i < 3 \<Longrightarrow> root_page_frame (address_spaces s ! i) \<noteq> None"
  shows "kinv s"
proof (rule kinvI)
  note f = new_state_fields [OF assms(1)] and t = new_tasks_ok [OF assms(1)]
  obtain o0 where e: "endpoints s = [(Endpoint_new 0)\<lparr>ep_owner := o0\<rparr>, Endpoint_new 1]" using f(8) by blast
  have none: "blk {} s P = {}" if "\<not> P None" for P using t(4) that by (auto simp: blk_def)
  show "core {} s"
  proof (rule coreI)
    show "shape s" using f t by (simp add: shape_def e)
    have "ready_set {} s = {1, 2}" using t(5) by (auto simp: ready_set_def split: if_splits)
    moreover have "rdy s = [1, 2]" using f(5,6) by (simp add: rdy_def)
    ultimately show "rq_ok {} s" using f(5,6) by (simp add: rq_ok_def)
    fix j :: nat assume "j < 2"
    then have "endpoints s ! j = (Endpoint_new j)\<lparr>ep_owner := ep_owner (endpoints s ! j)\<rparr>" using e by (auto simp: less_2_cases_iff Endpoint_new_def)
    moreover have "ep_ok {} s j ((Endpoint_new j)\<lparr>ep_owner := x\<rparr>)" for x
      using none by (simp add: ep_ok_def ep_wf_def sq_def rq_def Endpoint_new_def)
    ultimately show "ep_ok {} s j (endpoints s ! j)" by metis
  qed (use t in auto)
  have "length (address_spaces s) = 3" using f(1) by (auto simp: fresh_aspaces_def map_eq_Cons_conv)
  then show "ainv {} s" using fresh_as_ok [OF f(1) _ assms(2)] f(9-11) by (simp add: ainv_def)
  show "at_most_current s" using t(5) f(4) by (auto simp: at_most_current_def split: if_splits)
  show "t_state (tk s (current_task s)) = Running" using t(5) [of 0] f(4) by simp
qed

section \<open>Steps and reachable states\<close>

definition booted :: "'m Env \<Rightarrow> 'm KernelState \<Rightarrow> bool" where
  "booted E s \<longleftrightarrow> \<not> ring3_mailbox E \<and> (\<exists>bm h. KernelState_new E bm h = Some s) \<and> (\<forall>i < 3. root_page_frame (address_spaces s ! i) \<noteq> None)"

text \<open>What the kernel may be asked to do next: run a tick, serve a system call of the running task (any
  IPC call, and the page calls on the demo page), kill a user task, close an endpoint, or allocate
  the frames of the bootstrap.\<close>

inductive kernel_step :: "'m Env \<Rightarrow> 'm KernelState \<Rightarrow> 'm KernelState \<Rightarrow> bool" for E :: "'m Env" where
  step_tick: "tick E s = Some s' \<Longrightarrow> kernel_step E s s'"
| step_syscall: "handle_syscall E sc s = Some s' \<Longrightarrow> pending_ok (Some sc) \<Longrightarrow> kernel_step E s s'"
| step_kill: "kill_task E i reason s = Some s' \<Longrightarrow> 0 < i \<Longrightarrow> i < 3 \<Longrightarrow> kernel_step E s s'"
| step_close: "s' = close_endpoint_and_rescue_waiters j s \<Longrightarrow> kernel_step E s s'"
| step_bootstrap: "bootstrap E s = Some s' \<Longrightarrow> kernel_step E s s'"

inductive_cases kernel_stepE: "kernel_step E s s'"

lemma close_kinv:
  assumes "kinv s"
  shows "kinv (close_endpoint_and_rescue_waiters j s)"
proof (cases "j < 2")
  case True
  note m = close_mostly_kept [OF kinvD(1) [OF assms] True] and k = kinvD [OF assms]
  have "tk (close_endpoint_and_rescue_waiters j s) (current_task s) = tk s (current_task s)"
    using mostly_keptD(5) [OF m k(4)] k(5) by auto
  then show ?thesis using mostly_keptD(1-4) [OF m] k by (intro kinvI) auto
qed (use assms in \<open>simp add: close_endpoint_and_rescue_waiters_def MAX_ENDPOINTS_def\<close>)

lemma bootstrap_loop_kinv: "kinv s \<Longrightarrow> post False (bootstrap_loop E n s) kinv"
proof (induction n arbitrary: s)
  case (Suc n)
  then show ?case by (cases "allocate_frame (phys_addr_ok E) (phys_mem s)") (auto split: prod.split option.split)
qed simp

lemma kernel_step_kinv:
  assumes "kernel_step E s s'" "kinv s" "\<not> ring3_mailbox E"
  shows "kinv s'"
  using assms(1)
proof (cases rule: kernel_step.cases)
  case step_tick
  then show ?thesis using post_safeD [OF tick_post [OF assms(2,3)]] by blast
next
  case (step_syscall sc)
  then show ?thesis using post_safeD [OF handle_syscall_post [OF assms(2,3)]] by blast
next
  case (step_kill i reason)
  then show ?thesis using post_safeD [OF kill_task_post [OF assms(2)]] by blast
next
  case (step_close j)
  then show ?thesis using close_kinv [OF assms(2)] by simp
next
  case step_bootstrap
  then show ?thesis using post_safeD [OF bootstrap_loop_kinv [OF assms(2)]] by (simp add: bootstrap_def)
qed

interpretation kernel_sys: invariant_system "booted E" "kernel_step E" "\<lambda>s. kinv s \<and> \<not> ring3_mailbox E" for E :: "'m Env"
proof (unfold_locales, goal_cases)
  case (1 s)
  then show ?case using kinv_new by (auto simp: booted_def)
next
  case (2 s s')
  then show ?case using kernel_step_kinv by blast
qed

lemma tick_loop_steps: "tick_loop E n s = Some s' \<Longrightarrow> (kernel_step E)\<^sup>*\<^sup>* s s'"
proof (induction n arbitrary: s)
  case (Suc n)
  show ?case
  proof (cases "should_halt s")
    case False
    then obtain t where "tick E s = Some t" "tick_loop E n t = Some s'" using Suc.prems by (auto split: bind_splits)
    then show ?thesis using Suc.IH step_tick converse_rtranclp_into_rtranclp by metis
  qed (use Suc.prems in simp)
qed simp

end
