(* ===== verification/Example_Machine.thy ===== *)
theory Example_Machine
  imports Kernel_Run
begin

text \<open>
  A concrete machine, the example at which the theorems with hypotheses are instantiated: every
  address is canonical, the page table of each root is an association list from virtual page to
  physical address, a store or load of an unmapped page faults, and the 512 entries of each
  level 4 table are present kernel entries.  The memory map has one usable region.
\<close>

type_synonym toy_mem = "((u64 \<times> u64) \<times> u64) list"

definition toyE :: "toy_mem Env" where
  "toyE = \<lparr>pf_demo = False, ignore_user_pf_demo = False, ring3_mailbox = False, ring3_mailbox_loop = False,
     dead_partner_test = False, endpoint_close_test = False, evil_double_map = False,
     evil_unmap_not_mapped = False, ipc_demo_single_slow = False,
     phys_addr_ok = (\<lambda>a. True), virt_addr_ok = (\<lambda>a. True),
     X_PRESENT = 1, X_WRITABLE = 2, X_USER_ACCESSIBLE = 4, X_NO_EXECUTE = 0x8000000000000000,
     pte_is_unused = (\<lambda>e. e = 0), pte_flags = (\<lambda>e. e), pte_addr = (\<lambda>e. e), pte_unused = 0,
     pml4_get = (\<lambda>m a i. 3), pml4_set = (\<lambda>m a i e. m),
     pt_map_to = (\<lambda>t v p fl al m fa.
        if map_of m (l4_table t, v) = None then Some (Inr (), ((l4_table t, v), p) # m, fa)
        else Some (Inl (PageAlreadyMapped p), m, fa)),
     pt_unmap = (\<lambda>t v m.
        if map_of m (l4_table t, v) = None then (Inl PageNotMapped, m)
        else (Inr (), filter (\<lambda>x. fst x \<noteq> (l4_table t, v)) m)),
     pt_translate = (\<lambda>t v m. Some v),
     regs_at = (\<lambda>n. (1, 1, 1)), recover_label = 1, undef_reg = 0, cr2_of_fault = (\<lambda>v. v),
     cpu_store = (\<lambda>c v x m. if map_of m (c, v) = None then Inl \<lparr>flt_err = 2, flt_rip = 7, flt_rsp = 8\<rparr> else Inr m),
     cpu_load = (\<lambda>c v m. if map_of m (c, v) = None then Inl \<lparr>flt_err = 2, flt_rip = 7, flt_rsp = 8\<rparr> else Inr 42),
     high_exec = (\<lambda>a x. x + 0x1111222233334444)\<rparr>"

definition toyH :: "toy_mem Machine" where
  "toyH = \<lparr>cr3 = 0x1000, mem = [], reg_reads = 0, vga_enabled = True, PHYSICAL_MEMORY_OFFSET = 0,
     ALLOW_REAL_CR3_SWITCH = True, GUARD_CODE_VIRT = 0, GUARD_STACK_VIRT = 0, GUARD_CODE_PHYS = 0,
     GUARD_STACK_PHYS = 0, GUARD_CODE_HIGH_VIRT = 0, GUARD_STACK_HIGH_VIRT = 0, ALIAS_COPY_COUNT = 0,
     RING3_DEMO_USER_ROOT_PHYS = 0, RING3_DEMO_KERNEL_ROOT_PHYS = 0, PF_GUARD_ACTIVE = 0,
     PF_GUARD_RECOVER_RIP = 0, PF_GUARD_HIT = 0, LAST_PF_VALID = 0, LAST_PF_ADDR = 0, LAST_PF_ERR = 0,
     LAST_PF_RIP = 0, LAST_PF_RSP = 0, LAST_PF_IS_USER = 0, DEMO_USER_ROOT_PHYS = 0,
     DEMO_KERNEL_ROOT_PHYS = 0, DEAD_PARTNER_FIRED = False, EVIL_MAP_STAGE = 0, EVIL_UNMAP_FIRED = False\<rparr>"

definition toyMap :: "region list" where
  "toyMap = [\<lparr>range_start_addr = 0x100000, range_end_addr = 0x800000, region_type = Usable\<rparr>]"

definition toy0 :: "toy_mem KernelState" where
  "toy0 = the (KernelState_new toyE toyMap toyH)"

lemma toyE_simps [simp]:
  "\<not> ring3_mailbox toyE" "\<not> endpoint_close_test toyE" "\<not> dead_partner_test toyE" "phys_addr_ok toyE a" "virt_addr_ok toyE a"
  "X_PRESENT toyE = 1" "X_USER_ACCESSIBLE toyE = 4" "pte_is_unused toyE e \<longleftrightarrow> e = 0" "pte_flags toyE e = e"
  "pte_addr toyE e = e" "pml4_get toyE m a i = 3" "pml4_set toyE m a i e = m" "pt_translate toyE t v m = Some v"
  "regs_at toyE k = (1, 1, 1)"
  by (simp_all add: toyE_def)

lemma toy_copy: "copy_pml4_entry toyE a b i m = Some m"
  by (simp add: copy_pml4_entry_def x_contains_def)

lemma foldM_Some: "(\<And>x s. f x s = Some s) \<Longrightarrow> foldM f xs s = Some s"
  by (induction xs) simp_all

lemma fold_same: "(\<And>x s. f x s = s) \<Longrightarrow> fold f xs s = s"
  by (induction xs) simp_all

lemma toy_init_pml4:
  assumes "n < 2 ^ 52"
  shows "init_user_pml4_from_current toyE (PhysFrame n) toyH = Some toyH"
proof -
  have "frame_start_address (PhysFrame n) = Some (PhysAddr (n * 4096))"
    using assms by (simp add: frame_start_address_def chk_mul_def PAGE_SIZE_def word_less_nat_alt)
  moreover have "phys_u64_to_virt_ptr a toyH = Some a" for a
    using unsigned_less [of a] by (simp add: phys_u64_to_virt_ptr_def chk_add_def toyH_def)
  moreover have "assert_no_physmap_user_slot_collision toyH = Some ()"
    by (simp add: assert_no_physmap_user_slot_collision_def toyH_def USER_PML4_INDEX_def pml4_index_def PHYSMAP_PML4_COPY_COUNT_def)
  ultimately show ?thesis
    by (simp add: init_user_pml4_from_current_def foldM_Some [of "copy_pml4_entry _ _ _"] toy_copy fold_same)
       (simp add: toyH_def x_contains_def)
qed

definition toyFA :: "u64 \<Rightarrow> FrameAlloc" where
  "toyFA a = \<lparr>memory_map = toyMap, region_index = 1, cur_addr = a, cur_end = 0x800000, has_region = True\<rparr>"

lemma toy_alloc:
  "BootInfoFrameAllocator_new toyMap = Some (toyFA 0x100000)"
  "allocate_new_l4_table (phys_addr_ok toyE) (toyFA 0x100000) = Some (Some (PhysFrame 256), toyFA 0x101000)"
  "allocate_new_l4_table (phys_addr_ok toyE) (toyFA 0x101000) = Some (Some (PhysFrame 257), toyFA 0x102000)"
    by (simp_all add: BootInfoFrameAllocator_new_def advance_to_next_usable_region_def advance_loop.simps
        allocate_new_l4_table_def allocate_frame.simps toyMap_def toyFA_def toyE_def align_up_4k_def chk_add_def)

lemma toy_new: "KernelState_new toyE toyMap toyH = Some
   \<lparr>phys_mem = toyFA 0x102000, tick_count = 0, time_ticks = 0, should_halt = False, activity = Idle,
    address_spaces = [new_kernel\<lparr>root_page_frame := Some (PhysFrame 1)\<rparr>,
      new_user\<lparr>root_page_frame := Some (PhysFrame 256)\<rparr>, new_user\<lparr>root_page_frame := Some (PhysFrame 257)\<rparr>],
    tasks = [new_task TASK0_ID Running 1 0, new_task TASK1_ID Ready 3 1, new_task TASK2_ID Ready 2 2],
    num_tasks = 3, current_task = 0, ready_queue = [1, 2, 0], rq_len = 2, wait_queue = [0, 0, 0], wq_len = 0,
    event_log = replicate EVENT_LOG_CAP None, event_log_head = 0, event_log_len = 0, quantum = 5,
    mem_demo_mapped = [False, False, False], mem_demo_stage = [0, 0, 0], mem_demo_frame = [None, None, None],
    endpoints = [Endpoint_new 0, Endpoint_new 1], demo_msgs_delivered = 0, demo_replies_sent = 0,
    demo_sent_by_task2 = False, demo_sent_by_task1 = False, demo_early_sent_by_task0 = False,
    counters = KernelCounters_new, halt_dumped_no_user_tasks = False, hw = toyH\<rparr>"
proof -
  have u: "[FIRST_USER_ASID_INDEX..<MAX_TASKS] = [1, 2]" by (simp add: FIRST_USER_ASID_INDEX_def MAX_TASKS_def upt_rec)
  show ?thesis
    by (simp add: KernelState_new_def toy_alloc u new_user_root_def toy_init_pml4 on_kernel_state_init_def)
       (simp add: toyH_def PAGE_SIZE_def numeral_3_eq_3 KERNEL_ASID_INDEX_def TASK0_INDEX_def TASK1_INDEX_def TASK2_INDEX_def
        FIRST_USER_ASID_INDEX_def MAX_TASKS_def, simp flip: numeral_2_eq_2)
qed

lemmas toy0_eq = toy0_def [unfolded toy_new option.sel]

lemma toy0_booted: "booted toyE toy0"
proof -
  have "root_page_frame (address_spaces toy0 ! i) \<noteq> None" if "i < 3" for i
    using less_3_cases [OF that] by (auto simp: toy0_eq)
  moreover have "KernelState_new toyE toyMap toyH = Some toy0" by (simp add: toy_new toy0_eq)
  ultimately show ?thesis by (auto simp: booted_def toyE_def)
qed

lemma toy0_kinv: "kinv toy0"
  using kernel_sys.init_inv [OF toy0_booted] by blast

section \<open>The first switch\<close>

definition toy_hw :: "toy_mem Machine \<Rightarrow> bool" where
  "toy_hw h \<longleftrightarrow> PHYSICAL_MEMORY_OFFSET h = 0 \<and> GUARD_CODE_VIRT h = 0 \<and> GUARD_CODE_HIGH_VIRT h = 0"

lemma toy_switch:
  assumes "toy_hw h" "n < 2 ^ 52"
  shows "switch_address_space_quiet toyE (PhysFrame n) h = Some (h\<lparr>cr3 := n * 4096\<rparr>)"
    "\<exists>k. switch_address_space toyE (Some (PhysFrame n)) h = Some (if ALLOW_REAL_CR3_SWITCH h then h\<lparr>reg_reads := k, cr3 := n * 4096\<rparr> else h)"
proof -
  have f: "frame_start_address (PhysFrame n) = Some (PhysAddr (n * 4096))"
    using assms by (simp add: frame_start_address_def chk_mul_def PAGE_SIZE_def word_less_nat_alt)
  have q: "switch_address_space_quiet toyE (PhysFrame n) h = Some (h\<lparr>cr3 := n * 4096\<rparr>)" for h
    by (simp add: switch_address_space_quiet_def f PhysAddr_new_def)
  then show "switch_address_space_quiet toyE (PhysFrame n) h = Some (h\<lparr>cr3 := n * 4096\<rparr>)" .
  have c: "chk_add 0 a = Some a" for a using unsigned_less [of a] by (simp add: chk_add_def)
  have "assert_no_physmap_user_slot_collision h = Some ()"
    using assms(1) by (simp add: toy_hw_def assert_no_physmap_user_slot_collision_def USER_PML4_INDEX_def pml4_index_def PHYSMAP_PML4_COPY_COUNT_def)
  then have "\<exists>k. preflight_check_before_cr3_write toyE (PhysFrame n) h = Some (h\<lparr>reg_reads := k\<rparr>)"
    using assms(1)
    by (auto simp: preflight_check_before_cr3_write_def f read_rip_rsp_rbp_def init_offset_page_table_for_root_def
        PhysAddr_new_def VirtAddr_new_def phys_to_virt_def translate_u64_def active_level_4_table_def preflight_physmap_def
        preflight_guards_def x_contains_def toy_hw_def c Let_def intro: exI [of _ "reg_reads h"] split: if_splits)
  then show "\<exists>k. switch_address_space toyE (Some (PhysFrame n)) h = Some (if ALLOW_REAL_CR3_SWITCH h then h\<lparr>reg_reads := k, cr3 := n * 4096\<rparr> else h)"
    using q assms by (auto simp: switch_address_space_def toy_hw_def)
qed

definition toy1 :: "toy_mem KernelState" where
  "toy1 = the (schedule_next_task toyE toy0)"

lemmas toy_run = nth_chk_def new_task_def new_kernel_def new_user_def MAX_ENDPOINTS_def MAX_TASKS_def TASK0_INDEX_def Let_def
  KernelCounters_new_def Endpoint_new_def chk_inc_def chk_add_def upd_task_def upd_endpoint_def compact_loop.simps swap_remove_def upt_rec
  handle_syscall_def on_after_ipc_recv_def reject_ipc_if_kernel_current_def reject_ipc_if_endpoint_closed_def is_kernel_task_index_def
  ipc_send_def ipc_send_fastpath_def ipc_send_slowpath_def schedule_after_send_def try_enqueue_sender_def send_queue_contains_def
  ipc_recv_def ipc_recv_fastpath_def dequeue_blocked_sender.simps dequeue_sender_def try_enqueue_reply_waiter_def reply_queue_contains_def
  count_delivery_def block_task_def remove_from_ready_queue_def schedule_next_task_def demote_previous_def run_next_def
  compact_ready_queue_to_ready_only_def ready_only_def dequeue_ready_highest_priority_def best_step_def array_contains_def IPC_DEMO_EP0_def TASK1_INDEX_def TASK2_INDEX_def

lemma toy1_exists: "\<exists>s. schedule_next_task toyE toy0 = Some s \<and> current_task s = 1 \<and> address_spaces s = address_spaces toy0
    \<and> toy_hw (hw s) \<and> counters s = KernelCounters_new\<lparr>sched_switches := 1\<rparr>
    \<and> tasks s = [new_task TASK0_ID Ready 1 0, new_task TASK1_ID Running 3 1, new_task TASK2_ID Ready 2 2]
    \<and> num_tasks s = 3 \<and> rq_len s = 1 \<and> ready_queue s = [2, 2, 0] \<and> wq_len s = 0 \<and> endpoints s = [Endpoint_new 0, Endpoint_new 1]"
proof -
  obtain k where k: "switch_address_space toyE (Some (PhysFrame 256)) (set_vga_enabled False (set_vga_enabled True toyH))
      = Some ((set_vga_enabled False (set_vga_enabled True toyH))\<lparr>reg_reads := k, cr3 := 256 * 4096\<rparr>)"
    using toy_switch(2) [of "set_vga_enabled False (set_vga_enabled True toyH)" 256]
    by (auto simp: toy_hw_def toyH_def set_vga_enabled_def)
  show ?thesis using k
    by (simp add: toy_run toy0_eq set_vga_enabled_def toy_hw_def toyH_def)
qed

lemma toy1_fields: "schedule_next_task toyE toy0 = Some toy1" "toy_hw (hw toy1)"
  "current_task toy1 = 1" "address_spaces toy1 = address_spaces toy0"
  "counters toy1 = KernelCounters_new\<lparr>sched_switches := 1\<rparr>"
  "tasks toy1 = [new_task TASK0_ID Ready 1 0, new_task TASK1_ID Running 3 1, new_task TASK2_ID Ready 2 2]"
  "num_tasks toy1 = 3" "rq_len toy1 = 1" "ready_queue toy1 = [2, 2, 0]" "wq_len toy1 = 0" "endpoints toy1 = [Endpoint_new 0, Endpoint_new 1]"
  using toy1_exists unfolding toy1_def by auto

lemma toy_switch_safe:
  assumes "toy_hw (hw s)" "address_spaces s = address_spaces toy0"
  shows "switch_safe toyE s"
  unfolding switch_safe_def
proof (intro ballI allI impI)
  fix a r v assume "a \<in> set (address_spaces s)" "root_page_frame a = Some r"
  then have "r \<in> {PhysFrame 1, PhysFrame 256, PhysFrame 257}" using assms(2) by (auto simp: toy0_eq)
  then obtain n where n: "r = PhysFrame n" "n < 2 ^ 52" by fastforce
  have "toy_hw (set_vga_enabled v (hw s))" using assms(1) by (simp add: toy_hw_def set_vga_enabled_def)
  from toy_switch [OF this n(2)]
  show "switch_address_space toyE (Some r) (set_vga_enabled v (hw s)) \<noteq> None
     \<and> switch_address_space_quiet toyE r (set_vga_enabled v (hw s)) \<noteq> None" using n(1) by auto
qed

lemma toy0_safe: "ipc_safe toyE toy0" "sched_safe toyE toy0"
proof -
  show "ipc_safe toyE toy0"
    using toy_switch_safe [of toy0] by (simp add: ipc_safe_def room_def toy0_eq KernelCounters_new_def toy_hw_def toyH_def)
  then show "sched_safe toyE toy0" by (rule ipc_safe_sched)
qed

lemma toy1_kinv: "kinv toy1"
  using post_safeD [OF schedule_post [OF kinvD(6) [OF toy0_kinv] toy0_safe(2)] toy1_fields(1)] by blast

lemma toy1_safe: "ipc_safe toyE toy1"
  using toy_switch_safe [OF toy1_fields(2,4)] by (simp add: ipc_safe_def room_def toy1_fields KernelCounters_new_def)

section \<open>A rendezvous\<close>

text \<open>Task 1 sends 77 on endpoint 0, then task 2 receives it.\<close>

definition toy2 :: "toy_mem KernelState" where
  "toy2 = the (handle_syscall toyE (SysIpcSend 0 77) toy1)"

definition toy3 :: "toy_mem KernelState" where
  "toy3 = the (handle_syscall toyE (SysIpcRecv 0) toy2)"

lemma toy2_exists: "\<exists>s. handle_syscall toyE (SysIpcSend 0 77) toy1 = Some s \<and> current_task s = 2 \<and> address_spaces s = address_spaces toy0
    \<and> toy_hw (hw s) \<and> counters s = KernelCounters_new\<lparr>sched_switches := 2, ipc_send_slow := 1\<rparr>
    \<and> tasks s = [new_task TASK0_ID Ready 1 0,
        (new_task TASK1_ID Blocked 3 1)\<lparr>blocked_reason := Some (IpcSend 0), pending_send_msg := Some 77\<rparr>, new_task TASK2_ID Running 2 2]
    \<and> num_tasks s = 3 \<and> rq_len s = 0 \<and> ready_queue s = [2, 2, 0] \<and> wq_len s = 0
    \<and> endpoints s = [(Endpoint_new 0)\<lparr>send_queue := [1, 0, 0], sq_len := 1\<rparr>, Endpoint_new 1]"
proof -
  let ?h = "set_vga_enabled False (set_vga_enabled False (hw toy1))"
  have "toy_hw ?h" using toy1_fields(2) by (simp add: toy_hw_def set_vga_enabled_def)
  from toy_switch(2) [OF this, of 257] obtain h' where "switch_address_space toyE (Some (PhysFrame 257)) ?h = Some h'" "toy_hw h'"
    using \<open>toy_hw ?h\<close> by (auto simp: toy_hw_def)
  moreover have "replicate 3 x = [x, x, x]" for x :: nat by (simp add: numeral_3_eq_3)
  ultimately show ?thesis
    by (simp add: toy_run toy1_fields toy0_eq)
qed

lemma toy2_fields: "handle_syscall toyE (SysIpcSend 0 77) toy1 = Some toy2" "toy_hw (hw toy2)"
  "current_task toy2 = 2" "address_spaces toy2 = address_spaces toy0"
  "counters toy2 = KernelCounters_new\<lparr>sched_switches := 2, ipc_send_slow := 1\<rparr>"
  "tasks toy2 = [new_task TASK0_ID Ready 1 0,
     (new_task TASK1_ID Blocked 3 1)\<lparr>blocked_reason := Some (IpcSend 0), pending_send_msg := Some 77\<rparr>, new_task TASK2_ID Running 2 2]"
  "num_tasks toy2 = 3" "rq_len toy2 = 0" "ready_queue toy2 = [2, 2, 0]" "wq_len toy2 = 0"
  "endpoints toy2 = [(Endpoint_new 0)\<lparr>send_queue := [1, 0, 0], sq_len := 1\<rparr>, Endpoint_new 1]"
  using toy2_exists unfolding toy2_def by auto

lemma toy3_exists: "\<exists>s. handle_syscall toyE (SysIpcRecv 0) toy2 = Some s \<and> current_task s = 2 \<and> address_spaces s = address_spaces toy0
    \<and> toy_hw (hw s) \<and> counters s = KernelCounters_new\<lparr>sched_switches := 2, ipc_send_slow := 1, ipc_recv_fast := 1\<rparr>
    \<and> tasks s = [new_task TASK0_ID Ready 1 0, (new_task TASK1_ID Blocked 3 1)\<lparr>blocked_reason := Some (IpcReply TASK2_ID 0)\<rparr>,
        (new_task TASK2_ID Running 2 2)\<lparr>last_msg := Some 77\<rparr>]
    \<and> num_tasks s = 3 \<and> rq_len s = 0 \<and> ready_queue s = [2, 2, 0] \<and> wq_len s = 0
    \<and> endpoints s = [(Endpoint_new 0)\<lparr>send_queue := [1, 0, 0], reply_queue := [1, 0, 0], e_rq_len := 1\<rparr>, Endpoint_new 1]"
proof -
  have "replicate 3 x = [x, x, x]" for x :: nat by (simp add: numeral_3_eq_3)
  then show ?thesis by (simp add: toy_run toy2_fields toy0_eq)
qed

lemma toy3_fields: "handle_syscall toyE (SysIpcRecv 0) toy2 = Some toy3" "toy_hw (hw toy3)"
  "current_task toy3 = 2" "address_spaces toy3 = address_spaces toy0"
  "counters toy3 = KernelCounters_new\<lparr>sched_switches := 2, ipc_send_slow := 1, ipc_recv_fast := 1\<rparr>"
  "tasks toy3 = [new_task TASK0_ID Ready 1 0, (new_task TASK1_ID Blocked 3 1)\<lparr>blocked_reason := Some (IpcReply TASK2_ID 0)\<rparr>,
     (new_task TASK2_ID Running 2 2)\<lparr>last_msg := Some 77\<rparr>]" "num_tasks toy3 = 3" "rq_len toy3 = 0" "ready_queue toy3 = [2, 2, 0]" "wq_len toy3 = 0"
  "endpoints toy3 = [(Endpoint_new 0)\<lparr>send_queue := [1, 0, 0], reply_queue := [1, 0, 0], e_rq_len := 1\<rparr>, Endpoint_new 1]"
  using toy3_exists unfolding toy3_def by auto

lemma toy23_kinv: "kinv toy2" "kinv toy3"
proof -
  show "kinv toy2" using post_safeD [OF handle_syscall_post [OF toy1_kinv] toy2_fields(1)] by (simp add: pending_ok_def)
  then show "kinv toy3" using post_safeD [OF handle_syscall_post toy3_fields(1)] by (simp add: pending_ok_def)
qed

lemma toy23_safe: "ipc_safe toyE toy2" "ipc_safe toyE toy3"
  using toy_switch_safe [OF toy2_fields(2,4)] toy_switch_safe [OF toy3_fields(2,4)]
  by (simp_all add: ipc_safe_def room_def toy2_fields toy3_fields KernelCounters_new_def)

text \<open>Task 2 replies 5.\<close>

lemma toy_reply: "\<exists>s. handle_syscall toyE (SysIpcReply 0 5) toy3 = Some s
    \<and> tasks s = [new_task TASK0_ID Ready 1 0, (new_task TASK1_ID Ready 3 1)\<lparr>last_reply := Some 5\<rparr>,
        (new_task TASK2_ID Running 2 2)\<lparr>last_msg := Some 77\<rparr>]"
proof -
  have "replicate 3 x = [x, x, x]" for x :: nat by (simp add: numeral_3_eq_3)
  then show ?thesis
    by (simp add: toy_run toy3_fields toy0_eq ipc_reply_def take_reply_waiter_for_partner_def remove_reply_waiter_at_def
        ipc_reply_deliver_def wake_task_to_ready_def ready_queue_contains_def)
qed

text \<open>Task 2 is killed while task 1 waits for its reply.\<close>

lemma toy_kill: "\<exists>s. kill_task toyE 2 (DemoInjected 1) toy3 = Some s"
proof -
  have r: "replicate 3 x = [x, x, x]" for x :: nat by (simp add: numeral_3_eq_3)
  let ?h = "set_vga_enabled False (set_vga_enabled False (hw toy3))"
  have "toy_hw ?h" using toy3_fields(2) by (simp add: toy_hw_def set_vga_enabled_def)
  from toy_switch(2) [OF this, of 256] obtain h' where "switch_address_space toyE (Some (PhysFrame 256)) ?h = Some h'"
    by auto
  moreover have "collected_user_pages (new_user\<lparr>root_page_frame := r\<rparr>) = []" for r
    by (simp add: collected_user_pages_def each_mapping_def new_user_def)
  ultimately show ?thesis
    by (simp add: r toy_run toy3_fields toy0_eq kill_task_def count_kill_def detach_task_def dead_task_def remove_from_wait_queue_def
        remove_task_from_endpoints_def remove_task_from_endpoint_def remove_all_loop.simps cleanup_user_mappings_of_address_space_def
        clear_user_mappings_def upd_aspace_def endpoints_to_close_def resolve_ipc_reply_waiters_for_dead_partner_def resolve_loop.simps
        should_rescue_def wake_task_to_ready_def ready_queue_contains_def maybe_halt_if_no_user_tasks_def alive_user_task_count_def)
qed

section \<open>A machine whose page tables refuse every mapping\<close>

definition toyF :: "toy_mem Env" where
  "toyF = toyE\<lparr>pt_map_to := (\<lambda>t v p fl al m fa. Some (Inl FrameAllocationFailed, m, fa))\<rparr>"

definition toyS :: "toy_mem KernelState" where
  "toyS = toy0\<lparr>mem_demo_frame := [None, Some (PhysFrame 9), None]\<rparr>"

lemma toyS_kinv: "kinv toyS"
proof -
  have "kinv toyS \<longleftrightarrow> kinv toy0"
    unfolding toyS_def kinv_def pre_kinv_def
    by (simp add: core_def shape_def rq_ok_def rdy_def ready_set_def ep_ok_def blk_def partner_ok_def ainv_def at_most_current_def toy0_eq)
  then show ?thesis using toy0_kinv by simp
qed

section \<open>A machine with level 4 tables\<close>

type_synonym tables = "u64 \<Rightarrow> usize \<Rightarrow> u64"

text \<open>The high alias shows the low four slots a second time, from slot 508 on: both addresses name one cell.\<close>

definition unalias :: "u64 \<Rightarrow> u64" where
  "unalias a = (if 0xFFFFFE0000000000 \<le> a then a - 0xFFFFFE0000000000 else a)"

definition toyT :: "tables Env" where
  "toyT = \<lparr>pf_demo = False, ignore_user_pf_demo = False, ring3_mailbox = False, ring3_mailbox_loop = False,
     dead_partner_test = False, endpoint_close_test = False, evil_double_map = False,
     evil_unmap_not_mapped = False, ipc_demo_single_slow = False,
     phys_addr_ok = (\<lambda>a. True), virt_addr_ok = (\<lambda>a. True),
     X_PRESENT = 1, X_WRITABLE = 2, X_USER_ACCESSIBLE = 4, X_NO_EXECUTE = 0x8000000000000000,
     pte_is_unused = (\<lambda>e. e = 0), pte_flags = (\<lambda>e. e), pte_addr = (\<lambda>e. e), pte_unused = 0,
     pml4_get = (\<lambda>m a i. m (unalias a) i), pml4_set = (\<lambda>m a i e. m(unalias a := (m (unalias a))(i := e))),
     pt_map_to = (\<lambda>t v p fl al m fa. None), pt_unmap = (\<lambda>t v m. (Inl PageNotMapped, m)), pt_translate = (\<lambda>t v m. None),
     regs_at = (\<lambda>n. (1, 1, 1)), recover_label = 1, undef_reg = 0, cr2_of_fault = (\<lambda>v. v),
     cpu_store = (\<lambda>c v x m. Inr m), cpu_load = (\<lambda>c v m. Inr 0), high_exec = (\<lambda>a x. x + 0x1111222233334444)\<rparr>"

text \<open>The physical memory map starts at slot 3, so that slot 511 shows it again.  The current table has the entry 3
  (present, writable) in slots 0 to 3 and 256 to 511, and none elsewhere.\<close>

definition toyTH :: "tables Machine" where
  "toyTH = \<lparr>cr3 = 0x1000, mem = (\<lambda>a i. if a = 0x18000001000 \<and> (i < 4 \<or> 256 \<le> i) then 3 else 0), reg_reads = 0, vga_enabled = True,
     PHYSICAL_MEMORY_OFFSET = 0x18000000000, ALLOW_REAL_CR3_SWITCH = True, GUARD_CODE_VIRT = 0, GUARD_STACK_VIRT = 0, GUARD_CODE_PHYS = 0,
     GUARD_STACK_PHYS = 0, GUARD_CODE_HIGH_VIRT = 0, GUARD_STACK_HIGH_VIRT = 0, ALIAS_COPY_COUNT = 0,
     RING3_DEMO_USER_ROOT_PHYS = 0, RING3_DEMO_KERNEL_ROOT_PHYS = 0, PF_GUARD_ACTIVE = 0,
     PF_GUARD_RECOVER_RIP = 0, PF_GUARD_HIT = 0, LAST_PF_VALID = 0, LAST_PF_ADDR = 0, LAST_PF_ERR = 0,
     LAST_PF_RIP = 0, LAST_PF_RSP = 0, LAST_PF_IS_USER = 0, DEMO_USER_ROOT_PHYS = 0,
     DEMO_KERNEL_ROOT_PHYS = 0, DEAD_PARTNER_FIRED = False, EVIL_MAP_STAGE = 0, EVIL_UNMAP_FIRED = False\<rparr>"

lemma unalias_window: "physmap_table 0x18000000000 b \<Longrightarrow> unalias b = b"
  using word_less_nat_alt [of "0x18000000000 + (b - 0x18000000000)" "0xFFFFFE0000000000"]
  by (auto simp: physmap_table_def unalias_def PHYSMAP_PML4_COPY_COUNT_def word_le_nat_alt word_less_nat_alt unat_sub)

lemma toyT_window: "physmap_table 0x18000000000 0x18000001000" "physmap_table 0x18000000000 0x18000100000"
  by (simp_all add: physmap_table_def PHYSMAP_PML4_COPY_COUNT_def)

lemma toyT_inactive: "inactive_table toyT 0x18000000000 0x18000100000"
  using toyT_window unalias_window by (simp add: inactive_table_def toyT_def)

lemma toyT_copy:
  assumes "a \<noteq> b" "unalias a = a" "unalias b = b" "m a = mem toyTH 0x18000001000"
  shows "\<exists>m'. foldM (copy_pml4_entry toyT a b) is m = Some m' \<and> m' a = mem toyTH 0x18000001000
    \<and> (\<forall>i. m' b i = (if i \<in> set is \<and> mem toyTH 0x18000001000 i \<noteq> 0 then mem toyTH 0x18000001000 i else m b i))"
  using assms(4)
proof (induction "is" arbitrary: m)
  case (Cons i "is")
  let ?m = "if m a i = 0 then m else m(b := (m b)(i := m a i))"
  have c: "copy_pml4_entry toyT a b i m = Some ?m"
    using Cons.prems assms(2,3) by (auto simp: copy_pml4_entry_def toyT_def x_contains_def toyTH_def)
  have "?m a = mem toyTH 0x18000001000" using Cons.prems assms(1) by simp
  from Cons.IH [of ?m, OF this] obtain m' where "foldM (copy_pml4_entry toyT a b) is ?m = Some m'" "m' a = mem toyTH 0x18000001000"
      "\<And>k. m' b k = (if k \<in> set is \<and> mem toyTH 0x18000001000 k \<noteq> 0 then mem toyTH 0x18000001000 k else ?m b k)" by blast
  then show ?case using c Cons.prems by auto
qed simp

lemma toyT_init: "\<exists>h'. init_user_pml4_from_current toyT (PhysFrame 256) toyTH = Some h'"
proof -
  define up where "up = [256..<512 :: usize]"
  define every where "every = [0..<512 :: usize]"
  have f: "frame_start_address (PhysFrame 256) = Some (PhysAddr 0x100000)"
    by (simp add: frame_start_address_def chk_mul_def PAGE_SIZE_def)
  have v: "phys_u64_to_virt_ptr 0x1000 toyTH = Some 0x18000001000" "phys_u64_to_virt_ptr 0x100000 toyTH = Some 0x18000100000"
    by (simp_all add: phys_u64_to_virt_ptr_def chk_add_def toyTH_def)
  have n: "assert_no_physmap_user_slot_collision toyTH = Some ()"
    by (simp add: assert_no_physmap_user_slot_collision_def toyTH_def USER_PML4_INDEX_def pml4_index_def PHYSMAP_PML4_COPY_COUNT_def)
  define m0 where "m0 = fold (\<lambda>i m. pml4_set toyT m 0x18000100000 i (pte_unused toyT)) every (mem toyTH)"
  have "fold (\<lambda>i m. pml4_set toyT m 0x18000100000 i (pte_unused toyT)) is m 0x18000001000 = m 0x18000001000" for "is" and m :: tables
    by (induction "is" arbitrary: m) (simp_all add: toyT_def unalias_def)
  then have m0: "m0 0x18000001000 = mem toyTH 0x18000001000" by (simp add: m0_def)
  have u: "(0x18000001000 :: u64) \<noteq> 0x18000100000" "unalias 0x18000001000 = 0x18000001000" "unalias 0x18000100000 = 0x18000100000"
    by (simp_all add: unalias_def)
  note copy = toyT_copy [OF u]
  let ?low = "[pml4_index (PHYSICAL_MEMORY_OFFSET toyTH)..<min (pml4_index (PHYSICAL_MEMORY_OFFSET toyTH) + PHYSMAP_PML4_COPY_COUNT) 256]"
  have low: "pml4_index (PHYSICAL_MEMORY_OFFSET toyTH) = 3" "3 \<in> set ?low"
    by (simp_all add: toyTH_def pml4_index_def PHYSMAP_PML4_COPY_COUNT_def)
  obtain m1 where m1: "foldM (copy_pml4_entry toyT 0x18000001000 0x18000100000) ?low m0 = Some m1" "m1 0x18000001000 = mem toyTH 0x18000001000" "m1 0x18000100000 3 = 3"
    using copy [of m0 ?low, OF m0] low(2) by (auto simp: toyTH_def)
  obtain m2 where m2: "foldM (copy_pml4_entry toyT 0x18000001000 0x18000100000) up m1 = Some m2" "m2 0x18000001000 = mem toyTH 0x18000001000"
    using copy [of m1 up, OF m1(2)] by auto
  obtain m3 where m3: "foldM (copy_pml4_entry toyT 0x18000001000 0x18000100000)
      (takeWhile (\<lambda>idx. idx < 512) (map ((+) KERNEL_ALIAS_DST_PML4_BASE_INDEX) [0..<alias_count toyTH])) m2 = Some m3"
    using copy [of m2, OF m2(2)] by auto
  have p: "(if pte_is_unused toyT (pml4_get toyT m1 0x18000100000 (pml4_index (PHYSICAL_MEMORY_OFFSET toyTH)))
      \<or> \<not> x_contains (pte_flags toyT (pml4_get toyT m1 0x18000100000 (pml4_index (PHYSICAL_MEMORY_OFFSET toyTH)))) (X_PRESENT toyT)
      then None else Some ()) = Some ()"
    using m1(3) low(1) u(3) by (simp add: toyT_def x_contains_def)
  have c: "cr3 toyTH = 0x1000" by (simp add: toyTH_def)
  show ?thesis
    unfolding init_user_pml4_from_current_def f v c PhysAddr.sel bind.bind_lunit Let_def n
      up_def [symmetric] every_def [symmetric] m0_def [symmetric] m1(1) bind.bind_lunit p m2(1) m3
    by blast
qed

end
