(* ===== verification/Vga.thy ===== *)
theory Vga
  imports Prelude
begin

text \<open>
  The VGA text console (\<open>logging/vga.rs\<close>): a writer on the 25 by 80 text buffer that always writes on the
  last row and scrolls on a line feed or at the right edge.  The buffer is a list of rows; a Rust
  string is the list of its bytes.  The refinement at the end: the screen is a window on an endless
  paper roll, of which it shows the last 25 rows.
\<close>

unbundle bit_operations_syntax

definition BUFFER_HEIGHT :: usize where "BUFFER_HEIGHT = 25"
definition BUFFER_WIDTH :: usize where "BUFFER_WIDTH = 80"

datatype Color = Black | LightGray

fun color_value :: "Color \<Rightarrow> u8" where
  "color_value Black = 0x0"
| "color_value LightGray = 0x7"

record ScreenChar =
  ascii_character :: u8
  sc_color_code :: u8

type_synonym Buffer = "ScreenChar list list"

record Writer =
  col :: usize
  color_code :: u8
  buffer :: Buffer

section \<open>The writer\<close>

definition put_char :: "usize \<Rightarrow> usize \<Rightarrow> ScreenChar \<Rightarrow> Buffer \<Rightarrow> Buffer" where
  "put_char row c ch b = b[row := (b ! row)[c := ch]]"

definition blank_char :: "u8 \<Rightarrow> ScreenChar" where
  "blank_char color = \<lparr>ascii_character = 32, sc_color_code = color\<rparr>"

definition clear_row :: "usize \<Rightarrow> Writer \<Rightarrow> Writer" where
  "clear_row row w =
     (let blank = blank_char (color_code w) in
      w\<lparr>buffer := fold (\<lambda>c b. put_char row c blank b) [0..<BUFFER_WIDTH] (buffer w)\<rparr>)"

definition copy_row_up :: "usize \<Rightarrow> Buffer \<Rightarrow> Buffer" where
  "copy_row_up row b = fold (\<lambda>c b. let ch = b ! row ! c in put_char (row - 1) c ch b) [0..<BUFFER_WIDTH] b"

definition new_line :: "Writer \<Rightarrow> Writer" where
  "new_line w =
     (let w1 = w\<lparr>buffer := fold copy_row_up [1..<BUFFER_HEIGHT] (buffer w)\<rparr>;
          w2 = clear_row (BUFFER_HEIGHT - 1) w1
      in w2\<lparr>col := 0\<rparr>)"

definition vga_write_byte :: "u8 \<Rightarrow> Writer \<Rightarrow> Writer" where
  "vga_write_byte byte w =
     (if byte = 10 then new_line w
      else (let w1 = (if col w \<ge> BUFFER_WIDTH then new_line w else w);
                row = BUFFER_HEIGHT - 1;
                c = col w1
            in w1\<lparr>buffer := put_char row c \<lparr>ascii_character = byte, sc_color_code = color_code w1\<rparr> (buffer w1),
                  col := col w1 + 1\<rparr>))"

definition writer_write_str :: "u8 list \<Rightarrow> Writer \<Rightarrow> Writer" where
  "writer_write_str s w = fold vga_write_byte s w"

definition writer_init :: "Buffer \<Rightarrow> Writer" where
  "writer_init hardware =
     \<lparr>col = 0, color_code = color_value LightGray OR push_bit 4 (color_value Black), buffer = hardware\<rparr>"

section \<open>Scrolling\<close>

definition buffer_wf :: "Buffer \<Rightarrow> bool" where
  "buffer_wf b \<longleftrightarrow> length b = BUFFER_HEIGHT \<and> (\<forall>r \<in> set b. length r = BUFFER_WIDTH)"

definition writer_wf :: "Writer \<Rightarrow> bool" where
  "writer_wf w \<longleftrightarrow> buffer_wf (buffer w) \<and> col w \<le> BUFFER_WIDTH"

lemma buffer_wfD:
  assumes "buffer_wf b"
  shows "length b = 25" "i < 25 \<Longrightarrow> length (b ! i) = 80"
  using assms by (auto simp: buffer_wf_def BUFFER_HEIGHT_def BUFFER_WIDTH_def)

text \<open>Writing the columns of a row one by one writes the row.\<close>

lemma fold_put_row:
  assumes "row < length b" "n \<le> length (b ! row)"
  shows "fold (\<lambda>c b. put_char row c (f c) b) [0..<n] b = b[row := map f [0..<n] @ drop n (b ! row)]"
  using assms(2)
proof (induction n)
  case (Suc n)
  then have n: "n < length (b ! row)" by simp
  have "(map f [0..<n] @ drop n (b ! row))[n := f n] = map f [0..<Suc n] @ drop (Suc n) (b ! row)"
    using n by (simp add: list_update_append Cons_nth_drop_Suc [symmetric])
  then show ?case using Suc assms(1) by (simp add: put_char_def)
qed (use assms(1) in simp)

lemma copy_row_up_eq:
  assumes "buffer_wf b" "0 < row" "row < 25"
  shows "copy_row_up row b = b[row - 1 := b ! row]"
proof -
  have l: "length b = 25" "length (b ! row) = 80" "length (b ! (row - 1)) = 80" using buffer_wfD [OF assms(1)] assms(2,3) by simp_all
  have "fold (\<lambda>c b'. let ch = b' ! row ! c in put_char (row - 1) c ch b') cs b' = fold (\<lambda>c b'. put_char (row - 1) c (b ! row ! c) b') cs b'"
    if "b' ! row = b ! row" for cs b'
    using that assms(2) by (induction cs arbitrary: b') (simp_all add: put_char_def)
  then have "copy_row_up row b = b[row - 1 := map ((!) (b ! row)) [0..<80] @ drop 80 (b ! (row - 1))]"
    using fold_put_row [of "row - 1" b 80 "(!) (b ! row)"] l assms(3) by (simp add: copy_row_up_def BUFFER_WIDTH_def)
  then show ?thesis using l map_nth [of "b ! row"] by simp
qed

lemma buffer_wf_update: "buffer_wf b \<Longrightarrow> length r = 80 \<Longrightarrow> buffer_wf (b[i := r])"
  by (auto simp: buffer_wf_def BUFFER_WIDTH_def dest!: set_update_subset_insert [THEN subsetD])

lemma copy_rows_up:
  assumes "buffer_wf b" "n < 25"
  shows "fold copy_row_up [1..<Suc n] b = take n (tl b) @ drop n b"
  using assms(2)
proof (induction n)
  case 0
  then show ?case by simp
next
  case (Suc n)
  note l = buffer_wfD [OF assms(1)]
  have IH: "fold copy_row_up [1..<Suc n] b = take n (tl b) @ drop n b" using Suc by simp
  have wf: "buffer_wf (take n (tl b) @ drop n b)"
    using assms(1) l(1) Suc.prems unfolding buffer_wf_def BUFFER_HEIGHT_def
    by (auto dest!: in_set_takeD in_set_dropD list.set_sel(2) [rotated])
  have "(take n (tl b) @ drop n b)[n := (take n (tl b) @ drop n b) ! Suc n] = take (Suc n) (tl b) @ drop (Suc n) b"
    using l(1) Suc.prems
    by (simp add: nth_append list_update_append take_Suc_conv_app_nth nth_tl Cons_nth_drop_Suc [symmetric])
  then show ?case using copy_row_up_eq [OF wf, of "Suc n"] IH Suc.prems by simp
qed

text \<open>The nested loops of \<open>new_line\<close> drop the first row and add a blank one.\<close>

lemma new_line_eq:
  assumes "writer_wf w"
  shows "new_line w = w\<lparr>buffer := tl (buffer w) @ [replicate 80 (blank_char (color_code w))], col := 0\<rparr>"
proof -
  have wf: "buffer_wf (buffer w)" using assms by (simp add: writer_wf_def)
  note l = buffer_wfD [OF wf]
  have a: "fold copy_row_up [1..<BUFFER_HEIGHT] (buffer w) = tl (buffer w) @ [buffer w ! 24]"
    using copy_rows_up [OF wf, of 24] l(1) Cons_nth_drop_Suc [of 24 "buffer w"] by (simp add: BUFFER_HEIGHT_def)
  have "fold (\<lambda>c b. put_char 24 c x b) [0..<80] (tl (buffer w) @ [buffer w ! 24]) = tl (buffer w) @ [replicate 80 x]" for x
    using fold_put_row [of 24 "tl (buffer w) @ [buffer w ! 24]" 80 "\<lambda>_. x"] l
    by (simp add: nth_append list_update_append map_replicate_const)
  then show ?thesis unfolding new_line_def clear_row_def Let_def a by (simp add: BUFFER_WIDTH_def BUFFER_HEIGHT_def)
qed

section \<open>The screen is a window on a paper roll\<close>

text \<open>The reference: a roll of rows and a column, never scrolled.  A line feed, and a character beyond the
  right edge, start a fresh row.\<close>

definition fresh_row :: "u8 \<Rightarrow> ScreenChar list" where
  "fresh_row color = replicate BUFFER_WIDTH (blank_char color)"

definition roll_byte :: "u8 \<Rightarrow> u8 \<Rightarrow> Buffer \<times> usize \<Rightarrow> Buffer \<times> usize" where
  "roll_byte color byte p = (case p of (rows, c) \<Rightarrow>
     if byte = 10 then (rows @ [fresh_row color], 0)
     else if c < BUFFER_WIDTH
       then (butlast rows @ [(List.last rows)[c := \<lparr>ascii_character = byte, sc_color_code = color\<rparr>]], c + 1)
     else (rows @ [(fresh_row color)[0 := \<lparr>ascii_character = byte, sc_color_code = color\<rparr>]], 1))"

definition shows_roll :: "Writer \<Rightarrow> Buffer \<times> usize \<Rightarrow> bool" where
  "shows_roll w p \<longleftrightarrow> writer_wf w \<and> length (fst p) \<ge> BUFFER_HEIGHT \<and> buffer w = drop (length (fst p) - BUFFER_HEIGHT) (fst p) \<and> col w = snd p"

lemma put_last_row:
  assumes "buffer_wf b"
  shows "put_char 24 c x b = butlast b @ [(List.last b)[c := x]]"
proof -
  have l: "length b = 25" using buffer_wfD [OF assms] by simp
  then obtain a z where b: "b = a @ [z]" "length a = 24" by (cases b rule: rev_cases) auto
  then show ?thesis by (simp add: put_char_def nth_append list_update_append)
qed

lemma shows_roll_step:
  assumes "shows_roll w p"
  shows "shows_roll (vga_write_byte byte w) (roll_byte (color_code w) byte p)" "color_code (vga_write_byte byte w) = color_code w"
proof -
  obtain rows c where p: "p = (rows, c)" by fastforce
  have w: "writer_wf w" "25 \<le> length rows" "buffer w = drop (length rows - 25) rows" "col w = c"
    using assms p by (simp_all add: shows_roll_def BUFFER_HEIGHT_def)
  have wf: "buffer_wf (buffer w)" using w(1) by (simp add: writer_wf_def)
  have ne: "rows \<noteq> []" "buffer w \<noteq> []" using w(2) buffer_wfD(1) [OF wf] by auto
  have l: "List.last (buffer w) = List.last rows" "butlast (buffer w) = drop (length rows - 25) (butlast rows)"
    using w(2,3) by (simp_all add: butlast_drop)
  have rl: "length (List.last rows) = 80" using wf l(1) ne by (metis buffer_wf_def BUFFER_WIDTH_def last_in_set)
  have tl: "tl (buffer w) @ [r] = drop (Suc (length rows) - 25) (rows @ [r])" for r
  proof -
    have "Suc (length rows) - 25 = Suc (length rows - 25)" using w(2) by simp
    then show ?thesis using w(2,3) drop_Suc [of "length rows - 25" rows] by (simp only: drop_append tl_drop) simp
  qed
  have bw: "buffer_wf (tl (buffer w) @ [r])" if "length r = 80" for r
    using wf that ne(2) unfolding buffer_wf_def BUFFER_HEIGHT_def BUFFER_WIDTH_def by (auto dest: list.set_sel(2))
  note nl = new_line_eq [OF w(1)]
  show "color_code (vga_write_byte byte w) = color_code w" using nl by (simp add: vga_write_byte_def Let_def)
  consider "byte = 10" | "byte \<noteq> 10" "c < 80" | "byte \<noteq> 10" "80 \<le> c" by linarith
  then show "shows_roll (vga_write_byte byte w) (roll_byte (color_code w) byte p)"
  proof cases
    case 1
    then show ?thesis using nl tl bw p w(2) by (simp add: vga_write_byte_def roll_byte_def shows_roll_def writer_wf_def fresh_row_def
          BUFFER_HEIGHT_def BUFFER_WIDTH_def)
  next
    case 2
    let ?x = "\<lparr>ascii_character = byte, sc_color_code = color_code w\<rparr>"
    have "buffer_wf (put_char 24 c ?x (buffer w))"
      using buffer_wf_update [OF wf] buffer_wfD [OF wf] by (simp add: put_char_def)
    moreover have "put_char 24 c ?x (buffer w) = drop (length rows - 25) (butlast rows @ [(List.last rows)[c := ?x]])"
      using put_last_row [OF wf] l w(2) by simp
    ultimately show ?thesis using 2 w p ne by (simp add: vga_write_byte_def roll_byte_def shows_roll_def writer_wf_def
          BUFFER_HEIGHT_def BUFFER_WIDTH_def)
  next
    case 3
    let ?x = "\<lparr>ascii_character = byte, sc_color_code = color_code w\<rparr>"
    let ?r = "(fresh_row (color_code w))[0 := ?x]"
    have r: "length ?r = 80" by (simp add: fresh_row_def BUFFER_WIDTH_def)
    have "put_char 24 0 ?x (tl (buffer w) @ [replicate 80 (blank_char (color_code w))]) = tl (buffer w) @ [?r]"
      using put_last_row [OF bw, of "replicate 80 (blank_char (color_code w))"] by (simp add: fresh_row_def BUFFER_WIDTH_def)
    then show ?thesis using 3 nl tl [of ?r] bw [OF r] w p by (simp add: vga_write_byte_def roll_byte_def shows_roll_def writer_wf_def
          BUFFER_HEIGHT_def BUFFER_WIDTH_def)
  qed
qed

lemma shows_roll_fold:
  assumes "shows_roll w p"
  shows "shows_roll (fold vga_write_byte bs w) (fold (roll_byte (color_code w)) bs p)"
  using assms
proof (induction bs arbitrary: w p)
  case (Cons x bs)
  from Cons.IH [OF shows_roll_step(1) [OF Cons.prems], of x] shows_roll_step(2) [OF Cons.prems, of x] show ?case by simp
qed simp

text \<open>C32: whatever bytes are written, the VGA buffer shows exactly the last 25 rows of the text as it would be on
  an endless roll of 80 columns, and every write is inside the buffer.\<close>

theorem vga_shows_last_rows:
  assumes "writer_wf w"
  shows "writer_wf (writer_write_str s w)
    \<and> buffer (writer_write_str s w)
      = (let rows = fst (fold (roll_byte (color_code w)) s (buffer w, col w)) in drop (length rows - BUFFER_HEIGHT) rows)"
proof -
  have "shows_roll w (buffer w, col w)" using assms by (simp add: shows_roll_def writer_wf_def buffer_wf_def)
  from shows_roll_fold [OF this, of s] show ?thesis by (simp add: shows_roll_def writer_write_str_def Let_def)
qed

theorem vga_shows_last_rows_witness:
  "writer_wf (writer_write_str [72, 105, 10] (writer_init (replicate 25 (replicate 80 (blank_char 7)))))"
proof -
  have "writer_wf (writer_init (replicate 25 (replicate 80 (blank_char 7))))"
    by (simp add: writer_wf_def writer_init_def buffer_wf_def BUFFER_HEIGHT_def BUFFER_WIDTH_def)
  from vga_shows_last_rows [OF this] show ?thesis by blast
qed

end
