(* ===== verification/Logging.thy ===== *)
theory Logging
  imports Vga Machine
begin

text \<open>
  The log (\<open>logging/mod.rs\<close>, \<open>logging/serial.rs\<close>) and the lock-free emergency output of
  \<open>arch/interrupts.rs\<close>.  A port is seen through the bytes written to it, in order; the line status
  register is a device, the parameter \<open>lsr\<close>: \<open>lsr n\<close> is what its n-th read returns.  The serial
  output waits for the device without a bound, so it is a partial function (\<open>None\<close> when the device is
  never ready); the emergency output gives up after 10,000 reads and is total.  The argument \<open>en\<close> is
  the static \<open>VGA_ENABLED\<close>, which the kernel model has in its machine state.
\<close>

unbundle bit_operations_syntax

type_synonym lsr = "nat \<Rightarrow> u8"

record Console =
  WRITER :: "Writer option"
  SERIAL_INITIALIZED :: bool
  port_writes :: "(u16 \<times> u8) list"
  lsr_reads :: nat

definition port_write :: "u16 \<Rightarrow> u8 \<Rightarrow> Console \<Rightarrow> Console" where
  "port_write p b c = c\<lparr>port_writes := port_writes c @ [(p, b)]\<rparr>"

definition bytes :: "string \<Rightarrow> u8 list" where
  "bytes s = map of_char s"

section \<open>VGA, guarded\<close>

definition is_vga_enabled :: "'m Machine \<Rightarrow> bool" where
  "is_vga_enabled h = vga_enabled h"

definition vga_init :: "Buffer \<Rightarrow> Console \<Rightarrow> Console" where
  "vga_init hardware c = c\<lparr>WRITER := Some (writer_init hardware)\<rparr>"

definition vga_write_str :: "bool \<Rightarrow> u8 list \<Rightarrow> Console \<Rightarrow> Console" where
  "vga_write_str en s c =
     (if \<not> en then c
      else (case WRITER c of Some w \<Rightarrow> c\<lparr>WRITER := Some (writer_write_str s w)\<rparr> | None \<Rightarrow> c))"

definition vga_write_line :: "bool \<Rightarrow> u8 list \<Rightarrow> Console \<Rightarrow> Console" where
  "vga_write_line en s c =
     (if \<not> en then c
      else (case WRITER c of
              Some w \<Rightarrow> c\<lparr>WRITER := Some (writer_write_str (bytes [CHR 10]) (writer_write_str s w))\<rparr>
            | None \<Rightarrow> c))"

definition vga_write_prefixed_line :: "bool \<Rightarrow> u8 list \<Rightarrow> u8 list \<Rightarrow> Console \<Rightarrow> Console" where
  "vga_write_prefixed_line en prefix msg c =
     (if \<not> en then c
      else (case WRITER c of
              Some w \<Rightarrow> c\<lparr>WRITER := Some (writer_write_str (bytes [CHR 10]) (writer_write_str msg (writer_write_str prefix w)))\<rparr>
            | None \<Rightarrow> c))"

section \<open>The serial port\<close>

definition serial_init :: "Console \<Rightarrow> Console" where
  "serial_init c =
     (if SERIAL_INITIALIZED c then c
      else fold (\<lambda>(p, b). port_write p b)
             [(0x3F8 + 1, 0x00), (0x3F8 + 3, 0x80), (0x3F8 + 0, 0x01), (0x3F8 + 1, 0x00),
              (0x3F8 + 3, 0x03), (0x3F8 + 2, 0xC7), (0x3F8 + 4, 0x0B)]
             (c\<lparr>SERIAL_INITIALIZED := True\<rparr>))"

partial_function (option) wait_ready :: "lsr \<Rightarrow> nat \<Rightarrow> nat option" where
  "wait_ready lsr n = (if lsr n AND 0x20 = 0 then wait_ready lsr (n + 1) else Some (n + 1))"

definition serial_write_byte :: "lsr \<Rightarrow> u8 \<Rightarrow> Console \<Rightarrow> Console option" where
  "serial_write_byte lsr byte c = do {
     n \<leftarrow> wait_ready lsr (lsr_reads c);
     Some (port_write (0x3F8 + 0) byte (c\<lparr>lsr_reads := n\<rparr>))
   }"

definition serial_write_str :: "lsr \<Rightarrow> u8 list \<Rightarrow> Console \<Rightarrow> Console option" where
  "serial_write_str lsr s c = foldM (serial_write_byte lsr) s c"

definition serial_write_line :: "lsr \<Rightarrow> u8 list \<Rightarrow> Console \<Rightarrow> Console option" where
  "serial_write_line lsr s c = do {
     c1 \<leftarrow> serial_write_str lsr s c;
     serial_write_str lsr (bytes [CHR 13, CHR 10]) c1
   }"

definition serial_write_prefixed_line :: "lsr \<Rightarrow> u8 list \<Rightarrow> u8 list \<Rightarrow> Console \<Rightarrow> Console option" where
  "serial_write_prefixed_line lsr prefix msg c = do {
     c1 \<leftarrow> serial_write_str lsr prefix c;
     serial_write_line lsr msg c1
   }"

section \<open>Decimal numbers\<close>

text \<open>The digits are written into a buffer of 21 bytes from its end; \<open>i\<close> is the index of the last written.\<close>

function decimal_loop :: "u64 \<Rightarrow> usize \<Rightarrow> u8 list \<Rightarrow> (usize \<times> u8 list) option" where
  "decimal_loop value i buf =
     (if value > 0 then
        (let digit = (ucast (value mod 10) :: u8) in
         if i = 0 then None
         else decimal_loop (value div 10) (i - 1) (buf[i - 1 := 48 + digit]))
      else Some (i, buf))"
  by pat_completeness auto
termination
  by (relation "measure (\<lambda>(value, i, buf). unat value)") (auto simp: unat_div word_less_nat_alt)

declare decimal_loop.simps [simp del]

definition u64_to_decimal :: "u64 \<Rightarrow> u8 list \<Rightarrow> u8 list option" where
  "u64_to_decimal value buf =
     (if value = 0 then
        (let last_pos = length buf - 1; buf1 = buf[last_pos := 48] in Some (drop last_pos buf1))
      else do {
        (i, buf1) \<leftarrow> decimal_loop value (length buf) buf;
        Some (drop i buf1)
      })"

section \<open>Log records\<close>

definition log_init :: "Buffer \<Rightarrow> Console \<Rightarrow> Console" where
  "log_init hardware c = serial_init (vga_init hardware c)"

definition log_info :: "bool \<Rightarrow> lsr \<Rightarrow> string \<Rightarrow> Console \<Rightarrow> Console option" where
  "log_info en lsr msg c =
     serial_write_prefixed_line lsr (bytes ''[INFO] '') (bytes msg)
       (vga_write_prefixed_line en (bytes ''[INFO] '') (bytes msg) c)"

definition log_error :: "bool \<Rightarrow> lsr \<Rightarrow> string \<Rightarrow> Console \<Rightarrow> Console option" where
  "log_error en lsr msg c =
     serial_write_prefixed_line lsr (bytes ''[ERROR] '') (bytes msg)
       (vga_write_prefixed_line en (bytes ''[ERROR] '') (bytes msg) c)"

definition log_info_kv :: "bool \<Rightarrow> lsr \<Rightarrow> string \<Rightarrow> u64 \<Rightarrow> Console \<Rightarrow> Console option" where
  "log_info_kv en lsr key value c = do {
     s \<leftarrow> u64_to_decimal value (replicate 21 0);
     (if key = [] then do {
        let c1 = vga_write_line en s (vga_write_str en (bytes ''[INFO] '') c);
        c2 \<leftarrow> serial_write_str lsr (bytes ''[INFO] '') c1;
        serial_write_line lsr s c2
      } else do {
        let c1 = vga_write_line en s (vga_write_str en (bytes '' = '') (vga_write_str en (bytes key) (vga_write_str en (bytes ''[INFO] '') c)));
        c2 \<leftarrow> serial_write_str lsr (bytes ''[INFO] '') c1;
        c3 \<leftarrow> serial_write_str lsr (bytes key) c2;
        c4 \<leftarrow> serial_write_str lsr (bytes '' = '') c3;
        serial_write_line lsr s c4
      })
   }"

definition log_info_u64 :: "bool \<Rightarrow> lsr \<Rightarrow> string \<Rightarrow> u64 \<Rightarrow> Console \<Rightarrow> Console option" where
  "log_info_u64 en lsr label value c = log_info_kv en lsr label value c"

definition emergency_error :: "lsr \<Rightarrow> string \<Rightarrow> Console \<Rightarrow> Console option" where
  "emergency_error lsr msg c = serial_write_prefixed_line lsr (bytes ''[ERROR] '') (bytes msg) c"

definition emergency_info_kv :: "lsr \<Rightarrow> string \<Rightarrow> u64 \<Rightarrow> Console \<Rightarrow> Console option" where
  "emergency_info_kv lsr key value c = do {
     s \<leftarrow> u64_to_decimal value (replicate 21 0);
     (if key = [] then do {
        c1 \<leftarrow> serial_write_str lsr (bytes ''[INFO] '') c;
        serial_write_line lsr s c1
      } else do {
        c1 \<leftarrow> serial_write_str lsr (bytes ''[INFO] '') c;
        c2 \<leftarrow> serial_write_str lsr (bytes key) c1;
        c3 \<leftarrow> serial_write_str lsr (bytes '' = '') c2;
        serial_write_line lsr s c3
      })
   }"

section \<open>Emergency output\<close>

fun poll_lsr :: "lsr \<Rightarrow> nat \<Rightarrow> nat \<Rightarrow> nat" where
  "poll_lsr lsr 0 n = n"
| "poll_lsr lsr (Suc k) n = (if lsr n AND 0x20 \<noteq> 0 then n + 1 else poll_lsr lsr k (n + 1))"

definition emergency_write_byte :: "lsr \<Rightarrow> u8 \<Rightarrow> Console \<Rightarrow> Console" where
  "emergency_write_byte lsr b c =
     (let c1 = port_write 0xE9 b c;
          c2 = c1\<lparr>lsr_reads := poll_lsr lsr 10000 (lsr_reads c1)\<rparr>
      in port_write 0x3F8 b c2)"

definition emergency_write_str :: "lsr \<Rightarrow> u8 list \<Rightarrow> Console \<Rightarrow> Console" where
  "emergency_write_str lsr s c = fold (emergency_write_byte lsr) s c"

definition hex_digit :: "u64 \<Rightarrow> nat \<Rightarrow> u8" where
  "hex_digit v i =
     (let n = (ucast (drop_bit (i * 4) v AND 0xF) :: u8) in if n < 10 then 48 + n else 97 + (n - 10))"

definition emergency_write_hex_u64 :: "lsr \<Rightarrow> u64 \<Rightarrow> Console \<Rightarrow> Console" where
  "emergency_write_hex_u64 lsr v c =
     fold (\<lambda>i. emergency_write_byte lsr (hex_digit v i)) (rev [0..<16]) (emergency_write_str lsr (bytes ''0x'') c)"

section \<open>The decimal routine computes the decimal digits\<close>

fun decimal :: "nat \<Rightarrow> u8 list" where
  "decimal n = (if n < 10 then [48 + of_nat n] else decimal (n div 10) @ [48 + of_nat (n mod 10)])"

declare decimal.simps [simp del]

definition digits_value :: "u8 list \<Rightarrow> nat" where
  "digits_value s = fold (\<lambda>d acc. acc * 10 + (unat d - 48)) s 0"

lemma unat_digit: "n < 10 \<Longrightarrow> unat (48 + of_nat n :: u8) = 48 + n"
  by (simp add: unat_word_ariths unsigned_of_nat take_bit_eq_mod)

lemma digits_value_decimal: "digits_value (decimal n) = n"
proof (induction n rule: decimal.induct)
  case (1 n)
  then show ?case
    by (cases "n < 10") (simp_all add: decimal.simps [of n] digits_value_def unat_digit)
qed

lemma decimal_digits: "d \<in> set (decimal n) \<Longrightarrow> 48 \<le> unat d \<and> unat d \<le> 57"
proof (induction n rule: decimal.induct)
  case (1 n)
  show ?case
  proof (cases "n < 10")
    case True
    then show ?thesis using "1.prems" unat_digit [of n] by (simp add: decimal.simps [of n])
  next
    case False
    then have "d \<in> set (decimal (n div 10)) \<or> d = 48 + of_nat (n mod 10)" using "1.prems" by (auto simp: decimal.simps [of n])
    then show ?thesis using "1.IH" [OF False] unat_digit [of "n mod 10"] by fastforce
  qed
qed

lemma decimal_nonempty: "decimal n \<noteq> []"
  by (simp add: decimal.simps [of n])

lemma length_decimal: "n < 10 ^ k \<Longrightarrow> 0 < k \<Longrightarrow> length (decimal n) \<le> k"
proof (induction n arbitrary: k rule: decimal.induct)
  case (1 n)
  show ?case
  proof (cases "n < 10")
    case True
    then show ?thesis using "1.prems" by (simp add: decimal.simps [of n])
  next
    case False
    obtain k' where k: "k = Suc k'" using "1.prems"(2) by (cases k) auto
    with False "1.prems" have "n div 10 < 10 ^ k'" "0 < k'" by (auto intro: gr0I)
    then show ?thesis using "1.IH" [OF False, of k'] False k by (simp add: decimal.simps [of n])
  qed
qed

lemma decimal_no_leading_zero: "0 < n \<Longrightarrow> hd (decimal n) \<noteq> 48"
proof (induction n rule: decimal.induct)
  case (1 n)
  show ?case
  proof (cases "n < 10")
    case True
    then have "unat (48 + of_nat n :: u8) \<noteq> unat (48 :: u8)" using "1.prems" by (simp add: unat_digit)
    then show ?thesis using True by (auto simp: decimal.simps [of n])
  next
    case False
    then show ?thesis using "1.IH" by (simp add: decimal.simps [of n] decimal_nonempty)
  qed
qed

lemma digit_cast: "(ucast (v mod 10 :: u64) :: u8) = of_nat (unat v mod 10)"
  by (rule word_unat_eq_iff [THEN iffD2])
     (simp add: unsigned_ucast_eq unat_mod unsigned_of_nat take_bit_eq_mod)

lemma u64_bound: "unat (v :: u64) < 18446744073709551616"
  using unsigned_less [of v] by simp

lemma decimal_loop_eq:
  assumes "0 < v" "length (decimal (unat v)) \<le> i" "i \<le> length buf"
  shows "\<exists>buf'. decimal_loop v i buf = Some (i - length (decimal (unat v)), buf') \<and> length buf' = length buf
    \<and> drop (i - length (decimal (unat v))) buf' = decimal (unat v) @ drop i buf"
  using assms
proof (induction v i buf rule: decimal_loop.induct)
  case (1 v i buf)
  let ?d = "48 + of_nat (unat v mod 10) :: u8"
  have i: "0 < i" using "1.prems"(2) decimal_nonempty [of "unat v"] by (cases i) auto
  have step: "decimal_loop v i buf = decimal_loop (v div 10) (i - 1) (buf[i - 1 := ?d])"
    using "1.prems"(1) i by (subst decimal_loop.simps) (simp add: digit_cast)
  have dv: "unat (v div 10) = unat v div 10" by (simp add: unat_div)
  have dr: "drop (i - 1) (buf[i - 1 := ?d]) = ?d # drop i buf"
    using i "1.prems"(3) Cons_nth_drop_Suc [of "i - 1" "buf[i - 1 := ?d]"] by simp
  show ?case
  proof (cases "unat v < 10")
    case True
    then have "decimal (unat v) = [?d]" by (simp add: decimal.simps [of "unat v"])
    moreover have "v div 10 = 0" using True dv by (simp add: unat_eq_0 [symmetric])
    then have "decimal_loop (v div 10) (i - 1) (buf[i - 1 := ?d]) = Some (i - 1, buf[i - 1 := ?d])" by (subst decimal_loop.simps) simp
    ultimately show ?thesis using step dr by simp
  next
    case False
    have d: "decimal (unat v) = decimal (unat v div 10) @ [?d]" using False by (subst decimal.simps) simp
    have "0 < v div 10" using False dv by (simp add: word_greater_zero_iff unat_eq_0 [symmetric] del: word_neq_0_conv)
    moreover have "length (decimal (unat (v div 10))) \<le> i - 1" using "1.prems"(2) d dv by simp
    ultimately obtain buf' where "decimal_loop (v div 10) (i - 1) (buf[i - 1 := ?d]) = Some (i - 1 - length (decimal (unat v div 10)), buf')"
        "length buf' = length buf" "drop (i - 1 - length (decimal (unat v div 10))) buf' = decimal (unat v div 10) @ drop (i - 1) (buf[i - 1 := ?d])"
      using "1.IH" [OF _ refl] "1.prems"(1,3) i dv by (fastforce simp: digit_cast)
    then show ?thesis using step d dr by simp
  qed
qed

lemma u64_to_decimal_eq:
  assumes "length buf = 21"
  shows "u64_to_decimal v buf = Some (decimal (unat v))"
proof (cases "v = 0")
  case True
  then show ?thesis using assms Cons_nth_drop_Suc [of 20 "buf[20 := 48]"] by (simp add: u64_to_decimal_def decimal.simps Let_def)
next
  case False
  have "unat v < 10 ^ 20" using u64_bound [of v] by simp
  then have "length (decimal (unat v)) \<le> 21" using length_decimal [of "unat v" 20] by simp
  then show ?thesis using decimal_loop_eq [of v 21 buf] False assms
    by (auto simp: u64_to_decimal_def word_gt_0)
qed

text \<open>C34: the number formatter never runs out of its 21-byte buffer and writes the decimal digits of its argument:
  between one and twenty ASCII digits, no leading zero, that read back as the number.\<close>

theorem u64_to_decimal_round_trip:
  "\<exists>s. u64_to_decimal v (replicate 21 0) = Some s \<and> digits_value s = unat v \<and> s \<noteq> [] \<and> length s \<le> 20
    \<and> list_all (\<lambda>d. 48 \<le> unat d \<and> unat d \<le> 57) s \<and> (hd s = 48 \<longleftrightarrow> v = 0)"
proof -
  have "unat v < 10 ^ 20" using u64_bound [of v] by simp
  then show ?thesis
    using u64_to_decimal_eq [of "replicate 21 0" v] digits_value_decimal length_decimal [of "unat v" 20] decimal_nonempty
      decimal_digits decimal_no_leading_zero [of "unat v"] by (auto simp: list_all_iff unat_gt_0 decimal.simps [of 0])
qed

section \<open>Output in order\<close>

definition eventually_ready :: "lsr \<Rightarrow> bool" where
  "eventually_ready lsr \<longleftrightarrow> (\<forall>n. \<exists>k. lsr (n + k) AND 0x20 \<noteq> 0)"

lemma wait_ready_returns:
  assumes "lsr (n + k) AND 0x20 \<noteq> 0"
  shows "\<exists>m. wait_ready lsr n = Some m"
  using assms
proof (induction k arbitrary: n)
  case 0
  then show ?case by (subst wait_ready.simps) simp
next
  case (Suc k)
  then have "\<exists>m. wait_ready lsr (n + 1) = Some m" by simp
  then show ?case by (subst wait_ready.simps) simp
qed

definition serial_bytes :: "u8 list \<Rightarrow> (u16 \<times> u8) list" where
  "serial_bytes s = map (Pair 0x3F8) s"

lemma serial_bytes_append [simp]: "serial_bytes (s @ t) = serial_bytes s @ serial_bytes t"
  by (simp add: serial_bytes_def)

text \<open>The serial output as a whole: with a device that is ready again and again it returns, having written
  the bytes in order, and it touches nothing else.\<close>

definition serial_post :: "lsr \<Rightarrow> u8 list \<Rightarrow> Console \<Rightarrow> Console option \<Rightarrow> bool" where
  "serial_post lsr s c r \<longleftrightarrow> post (eventually_ready lsr) r
     (\<lambda>c'. port_writes c' = port_writes c @ serial_bytes s \<and> WRITER c' = WRITER c \<and> SERIAL_INITIALIZED c' = SERIAL_INITIALIZED c)"

lemma serial_post_byte: "serial_post lsr [b] c (serial_write_byte lsr b c)"
proof (cases "wait_ready lsr (lsr_reads c)")
  case None
  then have "\<not> eventually_ready lsr" using wait_ready_returns [of lsr "lsr_reads c"] by (auto simp: eventually_ready_def)
  then show ?thesis using None by (simp add: serial_post_def serial_write_byte_def)
qed (simp add: serial_post_def serial_write_byte_def port_write_def serial_bytes_def)

lemma serial_post_bind:
  assumes "serial_post lsr s c r" "\<And>c'. serial_post lsr t c' (f c')"
  shows "serial_post lsr (s @ t) c (Option.bind r f)"
  unfolding serial_post_def
  by (rule post_bindI [OF assms(1) [unfolded serial_post_def]], rule post_mono [OF assms(2) [unfolded serial_post_def]]) simp

lemma serial_post_str: "serial_post lsr s c (serial_write_str lsr s c)"
proof (induction s arbitrary: c)
  case Nil
  then show ?case by (simp add: serial_post_def serial_write_str_def serial_bytes_def)
next
  case (Cons b s)
  from serial_post_bind [OF serial_post_byte Cons.IH] show ?case by (simp add: serial_write_str_def)
qed

lemma serial_post_line: "serial_post lsr (s @ [13, 10]) c (serial_write_line lsr s c)"
  unfolding serial_write_line_def
  using serial_post_bind [OF serial_post_str serial_post_str, of lsr s "bytes [CHR 13, CHR 10]"] by (simp add: bytes_def)

lemma serial_post_prefixed: "serial_post lsr (p @ s @ [13, 10]) c (serial_write_prefixed_line lsr p s c)"
  unfolding serial_write_prefixed_line_def by (rule serial_post_bind [OF serial_post_str serial_post_line])

lemma vga_ports [simp]:
  "port_writes (vga_write_str en s c) = port_writes c" "port_writes (vga_write_line en s c) = port_writes c"
  "port_writes (vga_write_prefixed_line en p s c) = port_writes c"
  by (simp_all add: vga_write_str_def vga_write_line_def vga_write_prefixed_line_def split: option.split)

lemma vga_off [simp]:
  "vga_write_str False s c = c" "vga_write_line False s c = c" "vga_write_prefixed_line False p s c = c"
  by (simp_all add: vga_write_str_def vga_write_line_def vga_write_prefixed_line_def)

lemma writer_write_append: "writer_write_str t (writer_write_str s w) = writer_write_str (s @ t) w"
  by (simp add: writer_write_str_def)

lemma vga_on [simp]:
  "WRITER (vga_write_str True s c) = map_option (writer_write_str s) (WRITER c)"
  "WRITER (vga_write_line True s c) = map_option (writer_write_str (s @ [10])) (WRITER c)"
  "WRITER (vga_write_prefixed_line True p s c) = map_option (writer_write_str (p @ s @ [10])) (WRITER c)"
  by (simp_all add: vga_write_str_def vga_write_line_def vga_write_prefixed_line_def writer_write_append bytes_def split: option.split)

lemma log_info_kv_spec:
  assumes "eventually_ready lsr" "key \<noteq> []"
  shows "\<exists>c'. log_info_kv en lsr key v c = Some c'
    \<and> port_writes c' = port_writes c @ serial_bytes (bytes ''[INFO] '' @ bytes key @ bytes '' = '' @ decimal (unat v) @ [13, 10])
    \<and> WRITER c' = (if en then map_option (writer_write_str (bytes ''[INFO] '' @ bytes key @ bytes '' = '' @ decimal (unat v) @ [10])) (WRITER c) else WRITER c)"
proof -
  let ?d = "decimal (unat v)"
  define c1 where "c1 = vga_write_line en ?d (vga_write_str en (bytes '' = '') (vga_write_str en (bytes key) (vga_write_str en (bytes ''[INFO] '') c)))"
  define ser where "ser = do { c2 \<leftarrow> serial_write_str lsr (bytes ''[INFO] '') c1; c3 \<leftarrow> serial_write_str lsr (bytes key) c2;
      c4 \<leftarrow> serial_write_str lsr (bytes '' = '') c3; serial_write_line lsr ?d c4 }"
  have k: "log_info_kv en lsr key v c = ser"
    using assms(2) u64_to_decimal_eq [of "replicate 21 0" v] by (simp add: log_info_kv_def ser_def c1_def Let_def)
  have w: "WRITER c1 = (if en then map_option (writer_write_str (bytes ''[INFO] '' @ bytes key @ bytes '' = '' @ ?d @ [10])) (WRITER c) else WRITER c)" "port_writes c1 = port_writes c"
    by (simp_all add: c1_def option.map_comp comp_def writer_write_append)
  have "serial_post lsr (bytes ''[INFO] '' @ bytes key @ bytes '' = '' @ (?d @ [13, 10])) c1 ser"
    unfolding ser_def by (intro serial_post_bind serial_post_str serial_post_line)
  from post_strictD [OF this [unfolded serial_post_def eqTrueI [OF assms(1)]]]
  show ?thesis using k w by auto
qed

text \<open>C33: a key-value log line is written completely and in order to the serial port, and the same line to the
  screen when VGA output is on and the writer exists; with VGA output off the screen is not touched.
  It returns whenever the serial device becomes ready again and again.\<close>

theorem log_info_kv_writes_line:
  assumes "eventually_ready lsr" "key \<noteq> []" "line = bytes ''[INFO] '' @ bytes key @ bytes '' = '' @ decimal (unat v)"
  shows "\<exists>c'. log_info_kv en lsr key v c = Some c' \<and> port_writes c' = port_writes c @ map (Pair 0x3F8) (line @ [13, 10])
    \<and> WRITER c' = (if en then map_option (writer_write_str (line @ [10])) (WRITER c) else WRITER c)"
  using log_info_kv_spec [OF assms(1,2), of en v c] by (cases en) (simp_all add: assms(3) serial_bytes_def)

theorem log_info_kv_writes_line_witness:
  "\<exists>c'. log_info_kv True (\<lambda>n. 0x20) ''tick'' 7
      \<lparr>WRITER = Some (writer_init (replicate 25 (replicate 80 (blank_char 0)))), SERIAL_INITIALIZED = True, port_writes = [], lsr_reads = 0\<rparr> = Some c'
    \<and> map snd (port_writes c') = bytes ''[INFO] tick = 7'' @ [13, 10]
    \<and> WRITER c' = Some (writer_write_str (bytes ''[INFO] tick = 7'' @ [10]) (writer_init (replicate 25 (replicate 80 (blank_char 0)))))"
proof -
  have "eventually_ready (\<lambda>n. 0x20)" by (simp add: eventually_ready_def)
  from log_info_kv_writes_line [OF this _ refl, of "''tick''" True 7
    "\<lparr>WRITER = Some (writer_init (replicate 25 (replicate 80 (blank_char 0)))), SERIAL_INITIALIZED = True, port_writes = [], lsr_reads = 0\<rparr>"]
  show ?thesis by (auto simp: bytes_def decimal.simps)
qed

section \<open>Emergency output is bounded and readable\<close>

definition hex_value :: "u8 \<Rightarrow> nat" where
  "hex_value d = (if unat d < 97 then unat d - 48 else unat d - 87)"

definition hex_number :: "u8 list \<Rightarrow> nat" where
  "hex_number s = fold (\<lambda>d acc. acc * 16 + hex_value d) s 0"

lemma nibble: "unat (drop_bit (i * 4) v AND 0xF :: u64) = unat v div 16 ^ i mod 16"
proof -
  have m: "(0xF :: u64) = mask 4" by (simp add: mask_eq_exp_minus_1)
  have "(16 :: nat) ^ i = 2 ^ (i * 4)" using power_mult [of "2 :: nat" 4 i] by (simp add: mult.commute)
  moreover have "unat (drop_bit (i * 4) v AND 0xF) = take_bit 4 (drop_bit (i * 4) (unat v))"
    unfolding m take_bit_eq_mask [symmetric] unsigned_take_bit_eq unsigned_drop_bit_eq using u64_bound [of v] by (simp add: take_bit_nat_eq_self)
  ultimately show ?thesis by (simp add: take_bit_eq_mod drop_bit_eq_div)
qed

lemma hex_value_digit: "hex_value (hex_digit v i) = unat v div 16 ^ i mod 16"
proof -
  let ?n = "ucast (drop_bit (i * 4) v AND 0xF) :: u8"
  have u: "unat ?n = unat v div 16 ^ i mod 16" using nibble [of i v] by (simp add: unsigned_ucast_eq take_bit_eq_mod)
  have lt: "unat ?n < 16" using u by simp
  show ?thesis
  proof (cases "?n < 10")
    case True
    then have "unat (48 + ?n) = 48 + unat ?n" by (simp add: unat_word_ariths word_less_nat_alt)
    then show ?thesis using True u by (simp add: hex_digit_def Let_def hex_value_def word_less_nat_alt)
  next
    case False
    then have "unat (97 + (?n - 10)) = 87 + unat ?n" using lt by (simp add: unat_word_ariths word_less_nat_alt unat_sub word_le_nat_alt)
    then show ?thesis using False lt u by (simp add: hex_digit_def Let_def hex_value_def word_less_nat_alt)
  qed
qed

lemma hex_number_digits: "hex_number (map (hex_digit v) (rev [0..<n])) = unat v mod 16 ^ n"
proof -
  have "fold (\<lambda>d acc. acc * 16 + hex_value d) (map (hex_digit v) (rev [0..<n])) a = a * 16 ^ n + unat v mod 16 ^ n" for a
  proof (induction n arbitrary: a)
    case (Suc n)
    have "unat v mod (16 ^ n * 16) = 16 ^ n * (unat v div 16 ^ n mod 16) + unat v mod 16 ^ n" by (rule mod_mult2_eq)
    then show ?case using Suc.IH [of "a * 16 + unat v div 16 ^ n mod 16"] by (simp add: hex_value_digit algebra_simps)
  qed simp
  then show ?thesis by (simp add: hex_number_def)
qed

definition com1 :: "Console \<Rightarrow> u8 list" where
  "com1 c = map snd (filter (\<lambda>(p, b). p = 0x3F8) (port_writes c))"

lemma poll_bound: "poll_lsr lsr k n \<le> n + k"
proof (induction k arbitrary: n)
  case (Suc k)
  then show ?case using Suc.IH [of "Suc n"] by simp
qed simp

lemma emergency_byte:
  "com1 (emergency_write_byte lsr b c) = com1 c @ [b]" "lsr_reads (emergency_write_byte lsr b c) \<le> lsr_reads c + 10000"
  "WRITER (emergency_write_byte lsr b c) = WRITER c"
  using poll_bound [of lsr 10000 "lsr_reads c"] by (simp_all add: emergency_write_byte_def port_write_def com1_def Let_def)

text \<open>What a report relies on of a byte output: it keeps the order, polls its device a bounded number of times per byte
  and leaves the screen alone.\<close>

locale byte_sink =
  fixes put :: "u8 \<Rightarrow> 'c \<Rightarrow> 'c"
    and sent :: "'c \<Rightarrow> u8 list"
    and polls :: "'c \<Rightarrow> nat"
    and screen :: "'c \<Rightarrow> 's"
    and limit :: nat
  assumes put_sent: "sent (put b c) = sent c @ [b]"
    and put_polls: "polls (put b c) \<le> polls c + limit"
    and put_screen: "screen (put b c) = screen c"
begin

lemma puts_sent: "sent (fold put s c) = sent c @ s"
  by (induction s arbitrary: c) (simp_all add: put_sent)

lemma puts_polls: "polls (fold put s c) \<le> polls c + limit * length s"
proof (induction s arbitrary: c)
  case (Cons b s)
  show ?case using Cons.IH [of "put b c"] put_polls [of b c] by simp
qed simp

lemma puts_screen: "screen (fold put s c) = screen c"
  by (induction s arbitrary: c) (simp_all add: put_screen)

end

interpretation emergency: byte_sink "emergency_write_byte lsr" com1 lsr_reads WRITER 10000 for lsr
  by unfold_locales (rule emergency_byte)+

lemmas emergency_bytes = emergency.puts_sent emergency.puts_polls emergency.puts_screen

lemma emergency_hex_fold:
  "emergency_write_hex_u64 lsr v c = fold (emergency_write_byte lsr) (bytes ''0x'' @ map (hex_digit v) (rev [0..<16])) c"
  by (simp add: emergency_write_hex_u64_def emergency_write_str_def fold_map comp_def del: upt_Suc)

text \<open>C35: the emergency hex output always returns, whatever the serial device does: it reads the line status at
  most 10,000 times per byte, does not touch the screen, and sends \<open>0x\<close> and sixteen digits that read
  back as the number.\<close>

theorem emergency_hex_bounded_and_readable:
  "\<exists>ds. com1 (emergency_write_hex_u64 lsr v c) = com1 c @ bytes ''0x'' @ ds \<and> length ds = 16 \<and> hex_number ds = unat v
    \<and> lsr_reads (emergency_write_hex_u64 lsr v c) \<le> lsr_reads c + 18 * 10000 \<and> WRITER (emergency_write_hex_u64 lsr v c) = WRITER c"
proof -
  let ?ds = "map (hex_digit v) (rev [0..<16])"
  have "hex_number ?ds = unat v" using hex_number_digits [of v 16] u64_bound [of v] by simp
  moreover have "length (bytes ''0x'' @ ?ds) = 18" "length ?ds = 16" by (simp_all add: bytes_def)
  ultimately show ?thesis
    unfolding emergency_hex_fold using emergency_bytes [where s = "bytes ''0x'' @ ?ds" and lsr = lsr and c = c] by (intro exI [of _ ?ds]) simp
qed

end
