(* ===== verification/User_Code.thy ===== *)
theory User_Code
  imports Logging
begin

text \<open>
  The machine code that \<open>kernel/entry.rs\<close> places in the user's code page: the two fixed byte
  arrays of the ring 3 demos and the builder of the mailbox loop, with its bounds check on the
  4096-byte buffer.  What the bytes mean is given by a decoder for the five x86-64 instructions
  they use and a run of the user program that records the arguments of each int 0x80.
\<close>

unbundle bit_operations_syntax

section \<open>The byte arrays\<close>

definition ring3_demo_code :: "u8 list" where
  "ring3_demo_code =
     [0x48, 0xC7, 0x44, 0x24, 0xF0, 0x01, 0x00, 0x00, 0x00,
      0x48, 0xC7, 0x44, 0x24, 0xE8, 0x11, 0x11, 0x00, 0x00,
      0x48, 0xC7, 0x44, 0x24, 0xE0, 0x22, 0x22, 0x00, 0x00,
      0x48, 0xC7, 0x44, 0x24, 0xD8, 0x33, 0x33, 0x00, 0x00,
      0xCD, 0x80,
      0x48, 0x8B, 0x44, 0x24, 0xD0,
      0x48, 0x89, 0x44, 0x24, 0xF8,
      0xCD, 0x80,
      0xCD, 0x80,
      0xEB, 0xFE]"

definition ring3_mailbox_code :: "u8 list" where
  "ring3_mailbox_code =
     [0x48, 0xC7, 0x44, 0x24, 0xF0, 0x0B, 0x00, 0x00, 0x00,
      0x48, 0xC7, 0x44, 0x24, 0xE8, 0x00, 0x00, 0x00, 0x00,
      0x48, 0xC7, 0x44, 0x24, 0xE0, 0x34, 0x12, 0x00, 0x00,
      0x48, 0xC7, 0x44, 0x24, 0xD8, 0x00, 0x00, 0x00, 0x00,
      0xCD, 0x80,
      0x48, 0x8B, 0x44, 0x24, 0xD0,
      0x48, 0x89, 0x44, 0x24, 0xF8,
      0xCD, 0x80,
      0xCD, 0x80,
      0xEB, 0xFE]"

section \<open>The builder\<close>

type_synonym code_buf = "u8 list \<times> usize"

definition ensure_cap :: "usize \<Rightarrow> usize \<Rightarrow> usize \<Rightarrow> unit option" where
  "ensure_cap buf_len cur add = (if cur + add > buf_len then None else Some ())"

definition mov_rsp_off_imm32 :: "u8 \<Rightarrow> u32 \<Rightarrow> code_buf \<Rightarrow> code_buf option" where
  "mov_rsp_off_imm32 off imm z = (case z of (buf, idx) \<Rightarrow> do {
     ensure_cap (length buf) idx 9;
     Some (buf[idx + 0 := 0x48, idx + 1 := 0xC7, idx + 2 := 0x44, idx + 3 := 0x24, idx + 4 := off,
               idx + 5 := ucast (imm AND 0xFF), idx + 6 := ucast (drop_bit 8 imm AND 0xFF),
               idx + 7 := ucast (drop_bit 16 imm AND 0xFF), idx + 8 := ucast (drop_bit 24 imm AND 0xFF)],
           idx + 9)
   })"

definition push_byte :: "u8 \<Rightarrow> code_buf \<Rightarrow> code_buf" where
  "push_byte b z = (case z of (buf, n) \<Rightarrow> (buf[n := b], n + 1))"

definition push_bytes :: "u8 list \<Rightarrow> code_buf \<Rightarrow> code_buf option" where
  "push_bytes bs z = do {
     ensure_cap (length (fst z)) (snd z) (length bs);
     Some (fold push_byte bs z)
   }"

definition push_call :: "u32 \<Rightarrow> u32 \<Rightarrow> code_buf \<Rightarrow> code_buf option" where
  "push_call sysno a1 z = do {
     z1 \<leftarrow> mov_rsp_off_imm32 (- 16) sysno z;
     z2 \<leftarrow> mov_rsp_off_imm32 (- 24) 0 z1;
     z3 \<leftarrow> mov_rsp_off_imm32 (- 32) a1 z2;
     z4 \<leftarrow> mov_rsp_off_imm32 (- 40) 0 z3;
     push_bytes [0xCD, 0x80] z4
   }"

definition push_round :: "nat \<Rightarrow> code_buf \<Rightarrow> code_buf option" where
  "push_round r z = do {
     z1 \<leftarrow> push_call 11 (0x1234 + of_nat r) z;
     z2 \<leftarrow> foldM (\<lambda>_. push_call 30 0) [0..<8] z1;
     z3 \<leftarrow> push_call 31 0 z2;
     push_bytes [0x48, 0x8B, 0x44, 0x24, 0xD0, 0x48, 0x89, 0x44, 0x24, 0xF8] z3
   }"

definition ring3_loop_code :: "u8 list option" where
  "ring3_loop_code = do {
     z \<leftarrow> foldM push_round [0..<4] (replicate 4096 0, 0);
     (bytes_vec, n) \<leftarrow> push_bytes [0xEB, 0xFE] z;
     Some (take n bytes_vec)
   }"

section \<open>What the bytes mean\<close>

text \<open>Offsets are the 8-bit displacements from RSP; \<open>MovImm\<close> stores the sign-extended immediate.\<close>

datatype instr = MovImm u8 u32 | LoadRax u8 | StoreRax u8 | Int80 | JmpSelf

definition le32 :: "u8 list \<Rightarrow> u32" where
  "le32 bs = ucast (bs ! 0) OR push_bit 8 (ucast (bs ! 1)) OR push_bit 16 (ucast (bs ! 2)) OR push_bit 24 (ucast (bs ! 3))"

definition decode1 :: "u8 list \<Rightarrow> (instr \<times> u8 list) option" where
  "decode1 bs =
     (if 9 \<le> length bs \<and> take 4 bs = [0x48, 0xC7, 0x44, 0x24] then Some (MovImm (bs ! 4) (le32 (take 4 (drop 5 bs))), drop 9 bs)
      else if 5 \<le> length bs \<and> take 4 bs = [0x48, 0x8B, 0x44, 0x24] then Some (LoadRax (bs ! 4), drop 5 bs)
      else if 5 \<le> length bs \<and> take 4 bs = [0x48, 0x89, 0x44, 0x24] then Some (StoreRax (bs ! 4), drop 5 bs)
      else if take 2 bs = [0xCD, 0x80] then Some (Int80, drop 2 bs)
      else if take 2 bs = [0xEB, 0xFE] then Some (JmpSelf, drop 2 bs)
      else None)"

lemma decode1_shorter: "decode1 bs = Some (i, rest) \<Longrightarrow> length rest < length bs"
  by (cases bs) (auto simp: decode1_def split: if_splits)

function decode :: "u8 list \<Rightarrow> instr list option" where
  "decode bs = (if bs = [] then Some []
     else (case decode1 bs of None \<Rightarrow> None | Some (i, rest) \<Rightarrow> map_option ((#) i) (decode rest)))"
  by pat_completeness auto
termination
  by (relation "measure length") (auto dest: decode1_shorter)

declare decode.simps [simp del]

fun encode :: "instr \<Rightarrow> u8 list" where
  "encode (MovImm off imm) = [0x48, 0xC7, 0x44, 0x24, off, ucast (imm AND 0xFF), ucast (drop_bit 8 imm AND 0xFF),
     ucast (drop_bit 16 imm AND 0xFF), ucast (drop_bit 24 imm AND 0xFF)]"
| "encode (LoadRax off) = [0x48, 0x8B, 0x44, 0x24, off]"
| "encode (StoreRax off) = [0x48, 0x89, 0x44, 0x24, off]"
| "encode Int80 = [0xCD, 0x80]"
| "encode JmpSelf = [0xEB, 0xFE]"

text \<open>A run up to the final jump: the words below RSP by offset, RAX, and the kernel's answers, which it stores
  at offset \<open>-48\<close>.  The result lists the arguments of each call and the last word at offset \<open>-8\<close>.\<close>

type_synonym call = "u64 \<times> u64 \<times> u64 \<times> u64"

fun user_run :: "instr list \<Rightarrow> (u8 \<Rightarrow> u64) \<Rightarrow> u64 \<Rightarrow> u64 list \<Rightarrow> (call list \<times> u64) option" where
  "user_run [] w rax rets = None"
| "user_run (MovImm off imm # is) w rax rets = user_run is (w(off := scast imm)) rax rets"
| "user_run (LoadRax off # is) w rax rets = user_run is w (w off) rets"
| "user_run (StoreRax off # is) w rax rets = user_run is (w(off := rax)) rax rets"
| "user_run (Int80 # is) w rax rets = (case rets of [] \<Rightarrow> None
     | r # rs \<Rightarrow> map_option (apfst ((#) (w (- 16), w (- 24), w (- 32), w (- 40)))) (user_run is (w(- 48 := r)) rax rs))"
| "user_run (JmpSelf # is) w rax rets = Some ([], w (- 8))"

lemma le32_bytes:
  "le32 [ucast (imm AND 0xFF), ucast (drop_bit 8 imm AND 0xFF), ucast (drop_bit 16 imm AND 0xFF), ucast (drop_bit 24 imm AND 0xFF)] = imm"
proof (rule bit_word_eqI)
  fix n assume "n < LENGTH(32)"
  have m: "(0xFF :: u32) = mask 8" by (simp add: mask_eq_exp_minus_1)
  consider "n < 8" | "8 \<le> n" "n < 16" | "16 \<le> n" "n < 24" | "24 \<le> n" "n < 32" using \<open>n < LENGTH(32)\<close> by force
  then show "bit (le32 [ucast (imm AND 0xFF), ucast (drop_bit 8 imm AND 0xFF), ucast (drop_bit 16 imm AND 0xFF), ucast (drop_bit 24 imm AND 0xFF)]) n = bit imm n"
    by cases (auto simp: le32_def m bit_simps)
qed

lemma encode_nonempty [simp]: "encode i \<noteq> []"
  by (cases i) simp_all

lemma decode_encode: "decode (encode i @ bs) = map_option ((#) i) (decode bs)"
proof -
  have "decode1 (encode i @ bs) = Some (i, bs)"
    by (cases i) (simp_all add: decode1_def le32_bytes)
  then show ?thesis by (subst decode.simps) simp
qed

lemma decode_encodes: "decode (concat (map encode is)) = Some is"
  by (induction "is") (simp_all add: decode.simps [of "[]"] decode_encode)

section \<open>The builder emits the encoding\<close>

definition holds_code :: "instr list \<Rightarrow> code_buf \<Rightarrow> bool" where
  "holds_code is z \<longleftrightarrow> length (fst z) = 4096 \<and> snd z = length (concat (map encode is))
     \<and> take (snd z) (fst z) = concat (map encode is)"

definition code_size :: "instr list \<Rightarrow> nat" where
  "code_size is = length (concat (map encode is))"

lemma code_size_simps [simp]: "code_size [] = 0" "code_size (i # is) = length (encode i) + code_size is"
  "code_size (is @ js) = code_size is + code_size js"
  by (simp_all add: code_size_def)

lemma push_fold:
  assumes "n + length bs \<le> length buf"
  shows "fold push_byte bs (buf, n) = (take n buf @ bs @ drop (n + length bs) buf, n + length bs)"
  using assms
proof (induction bs arbitrary: buf n)
  case (Cons b bs)
  then have "take (Suc n) (buf[n := b]) = take n buf @ [b]" "drop (Suc n + length bs) (buf[n := b]) = drop (Suc n + length bs) buf"
    by (simp_all add: take_Suc_conv_app_nth)
  with Cons show ?case by (simp add: push_byte_def)
qed simp

lemma holds_push:
  assumes "holds_code is z" "bs = concat (map encode js)" "code_size (is @ js) \<le> 4096"
  shows "returns (push_bytes bs z) (holds_code (is @ js))"
proof -
  have n: "snd z + length bs \<le> length (fst z)" using assms by (simp add: holds_code_def code_size_def)
  have f: "fold push_byte bs z = (take (snd z) (fst z) @ bs @ drop (snd z + length bs) (fst z), snd z + length bs)"
    using push_fold [OF n] by simp
  have "push_bytes bs z = Some (fold push_byte bs z)" using n by (simp add: push_bytes_def ensure_cap_def)
  then show ?thesis using assms(1) n unfolding f by (auto simp: holds_code_def assms(2))
qed

lemma mov_is_push: "mov_rsp_off_imm32 off imm z = push_bytes (encode (MovImm off imm)) z"
  by (cases z) (simp add: mov_rsp_off_imm32_def push_bytes_def push_byte_def ensure_cap_def numeral_eq_Suc)

definition call_instrs :: "u32 \<Rightarrow> u32 \<Rightarrow> instr list" where
  "call_instrs sysno a1 = [MovImm (- 16) sysno, MovImm (- 24) 0, MovImm (- 32) a1, MovImm (- 40) 0, Int80]"

definition round_instrs :: "nat \<Rightarrow> instr list" where
  "round_instrs r = call_instrs 11 (0x1234 + of_nat r) @ concat (replicate 8 (call_instrs 30 0)) @ call_instrs 31 0
     @ [LoadRax (- 48), StoreRax (- 8)]"

lemma sizes [simp]: "code_size (call_instrs a b) = 38" "code_size (round_instrs r) = 390"
  by (simp_all add: call_instrs_def round_instrs_def numeral_eq_Suc)

lemma returns_trans: "returns m P \<Longrightarrow> (\<And>x. P x \<Longrightarrow> returns (f x) Q) \<Longrightarrow> returns (Option.bind m f) Q"
  by (auto simp: returns_iff)

lemma holds_mov:
  "holds_code is z \<Longrightarrow> code_size is + 9 \<le> 4096 \<Longrightarrow> returns (mov_rsp_off_imm32 off imm z) (holds_code (is @ [MovImm off imm]))"
  unfolding mov_is_push by (rule holds_push) simp_all

lemma holds_call:
  assumes "holds_code is z" "code_size is + 38 \<le> 4096"
  shows "returns (push_call sysno a1 z) (holds_code (is @ call_instrs sysno a1))"
proof -
  note mov = holds_mov [THEN returnsE]
  from assms show ?thesis
    unfolding push_call_def call_instrs_def
    apply -
    apply (erule mov [of "is" z "- 16" sysno], simp, simp)
    apply (erule mov [of _ _ "- 24" 0], simp, simp)
    apply (erule mov [of _ _ "- 32" a1], simp, simp)
    apply (erule mov [of _ _ "- 40" 0], simp, simp)
    apply (drule holds_push [OF _ refl, of _ _ "[Int80]"], simp, simp)
    done
qed

lemma holds_foldM:
  assumes "\<And>is x z. x \<in> set xs \<Longrightarrow> holds_code is z \<Longrightarrow> code_size is + k \<le> 4096 \<Longrightarrow> returns (f x z) (holds_code (is @ g x))"
    "\<And>x. code_size (g x) = k" "holds_code is z" "code_size is + length xs * k \<le> 4096"
  shows "returns (foldM f xs z) (holds_code (is @ concat (map g xs)))"
  using assms
proof (induction xs arbitrary: "is" z)
  case (Cons x xs)
  have "returns (f x z) (holds_code (is @ g x))" using Cons.prems(1) [of x "is" z] Cons.prems(3,4) by simp
  moreover have "returns (foldM f xs z') (holds_code ((is @ g x) @ concat (map g xs)))" if "holds_code (is @ g x) z'" for z'
    using Cons.prems that by (intro Cons.IH) simp_all
  ultimately show ?case by (auto intro: returns_trans)
qed simp

lemma holds_round:
  assumes "holds_code is z" "code_size is + 390 \<le> 4096"
  shows "returns (push_round r z) (holds_code (is @ round_instrs r))"
proof -
  let ?a = "is @ call_instrs 11 (0x1234 + of_nat r)" and ?t = "concat (map (\<lambda>_. call_instrs 30 0) [0..<8])"
  let ?c = "[LoadRax (- 48), StoreRax (- 8)]"
  have t: "?t = concat (replicate 8 (call_instrs 30 0))" by (simp add: map_replicate_const)
  have l: "code_size ?t = 304" by (simp add: numeral_eq_Suc upt_rec)
  obtain z1 where 1: "push_call 11 (0x1234 + of_nat r) z = Some z1" "holds_code ?a z1"
    using holds_call [OF assms(1), of 11 "0x1234 + of_nat r"] assms(2) by (auto simp: returns_iff)
  have "returns (foldM (\<lambda>_. push_call 30 0) [0..<8] z1) (holds_code (?a @ ?t))"
    by (rule holds_foldM [where k = 38, OF _ _ 1(2)]) (use assms(2) in \<open>auto intro: holds_call\<close>)
  then obtain z2 where 2: "foldM (\<lambda>_. push_call 30 0) [0..<8] z1 = Some z2" "holds_code (?a @ ?t) z2" by (rule returnsE)
  obtain z3 where 3: "push_call 31 0 z2 = Some z3" "holds_code ((?a @ ?t) @ call_instrs 31 0) z3"
    using holds_call [OF 2(2), of 31 0] assms(2) l by (auto simp: returns_iff)
  have p: "returns (push_bytes (concat (map encode ?c)) z3) (holds_code (((?a @ ?t) @ call_instrs 31 0) @ ?c))"
    using assms(2) l by (intro holds_push [OF 3(2) refl]) simp
  have c: "concat (map encode ?c) = [0x48, 0x8B, 0x44, 0x24, 0xD0, 0x48, 0x89, 0x44, 0x24, 0xF8]" by (simp add: word_unat_eq_iff)
  show ?thesis using 1(1) 2(1) 3(1) t p [unfolded c] by (simp add: push_round_def round_instrs_def)
qed

definition loop_instrs :: "instr list" where
  "loop_instrs = concat (map round_instrs [0..<4]) @ [JmpSelf]"

lemma ring3_loop_code_eq: "ring3_loop_code = Some (concat (map encode loop_instrs))"
proof -
  have h0: "holds_code [] (replicate 4096 0, 0)" by (simp add: holds_code_def)
  have s: "code_size (concat (map round_instrs [0..<4])) = 1560" by (simp add: numeral_eq_Suc upt_rec)
  have "returns (foldM push_round [0..<4] (replicate 4096 0, 0)) (holds_code ([] @ concat (map round_instrs [0..<4])))"
    by (rule holds_foldM [where k = 390]) (simp_all add: holds_round h0)
  then obtain z where z: "foldM push_round [0..<4] (replicate 4096 0, 0) = Some z" "holds_code (concat (map round_instrs [0..<4])) z"
    by (auto simp: returns_iff)
  have "returns (push_bytes [0xEB, 0xFE] z) (holds_code (concat (map round_instrs [0..<4]) @ [JmpSelf]))"
    using z(2) s by (intro holds_push) simp_all
  then show ?thesis using z(1) by (auto simp: ring3_loop_code_def returns_iff holds_code_def loop_instrs_def)
qed

section \<open>What the user programs ask of the kernel\<close>

lemma run_call:
  "user_run (call_instrs sysno a1 @ is) w rax (r # rs) =
     map_option (apfst ((#) (scast sysno, 0, scast a1, 0)))
       (user_run is (w(- 16 := scast sysno, - 24 := 0, - 32 := scast a1, - 40 := 0, - 48 := r)) rax rs)"
  by (simp add: call_instrs_def)

lemma run_calls:
  assumes "length rs = k" "0 < k"
  shows "\<exists>w'. user_run (concat (replicate k (call_instrs sysno a1)) @ is) w rax (rs @ rs') =
      map_option (apfst ((@) (replicate k (scast sysno, 0, scast a1, 0)))) (user_run is w' rax rs') \<and> w' (- 48) = last rs"
  using assms
proof (induction k arbitrary: rs w)
  case (Suc k)
  then obtain r rs1 where rs: "rs = r # rs1" "length rs1 = k" by (cases rs) auto
  show ?case
  proof (cases "k = 0")
    case True
    then show ?thesis using rs by (simp add: run_call) (rule exI, rule conjI, rule refl, simp)
  next
    case False
    let ?w = "w(- 16 := scast sysno, - 24 := 0, - 32 := scast a1, - 40 := 0, - 48 := r)"
    from False obtain w' where w': "user_run (concat (replicate k (call_instrs sysno a1)) @ is) ?w rax (rs1 @ rs') =
        map_option (apfst ((@) (replicate k (scast sysno, 0, scast a1, 0)))) (user_run is w' rax rs')" "w' (- 48) = last rs1"
      using Suc.IH [OF rs(2), of ?w] by blast
    then have "user_run (concat (replicate (Suc k) (call_instrs sysno a1)) @ is) w rax (rs @ rs') =
        map_option (apfst ((@) (replicate (Suc k) (scast sysno, 0, scast a1, 0)))) (user_run is w' rax rs')"
      by (simp only: rs append_Cons replicate_Suc concat.simps append_assoc run_call w'(1) option.map_comp)
         (cases "user_run is w' rax rs'", auto)
    moreover have "w' (- 48) = last rs" using w'(2) rs False by auto
    ultimately show ?thesis by blast
  qed
qed simp

definition round_calls :: "nat \<Rightarrow> call list" where
  "round_calls r = [(11, 0, 0x1234 + of_nat r, 0)] @ replicate 8 (30, 0, 0, 0) @ [(31, 0, 0, 0)]"

lemma run_round:
  assumes "r < 4" "length rs = 10"
  shows "\<exists>w' rax'. user_run (round_instrs r @ is) w rax (rs @ rs') = map_option (apfst ((@) (round_calls r))) (user_run is w' rax' rs') \<and> w' (- 8) = last rs"
proof -
  obtain r0 ts r9 where rs: "rs = r0 # ts @ [r9]" "length ts = 8"
  proof -
    obtain r0 us where u: "rs = r0 # us" "length us = 9" using assms(2) by (cases rs) auto
    then obtain ts r9 where "us = ts @ [r9]" "length ts = 8" by (cases us rule: rev_cases) auto
    then show ?thesis using u that by blast
  qed
  have m: "scast (0x1234 + of_nat r :: u32) = (0x1234 + of_nat r :: u64)"
    using assms(1) by (auto simp: numeral_eq_Suc less_Suc_eq)
  have "scast (11 :: u32) = (11 :: u64)" "scast (30 :: u32) = (30 :: u64)" "scast (31 :: u32) = (31 :: u64)" by simp_all
  note c = run_call [of 11 "0x1234 + of_nat r", unfolded this m] run_call [of 31 0, unfolded this, simplified]
  let ?w = "w(- 16 := 11, - 24 := 0, - 32 := 0x1234 + of_nat r, - 40 := 0, - 48 := r0)"
  let ?rest = "call_instrs 31 0 @ [LoadRax (- 48), StoreRax (- 8)] @ is"
  obtain w1 where w1: "user_run (concat (replicate 8 (call_instrs 30 0)) @ ?rest) ?w rax (ts @ r9 # rs') =
      map_option (apfst ((@) (replicate 8 (30, 0, 0, 0)))) (user_run ?rest w1 rax (r9 # rs'))"
    using run_calls [OF rs(2), of 30 0 ?rest ?w rax "r9 # rs'"] by auto
  let ?w2 = "w1(- 16 := 31, - 24 := 0, - 32 := 0, - 40 := 0, - 48 := r9, - 8 := r9)"
  have "user_run (round_instrs r @ is) w rax (rs @ rs') = map_option (apfst ((@) (round_calls r))) (user_run is ?w2 r9 rs')"
    using w1 rs(1) by (cases "user_run is ?w2 r9 rs'") (auto simp: round_instrs_def round_calls_def c)
  moreover have "?w2 (- 8) = last rs" using rs(1) by simp
  ultimately show ?thesis by blast
qed
lemma loop_code_size: "length (concat (map encode loop_instrs)) = 1562"
proof -
  have "code_size (concat (map round_instrs [0..<4])) = 1560" by (simp add: numeral_eq_Suc upt_rec)
  then show ?thesis by (simp add: loop_instrs_def code_size_def)
qed

lemma run_rounds:
  assumes "length rs = 10 * k" "0 < k" "m + k \<le> 4"
  shows "\<exists>w' rax'. user_run (concat (map round_instrs [m..<m + k]) @ is) w rax rs =
      map_option (apfst ((@) (concat (map round_calls [m..<m + k])))) (user_run is w' rax' []) \<and> w' (- 8) = last rs"
  using assms
proof (induction k arbitrary: m rs w rax)
  case (Suc k)
  define a b where "a = take 10 rs" and "b = drop 10 rs"
  have ab: "rs = a @ b" "length a = 10" "length b = 10 * k" using Suc.prems(1) by (simp_all add: a_def b_def)
  obtain w1 r1 where 1: "user_run (round_instrs m @ concat (map round_instrs [Suc m..<Suc m + k]) @ is) w rax (a @ b) =
      map_option (apfst ((@) (round_calls m))) (user_run (concat (map round_instrs [Suc m..<Suc m + k]) @ is) w1 r1 b)" "w1 (- 8) = last a"
    using run_round [of m a] Suc.prems(3) ab(2) by force
  have u: "[m..<m + Suc k] = m # [Suc m..<Suc m + k]" by (simp add: upt_conv_Cons)
  show ?case
  proof (cases "k = 0")
    case True
    then show ?thesis using 1 ab u by (simp add: upt_conv_Cons) blast
  next
    case False
    then obtain w2 r2 where 2: "user_run (concat (map round_instrs [Suc m..<Suc m + k]) @ is) w1 r1 b =
        map_option (apfst ((@) (concat (map round_calls [Suc m..<Suc m + k])))) (user_run is w2 r2 [])" "w2 (- 8) = last b"
      using Suc.IH [of b "Suc m" w1 r1, OF ab(3)] Suc.prems(3) by (auto simp del: upt_Suc)
    have "user_run (concat (map round_instrs [m..<m + Suc k]) @ is) w rax rs =
        map_option (apfst ((@) (concat (map round_calls [m..<m + Suc k])))) (user_run is w2 r2 [])"
      unfolding u ab(1) list.map concat.simps append_assoc 1(1) 2(1) by (cases "user_run is w2 r2 []") auto
    moreover have "w2 (- 8) = last rs" using 2(2) ab False by (cases b) auto
    ultimately show ?thesis by blast
  qed
qed simp

text \<open>C25: the mailbox loop's code builder never overflows its buffer; the 1562 bytes it emits are a program that in
  four rounds sends the message 0x1234 + round to endpoint 0, asks for eight ticks and takes the reply, and leaves
  the last answer of the kernel in its echo slot.\<close>

theorem ring3_loop_program:
  assumes "length rets = 40"
  shows "\<exists>bs is. ring3_loop_code = Some bs \<and> length bs = 1562 \<and> decode bs = Some is
    \<and> user_run is w rax rets = Some (concat (map (\<lambda>r. (11, 0, 0x1234 + of_nat r, 0) # replicate 8 (30, 0, 0, 0) @ [(31, 0, 0, 0)]) [0..<4]), last rets)"
proof -
  obtain w' r' where "user_run (concat (map round_instrs [0..<4]) @ [JmpSelf]) w rax rets =
      map_option (apfst ((@) (concat (map round_calls [0..<4])))) (user_run [JmpSelf] w' r' [])" "w' (- 8) = last rets"
    using run_rounds [of rets 4 0 "[JmpSelf]" w rax] assms by auto
  then have "user_run loop_instrs w rax rets = Some (concat (map round_calls [0..<4]), last rets)" by (simp add: loop_instrs_def)
  moreover have "round_calls = (\<lambda>r. (11, 0, 0x1234 + of_nat r, 0) # replicate 8 (30, 0, 0, 0) @ [(31, 0, 0, 0)])"
    by (rule ext) (simp add: round_calls_def)
  ultimately show ?thesis using ring3_loop_code_eq loop_code_size decode_encodes [of loop_instrs] by auto
qed

theorem ring3_loop_program_witness:
  "\<exists>bs is. ring3_loop_code = Some bs \<and> length bs = 1562 \<and> decode bs = Some is
    \<and> map_option (\<lambda>(calls, echo). (length calls, echo)) (user_run is (\<lambda>_. 0) 0 (replicate 40 7)) = Some (40, 7)"
proof -
  obtain bs "is" where "ring3_loop_code = Some bs" "length bs = 1562" "decode bs = Some is"
      "user_run is (\<lambda>_. 0) 0 (replicate 40 7) =
        Some (concat (map (\<lambda>r. (11, 0, 0x1234 + of_nat r, 0) # replicate 8 (30, 0, 0, 0) @ [(31, 0, 0, 0)]) [0..<4]), last (replicate 40 7))"
    using ring3_loop_program [of "replicate 40 7" "\<lambda>_. 0" 0] by auto
  moreover have "length (concat (map (\<lambda>r. (11, 0, 0x1234 + of_nat r, 0) # replicate 8 (30, 0, 0, 0) @ [(31, 0, 0, 0)]) [0..<4]) :: call list) = 40"
    by (simp add: upt_rec numeral_eq_Suc)
  moreover have "last (replicate 40 (7 :: u64)) = 7" by simp
  ultimately show ?thesis by auto
qed

end
