(* ===== verification/Descriptors.thy ===== *)
theory Descriptors
  imports Machine
begin

text \<open>
  The descriptor tables: the GDT, the task state segment with its stacks (\<open>arch/gdt.rs\<close>) and the interrupt
  descriptor tables (\<open>arch/interrupts.rs\<close>: \<open>init\<close>, \<open>reload_idt_high_alias\<close>).  The addresses the linker gives to
  the statics and handlers are the parameter \<open>A\<close>; \<open>GlobalDescriptorTable\<close> is code of the x86\_64 crate and
  is the parameter \<open>G\<close> (an empty table and \<open>append\<close>, which returns the selector).  What the code loads
  into the CPU (GDTR, segment registers, TR, IDTR) is part of the state.
\<close>

unbundle bit_operations_syntax


definition DOUBLE_FAULT_IST_INDEX :: usize where "DOUBLE_FAULT_IST_INDEX = 0"
definition PAGE_FAULT_IST_INDEX :: usize where "PAGE_FAULT_IST_INDEX = 1"
definition RSP0_STACK_SIZE :: u64 where "RSP0_STACK_SIZE = 4096 * 8"
definition IST_STACK_SIZE :: u64 where "IST_STACK_SIZE = 4096 * 8"

record StaticAddrs =
  at_RSP0_STACK :: u64
  at_DF_IST_STACK :: u64
  at_PF_IST_STACK :: u64
  at_TSS :: u64
  at_GDT :: u64
  at_IDT_LOW :: u64
  at_IDT_HIGH :: u64
  at_page_fault_handler :: u64
  at_general_protection_fault_handler :: u64
  at_double_fault_handler :: u64
  at_int80_handler :: u64

section \<open>GDT and TSS\<close>

datatype Descriptor = kernel_code_segment | kernel_data_segment | user_code_segment | user_data_segment | tss_segment u64

record 'g GdtCrate =
  gdt_new :: 'g
  gdt_append :: "Descriptor \<Rightarrow> 'g \<Rightarrow> u16 \<times> 'g"

record Selectors =
  sel_code :: u16
  sel_data :: u16
  sel_tss :: u16
  sel_user_code :: u16
  sel_user_data :: u16

record TaskStateSegment =
  privilege_stack_table :: "u64 list"
  interrupt_stack_table :: "u64 list"

record 'g GdtState =
  INIT_DONE :: bool
  GDT :: "'g option"
  TSS :: "TaskStateSegment option"
  SELECTORS :: "Selectors option"
  gdtr :: u64
  cs :: u16
  ds :: u16
  es :: u16
  ss :: u16
  tr :: u16

definition stack_top :: "u64 \<Rightarrow> u64 \<Rightarrow> u64" where
  "stack_top base n = base + n"

definition align_down_16 :: "u64 \<Rightarrow> u64" where
  "align_down_16 x = x AND NOT 0xF"

definition high_stack :: "'m Env \<Rightarrow> u64 \<Rightarrow> u64 option" where
  "high_stack E low = do {
     l \<leftarrow> VirtAddr_new E low;
     h \<leftarrow> kernel_high_alias_of_low l;
     VirtAddr_new E (align_down_16 h)
   }"

definition init_high_alias :: "'m Env \<Rightarrow> StaticAddrs \<Rightarrow> 'g GdtCrate \<Rightarrow> 'g GdtState \<Rightarrow> 'g GdtState option" where
  "init_high_alias E A G g =
     (if INIT_DONE g then Some g
      else do {
        rsp0_high \<leftarrow> high_stack E (stack_top (at_RSP0_STACK A) RSP0_STACK_SIZE);
        df_ist_high \<leftarrow> high_stack E (stack_top (at_DF_IST_STACK A) IST_STACK_SIZE);
        pf_ist_high \<leftarrow> high_stack E (stack_top (at_PF_IST_STACK A) IST_STACK_SIZE);
        let tss = \<lparr>privilege_stack_table = (replicate 3 0)[0 := rsp0_high],
                   interrupt_stack_table = (replicate 7 0)[DOUBLE_FAULT_IST_INDEX := df_ist_high, PAGE_FAULT_IST_INDEX := pf_ist_high]\<rparr> in do {
        tss_high_ptr \<leftarrow> kernel_high_alias_of_low (at_TSS A);
        let (code_sel, gdt1) = gdt_append G kernel_code_segment (gdt_new G);
            (data_sel, gdt2) = gdt_append G kernel_data_segment gdt1;
            (user_code_sel, gdt3) = gdt_append G user_code_segment gdt2;
            (user_data_sel, gdt4) = gdt_append G user_data_segment gdt3;
            (tss_sel, gdt5) = gdt_append G (tss_segment tss_high_ptr) gdt4
        in do {
        gdt_high_ptr \<leftarrow> kernel_high_alias_of_low (at_GDT A);
        Some \<lparr>INIT_DONE = True, GDT = Some gdt5, TSS = Some tss,
              SELECTORS = Some \<lparr>sel_code = code_sel, sel_data = data_sel, sel_tss = tss_sel,
                                sel_user_code = user_code_sel, sel_user_data = user_data_sel\<rparr>,
              gdtr = gdt_high_ptr, cs = code_sel, ds = data_sel, es = data_sel, ss = data_sel, tr = tss_sel\<rparr>
      } } })"

text \<open>Reading the selectors before they are written is undefined in Rust; \<open>None\<close> here.\<close>

definition user_code_selector :: "'g GdtState \<Rightarrow> u16 option" where
  "user_code_selector g = map_option sel_user_code (SELECTORS g)"

definition user_data_selector :: "'g GdtState \<Rightarrow> u16 option" where
  "user_data_selector g = map_option sel_user_data (SELECTORS g)"

section \<open>Interrupt descriptor tables\<close>

datatype PrivilegeLevel = Ring0 | Ring3

record Gate =
  handler :: u64
  privilege :: PrivilegeLevel
  stack_index :: "usize option"

definition set_handler_fn :: "u64 \<Rightarrow> Gate" where
  "set_handler_fn addr = \<lparr>handler = addr, privilege = Ring0, stack_index = None\<rparr>"

record InterruptDescriptorTable =
  page_fault :: "Gate option"
  general_protection_fault :: "Gate option"
  double_fault :: "Gate option"
  vector_0x80 :: "Gate option"

record IdtState =
  IDT_LOW :: "InterruptDescriptorTable option"
  IDT_HIGH :: "InterruptDescriptorTable option"
  idtr :: "(u64 \<times> u16) option"

text \<open>The table has 256 entries of 16 bytes.\<close>

definition IDT_SIZE :: u64 where "IDT_SIZE = 4096"

definition lidt :: "'m Env \<Rightarrow> u64 \<Rightarrow> IdtState \<Rightarrow> IdtState option" where
  "lidt E base s = do { b \<leftarrow> VirtAddr_new E base; Some (s\<lparr>idtr := Some (b, ucast (IDT_SIZE - 1))\<rparr>) }"

definition idt_init :: "'m Env \<Rightarrow> StaticAddrs \<Rightarrow> IdtState \<Rightarrow> IdtState option" where
  "idt_init E A s =
     (if IDT_LOW s \<noteq> None then Some s
      else (let idt = \<lparr>page_fault = Some (set_handler_fn (at_page_fault_handler A)),
                       general_protection_fault = Some (set_handler_fn (at_general_protection_fault_handler A)),
                       double_fault = Some (set_handler_fn (at_double_fault_handler A)),
                       vector_0x80 = Some ((set_handler_fn (at_int80_handler A))
                          \<lparr>privilege := Ring3, stack_index := Some PAGE_FAULT_IST_INDEX\<rparr>)\<rparr>
            in lidt E (at_IDT_LOW A) (s\<lparr>IDT_LOW := Some idt\<rparr>)))"

definition reload_idt_high_alias :: "'m Env \<Rightarrow> StaticAddrs \<Rightarrow> 'g GdtCrate \<Rightarrow> IdtState \<times> 'g GdtState
    \<Rightarrow> (IdtState \<times> 'g GdtState) option" where
  "reload_idt_high_alias E A G z = (case z of (s, g) \<Rightarrow> do {
     s1 \<leftarrow> (if IDT_LOW s = None then idt_init E A s else Some s);
     g1 \<leftarrow> init_high_alias E A G g;
     pf \<leftarrow> kernel_high_alias_of_low (at_page_fault_handler A);
     gpf \<leftarrow> kernel_high_alias_of_low (at_general_protection_fault_handler A);
     df \<leftarrow> kernel_high_alias_of_low (at_double_fault_handler A);
     i80 \<leftarrow> kernel_high_alias_of_low (at_int80_handler A);
     let idt = \<lparr>page_fault = Some (set_handler_fn pf), general_protection_fault = Some (set_handler_fn gpf),
                double_fault = Some ((set_handler_fn df)\<lparr>stack_index := Some DOUBLE_FAULT_IST_INDEX\<rparr>),
                vector_0x80 = Some ((set_handler_fn i80)\<lparr>privilege := Ring3, stack_index := Some PAGE_FAULT_IST_INDEX\<rparr>)\<rparr>
     in do {
     base_high \<leftarrow> kernel_high_alias_of_low (at_IDT_HIGH A);
     s2 \<leftarrow> lidt E base_high (s1\<lparr>IDT_HIGH := Some idt\<rparr>);
     Some (s2, g1)
   } })"

section \<open>Everything an interrupt needs is mapped high\<close>

lemma unat_align_down_16: "unat (align_down_16 x) = unat x div 16 * 16"
proof -
  have m: "(0xF :: u64) = mask 4" by (simp add: mask_eq_exp_minus_1)
  have "x AND NOT (mask 4) = push_bit 4 (drop_bit 4 x)" by (rule bit_eqI) (auto simp: bit_simps)
  then have "unat (x AND NOT (mask 4)) = take_bit 64 (unat x div 16 * 16)"
    by (simp only: unsigned_push_bit_eq unsigned_drop_bit_eq)
       (simp add: push_bit_eq_mult drop_bit_eq_div take_bit_nat_eq_self [of "unat x"] unsigned_less [of x, simplified])
  moreover have "unat x div 16 * 16 < 2 ^ 64"
    using unsigned_less [of x, where ?'a = nat] by (simp add: le_less_trans [OF div_times_less_eq_dividend])
  ultimately show ?thesis unfolding align_down_16_def m by (simp add: take_bit_eq_mod)
qed

definition high_mapped :: "u64 \<Rightarrow> bool" where
  "high_mapped a \<longleftrightarrow> KERNEL_SPACE_START \<le> a \<and> 508 \<le> pml4_index a"

lemma high_alias_mapped: "kernel_high_alias_of_low low = Some h \<Longrightarrow> high_mapped h"
  using kernel_high_alias_of_low_index by (simp add: high_mapped_def)

lemma high_stack_spec:
  assumes "high_stack E low = Some h"
  shows "high_mapped h" "unat h mod 16 = 0"
proof -
  obtain k where k: "kernel_high_alias_of_low low = Some k" "h = align_down_16 k"
    using assms by (auto simp: high_stack_def VirtAddr_new_def split: if_splits bind_splits)
  note i = kernel_high_alias_of_low_index [OF k(1)]
  have u: "unat h = unat k div 16 * 16" using k(2) by (simp add: unat_align_down_16)
  then show "unat h mod 16 = 0" by simp
  have d: "unat h div 2 ^ 39 = unat k div 2 ^ 39"
  proof -
    have "(unat k div 16 * 16) div 16 div 2 ^ 35 = unat k div 16 div 2 ^ 35" by simp
    then show ?thesis unfolding u by (simp add: div_mult2_eq [symmetric])
  qed
  have "pml4_index h = pml4_index k" by (simp only: pml4_index_alt d)
  moreover have "KERNEL_SPACE_START \<le> h"
  proof -
    have "(0xffff800000000000 :: nat) div 16 \<le> unat k div 16" using i(4) by (intro div_le_mono) (simp add: KERNEL_SPACE_START_def word_le_nat_alt)
    then show ?thesis using u by (simp add: KERNEL_SPACE_START_def word_le_nat_alt)
  qed
  ultimately show "high_mapped h" using i(2) by (simp add: high_mapped_def)
qed

definition good_stack :: "TaskStateSegment \<Rightarrow> Gate \<Rightarrow> bool" where
  "good_stack tss g \<longleftrightarrow> (case stack_index g of None \<Rightarrow> True
     | Some k \<Rightarrow> k < 7 \<and> high_mapped (interrupt_stack_table tss ! k) \<and> unat (interrupt_stack_table tss ! k) mod 16 = 0)"

lemma init_tss:
  assumes "init_high_alias E A G g = Some g'" "\<not> INIT_DONE g"
  obtains r d p where "INIT_DONE g'" "TSS g' = Some \<lparr>privilege_stack_table = [r, 0, 0], interrupt_stack_table = [d, p, 0, 0, 0, 0, 0]\<rparr>"
    "high_mapped r" "unat r mod 16 = 0" "high_mapped d" "unat d mod 16 = 0" "high_mapped p" "unat p mod 16 = 0"
proof -
  obtain r d p where s: "high_stack E (stack_top (at_RSP0_STACK A) RSP0_STACK_SIZE) = Some r"
      "high_stack E (stack_top (at_DF_IST_STACK A) IST_STACK_SIZE) = Some d" "high_stack E (stack_top (at_PF_IST_STACK A) IST_STACK_SIZE) = Some p"
    using assms by (auto simp: init_high_alias_def split: bind_splits)
  have "INIT_DONE g'" "TSS g' = Some \<lparr>privilege_stack_table = (replicate 3 0)[0 := r],
      interrupt_stack_table = (replicate 7 0)[DOUBLE_FAULT_IST_INDEX := d, PAGE_FAULT_IST_INDEX := p]\<rparr>"
    using assms unfolding init_high_alias_def s Let_def by (auto split: bind_splits prod.splits)
  moreover have "(replicate 3 0)[0 := r] = [r, 0, 0]" by (simp add: numeral_3_eq_3)
  moreover have "(replicate 7 0)[DOUBLE_FAULT_IST_INDEX := d, PAGE_FAULT_IST_INDEX := p] = [d, p, 0, 0, 0, 0, 0]"
    by (simp add: DOUBLE_FAULT_IST_INDEX_def PAGE_FAULT_IST_INDEX_def numeral_eq_Suc)
  ultimately show ?thesis using that high_stack_spec [OF s(1)] high_stack_spec [OF s(2)] high_stack_spec [OF s(3)] by simp
qed

text \<open>C28: after the descriptor tables are reloaded, nothing an interrupt needs lies in the low half that user page
  tables do not map: the handlers, the IDT itself and the stacks of the TSS are in the kernel's high
  alias, the stacks are 16-byte aligned, every stack a gate selects exists, and only the int 0x80
  gate is callable from ring 3.\<close>

theorem interrupt_tables_high:
  assumes "reload_idt_high_alias E A G (s, g) = Some (s', g')" "\<not> INIT_DONE g"
  shows "\<exists>idt tss pf gpf df i80 base lim. IDT_HIGH s' = Some idt \<and> idtr s' = Some (base, lim) \<and> TSS g' = Some tss \<and> high_mapped base
    \<and> page_fault idt = Some pf \<and> general_protection_fault idt = Some gpf \<and> double_fault idt = Some df \<and> vector_0x80 idt = Some i80
    \<and> list_all (\<lambda>x. high_mapped (handler x) \<and> good_stack tss x) [pf, gpf, df, i80]
    \<and> map privilege [pf, gpf, df, i80] = [Ring0, Ring0, Ring0, Ring3]
    \<and> high_mapped (privilege_stack_table tss ! 0) \<and> unat (privilege_stack_table tss ! 0) mod 16 = 0"
proof -
  obtain s1 pf gpf df i80 base where r: "init_high_alias E A G g = Some g'"
      "kernel_high_alias_of_low (at_page_fault_handler A) = Some pf" "kernel_high_alias_of_low (at_general_protection_fault_handler A) = Some gpf"
      "kernel_high_alias_of_low (at_double_fault_handler A) = Some df" "kernel_high_alias_of_low (at_int80_handler A) = Some i80"
      "kernel_high_alias_of_low (at_IDT_HIGH A) = Some base" "idtr s' = Some (base, ucast (IDT_SIZE - 1))"
      "IDT_HIGH s' = Some \<lparr>page_fault = Some (set_handler_fn pf), general_protection_fault = Some (set_handler_fn gpf),
                double_fault = Some ((set_handler_fn df)\<lparr>stack_index := Some DOUBLE_FAULT_IST_INDEX\<rparr>),
                vector_0x80 = Some ((set_handler_fn i80)\<lparr>privilege := Ring3, stack_index := Some PAGE_FAULT_IST_INDEX\<rparr>)\<rparr>"
    using assms(1) unfolding reload_idt_high_alias_def prod.case Let_def
    by (auto simp: lidt_def VirtAddr_new_def split: bind_splits if_splits)
  obtain r0 d p where t: "TSS g' = Some \<lparr>privilege_stack_table = [r0, 0, 0], interrupt_stack_table = [d, p, 0, 0, 0, 0, 0]\<rparr>"
      "high_mapped r0" "unat r0 mod 16 = 0" "high_mapped d" "unat d mod 16 = 0" "high_mapped p" "unat p mod 16 = 0"
    by (rule init_tss [OF r(1) assms(2)])
  have h: "high_mapped pf" "high_mapped gpf" "high_mapped df" "high_mapped i80" "high_mapped base" using high_alias_mapped r(2-6) by blast+
  show ?thesis unfolding r(7,8) t(1)
    by (simp add: h t(2-7) good_stack_def set_handler_fn_def DOUBLE_FAULT_IST_INDEX_def PAGE_FAULT_IST_INDEX_def)
qed

definition toy_addrs :: StaticAddrs where
  "toy_addrs = \<lparr>at_RSP0_STACK = 0x200000, at_DF_IST_STACK = 0x210000, at_PF_IST_STACK = 0x220000, at_TSS = 0x230000, at_GDT = 0x231000,
     at_IDT_LOW = 0x232000, at_IDT_HIGH = 0x233000, at_page_fault_handler = 0x240000, at_general_protection_fault_handler = 0x240100,
     at_double_fault_handler = 0x240200, at_int80_handler = 0x240300\<rparr>"

definition list_gdt :: "Descriptor list GdtCrate" where
  "list_gdt = \<lparr>gdt_new = [], gdt_append = (\<lambda>d g. (of_nat (8 * Suc (length g)), g @ [d]))\<rparr>"

lemma low_alias: "a < 0x8000000000 \<Longrightarrow> \<exists>h. kernel_high_alias_of_low a = Some h"
  using kernel_high_alias_of_low_Some [of a] by (auto simp: pml4_index_alt word_less_nat_alt)

lemma toy_reload:
  assumes "\<And>a. virt_addr_ok E a"
  shows "\<exists>z. reload_idt_high_alias E toy_addrs list_gdt (\<lparr>IDT_LOW = None, IDT_HIGH = None, idtr = None\<rparr>,
    \<lparr>INIT_DONE = False, GDT = None, TSS = None, SELECTORS = None, gdtr = 0, cs = 0, ds = 0, es = 0, ss = 0, tr = 0\<rparr>) = Some z"
proof -
  have h: "\<exists>h. kernel_high_alias_of_low a = Some h" if "a \<in> {0x208000, 0x218000, 0x228000, 0x230000, 0x231000, 0x233000, 0x240000, 0x240100, 0x240200, 0x240300}" for a
    using that by (intro low_alias) auto
  show ?thesis
    using h [of "0x208000"] h [of "0x218000"] h [of "0x228000"] h [of "0x230000"] h [of "0x231000"] h [of "0x233000"] h [of "0x240000"] h [of "0x240100"]
      h [of "0x240200"] h [of "0x240300"] assms
    by (auto simp: reload_idt_high_alias_def idt_init_def lidt_def init_high_alias_def high_stack_def VirtAddr_new_def toy_addrs_def list_gdt_def
        stack_top_def RSP0_STACK_SIZE_def IST_STACK_SIZE_def Let_def)
qed

end
