(* ===== verification/Exceptions.thy ===== *)
theory Exceptions
  imports Tick Logging
begin

text \<open>
  The exception handlers of \<open>arch/interrupts.rs\<close> with their emergency output, the int 0x80 handler of the
  ring 3 demo, the panic handler (\<open>panic.rs\<close>) and the registered kernel state (\<open>kernel/state_ref.rs\<close>).
  A handler ends by resuming the interrupted code or by halting the CPU.
\<close>

unbundle bit_operations_syntax

datatype isr_end = Resume | Halted

abbreviation say :: "lsr \<Rightarrow> string \<Rightarrow> Console \<Rightarrow> Console" where
  "say lsr s \<equiv> emergency_write_str lsr (bytes s)"

abbreviation say_hex :: "lsr \<Rightarrow> u64 \<Rightarrow> Console \<Rightarrow> Console" where
  "say_hex \<equiv> emergency_write_hex_u64"

definition nl :: string where
  "nl = [CHR 10]"

section \<open>Faults\<close>

definition general_protection_fault_handler :: "lsr \<Rightarrow> u64 \<Rightarrow> u64 \<Rightarrow> u64 \<Rightarrow> Console \<Rightarrow> isr_end \<times> Console" where
  "general_protection_fault_handler lsr error_code rip rsp c =
     (let c1 = say lsr ''[EXC] #GP err='' c;
          c2 = say_hex lsr error_code c1;
          c3 = say lsr '' rip='' c2;
          c4 = say_hex lsr rip c3;
          c5 = say lsr '' rsp='' c4;
          c6 = say_hex lsr rsp c5
      in (Halted, say lsr nl c6))"

definition double_fault_handler :: "lsr \<Rightarrow> u64 \<Rightarrow> u64 \<Rightarrow> u64 \<Rightarrow> Console \<Rightarrow> isr_end \<times> Console" where
  "double_fault_handler lsr error_code rip rsp c =
     (let c1 = say lsr ''[EXC] #DF err='' c;
          c2 = say_hex lsr error_code c1;
          c3 = say lsr '' rip='' c2;
          c4 = say_hex lsr rip c3;
          c5 = say lsr '' rsp='' c4;
          c6 = say_hex lsr rsp c5
      in (Halted, say lsr nl c6))"

text \<open>The output part of the page fault handler; \<open>page_fault_handler\<close> is its effect on the machine.\<close>

definition page_fault_report :: "lsr \<Rightarrow> u64 \<Rightarrow> cpu_fault \<Rightarrow> 'm Machine \<Rightarrow> Console \<Rightarrow> isr_end \<times> Console" where
  "page_fault_report lsr cr2 flt h c =
     (case page_fault_handler cr2 flt h of
        Some (recover_rip, h') \<Rightarrow> (Resume, say lsr (''[EXC] #PF guarded => fixup'' @ nl) c)
      | None \<Rightarrow>
          (let c1 = say lsr (''[EXC] #PF unguarded'' @ nl) c;
               c2 = say_hex lsr cr2 (say lsr '' cr2='' c1);
               c3 = say_hex lsr (flt_err flt) (say lsr '' err='' c2);
               c4 = say_hex lsr (flt_rip flt) (say lsr '' rip='' c3);
               c5 = say_hex lsr (flt_rsp flt) (say lsr '' rsp='' c4)
           in (Halted, say lsr nl c5)))"

section \<open>The int 0x80 handler of the ring 3 demo\<close>

record 'm Int80 =
  INT80_COUNT :: u64
  i80_hw :: "'m Machine"
  i80_out :: Console

definition i80_say :: "lsr \<Rightarrow> string \<Rightarrow> 'm Int80 \<Rightarrow> 'm Int80" where
  "i80_say lsr msg s = s\<lparr>i80_out := say lsr msg (i80_out s)\<rparr>"

definition i80_say_hex :: "lsr \<Rightarrow> string \<Rightarrow> u64 \<Rightarrow> 'm Int80 \<Rightarrow> 'm Int80" where
  "i80_say_hex lsr label v s = s\<lparr>i80_out := say_hex lsr v (say lsr label (i80_out s))\<rparr>"

text \<open>A guarded access that faults prints the line of the page fault handler.\<close>

definition i80_fault_line :: "lsr \<Rightarrow> PageFaultInfo + u64 \<Rightarrow> 'm Int80 \<Rightarrow> 'm Int80" where
  "i80_fault_line lsr r s = (case r of Inl _ \<Rightarrow> i80_say lsr (''[EXC] #PF guarded => fixup'' @ nl) s | Inr _ \<Rightarrow> s)"

definition user_read_or_zero :: "'m Env \<Rightarrow> lsr \<Rightarrow> PhysFrame \<Rightarrow> PhysFrame \<Rightarrow> u64 \<Rightarrow> 'm Int80 \<Rightarrow> (u64 \<times> 'm Int80) option" where
  "user_read_or_zero E lsr user_root kernel_root p s = do {
     (r, h) \<leftarrow> guarded_user_read_u64_in_root E user_root kernel_root p (i80_hw s);
     Some (case r of Inr v \<Rightarrow> v | Inl _ \<Rightarrow> 0, i80_fault_line lsr r (s\<lparr>i80_hw := h\<rparr>))
   }"

definition int80_first :: "'m Env \<Rightarrow> lsr \<Rightarrow> u64 \<Rightarrow> u64 \<Rightarrow> PhysFrame \<Rightarrow> PhysFrame \<Rightarrow> 'm Int80 \<Rightarrow> (isr_end \<times> 'm Int80) option" where
  "int80_first E lsr user_rip user_rsp user_root kernel_root s = do {
     (sysno, s1) \<leftarrow> user_read_or_zero E lsr user_root kernel_root (user_rsp - 16) s;
     (a0, s2) \<leftarrow> user_read_or_zero E lsr user_root kernel_root (user_rsp - 24) s1;
     (a1, s3) \<leftarrow> user_read_or_zero E lsr user_root kernel_root (user_rsp - 32) s2;
     (a2, s4) \<leftarrow> user_read_or_zero E lsr user_root kernel_root (user_rsp - 40) s3;
     let s5 = i80_say lsr (''[INT80] syscall enter'' @ nl) s4;
         s6 = i80_say lsr nl (i80_say_hex lsr '' rsp='' user_rsp (i80_say_hex lsr '' rip='' user_rip s5));
         s7 = i80_say lsr nl (i80_say_hex lsr '' a2='' a2 (i80_say_hex lsr '' a1='' a1
                (i80_say_hex lsr '' a0='' a0 (i80_say_hex lsr '' sysno='' sysno s6))));
         ret = (if sysno = 1 then a0 + a1 + a2 else 0)
     in do {
     (res, h) \<leftarrow> guarded_user_rw_u64_in_root E user_root kernel_root (user_rsp - 48) ret (i80_hw s7);
     h1 \<leftarrow> switch_address_space_quiet E user_root h;
     Some (Resume, (i80_fault_line lsr res s7)\<lparr>i80_hw := h1\<rparr>)
   } }"

definition int80_second :: "'m Env \<Rightarrow> lsr \<Rightarrow> u64 \<Rightarrow> u64 \<Rightarrow> PhysFrame \<Rightarrow> PhysFrame \<Rightarrow> 'm Int80 \<Rightarrow> (isr_end \<times> 'm Int80) option" where
  "int80_second E lsr user_rip user_rsp user_root kernel_root s = do {
     let s1 = i80_say lsr (''[INT80] verify user_echo'' @ nl) s;
         s2 = i80_say lsr nl (i80_say_hex lsr '' rsp='' user_rsp (i80_say_hex lsr '' rip='' user_rip s1))
     in do {
     (echo, s3) \<leftarrow> user_read_or_zero E lsr user_root kernel_root (user_rsp - 8) s2;
     let s4 = i80_say lsr nl (i80_say_hex lsr '' echo='' echo s3) in do {
     h1 \<leftarrow> switch_address_space_quiet E user_root (i80_hw s4);
     Some (Resume, s4\<lparr>i80_hw := h1\<rparr>)
   } } }"

definition int80_last :: "'m Env \<Rightarrow> lsr \<Rightarrow> u64 \<Rightarrow> PhysFrame \<Rightarrow> PhysFrame \<Rightarrow> 'm Int80 \<Rightarrow> (isr_end \<times> 'm Int80) option" where
  "int80_last E lsr user_rsp user_root kernel_root s = do {
     (echo, s1) \<leftarrow> user_read_or_zero E lsr user_root kernel_root (user_rsp - 8) (i80_say lsr (''[INT80] final'' @ nl) s);
     let s2 = i80_say lsr nl (i80_say_hex lsr '' echo='' echo s1) in
     Some (Halted, i80_say lsr (''[INT80] done -> halt'' @ nl) s2)
   }"

definition int80_handler_ring3_demo :: "'m Env \<Rightarrow> lsr \<Rightarrow> u64 \<Rightarrow> u64 \<Rightarrow> 'm Int80 \<Rightarrow> (isr_end \<times> 'm Int80) option" where
  "int80_handler_ring3_demo E lsr user_rip user_rsp s = do {
     n \<leftarrow> chk_inc (INT80_COUNT s);
     let s1 = s\<lparr>INT80_COUNT := INT80_COUNT s + 1\<rparr> in
     case peek_ring3_demo_roots (i80_hw s1) of
       None \<Rightarrow> Some (Halted, i80_say lsr (''[INT80] demo_roots: NONE'' @ nl) s1)
     | Some (user_root, kernel_root) \<Rightarrow>
         (if n = 1 then int80_first E lsr user_rip user_rsp user_root kernel_root s1
          else if n = 2 then int80_second E lsr user_rip user_rsp user_root kernel_root s1
          else int80_last E lsr user_rsp user_root kernel_root s1)
   }"

definition DBG_SYS31_LIMIT :: u64 where "DBG_SYS31_LIMIT = 64"

definition sys31_report :: "lsr \<Rightarrow> u64 \<Rightarrow> u64 \<Rightarrow> u64 \<times> Console \<Rightarrow> u64 \<times> Console" where
  "sys31_report lsr sysno ret z = (case z of (cnt, c) \<Rightarrow>
     if sysno = 31 then
       (cnt + 1, if cnt < DBG_SYS31_LIMIT then say lsr nl (say_hex lsr ret (say lsr ''[INT80] sys31 ret='' c)) else c)
     else (cnt, c))"

section \<open>Panic\<close>

definition panic_write_byte :: "lsr \<Rightarrow> u8 \<Rightarrow> Console \<Rightarrow> Console" where
  "panic_write_byte lsr b c =
     (let c1 = port_write 0xE9 b c;
          c2 = c1\<lparr>lsr_reads := poll_lsr lsr 10000 (lsr_reads c1)\<rparr>
      in port_write 0x3F8 b c2)"

definition panic_write_str :: "lsr \<Rightarrow> u8 list \<Rightarrow> Console \<Rightarrow> Console" where
  "panic_write_str lsr s c = fold (panic_write_byte lsr) s c"

definition panic_write_hex_u64 :: "lsr \<Rightarrow> u64 \<Rightarrow> Console \<Rightarrow> Console" where
  "panic_write_hex_u64 lsr v c =
     fold (\<lambda>i. panic_write_byte lsr (hex_digit v i)) (rev [0..<16]) (panic_write_str lsr (bytes ''0x'') c)"

definition panic_handler :: "lsr \<Rightarrow> (u32 \<times> u32) option \<Rightarrow> bool \<times> Console \<Rightarrow> isr_end \<times> bool \<times> Console" where
  "panic_handler lsr location z = (case z of (PANIC_IN_PROGRESS, c) \<Rightarrow>
     if PANIC_IN_PROGRESS then (Halted, True, panic_write_str lsr (bytes (''[PANIC] re-entered => halt'' @ nl)) c)
     else (let c1 = panic_write_str lsr (bytes (''[PANIC] kernel panic'' @ nl)) c in
       case location of
         Some (line, column) \<Rightarrow>
           (let c2 = panic_write_str lsr (bytes ''[PANIC] location line='') c1;
                c3 = panic_write_hex_u64 lsr (ucast line) c2;
                c4 = panic_write_str lsr (bytes '' col='') c3;
                c5 = panic_write_hex_u64 lsr (ucast column) c4
            in (Halted, True, panic_write_str lsr (bytes nl) c5))
       | None \<Rightarrow> (Halted, True, panic_write_str lsr (bytes (''[PANIC] location unknown'' @ nl)) c1)))"

section \<open>The registered kernel state\<close>

text \<open>The states that live at an address, and the registered address, 0 for none.  A call through an address
  where no state lives is undefined in Rust; the whole result is \<open>None\<close> then.\<close>

record 'm StateRef =
  KERNEL_STATE_ADDR :: u64
  states_at :: "u64 \<rightharpoonup> 'm KernelState"

definition register_kernel_state :: "u64 \<Rightarrow> 'm StateRef \<Rightarrow> 'm StateRef" where
  "register_kernel_state addr r = r\<lparr>KERNEL_STATE_ADDR := addr\<rparr>"

definition unregister_kernel_state :: "'m StateRef \<Rightarrow> 'm StateRef" where
  "unregister_kernel_state r = r\<lparr>KERNEL_STATE_ADDR := 0\<rparr>"

definition with_kernel_state :: "('m KernelState \<Rightarrow> ('r \<times> 'm KernelState) option) \<Rightarrow> 'm StateRef \<Rightarrow> ('r option \<times> 'm StateRef) option" where
  "with_kernel_state f r =
     (let addr = KERNEL_STATE_ADDR r in
      if addr = 0 then Some (None, r)
      else do {
        ks \<leftarrow> states_at r addr;
        (x, ks') \<leftarrow> f ks;
        Some (Some x, r\<lparr>states_at := (states_at r)(addr \<mapsto> ks')\<rparr>)
      })"
section \<open>What the handlers print\<close>

definition hex_text :: "u64 \<Rightarrow> u8 list" where
  "hex_text v = bytes ''0x'' @ map (hex_digit v) (rev [0..<16])"

definition emit_bytes :: "lsr \<Rightarrow> u8 list \<Rightarrow> Console \<Rightarrow> Console" where
  "emit_bytes lsr s c = fold (emergency_write_byte lsr) s c"

lemma emit_say: "say lsr s c = emit_bytes lsr (bytes s) c" "say_hex lsr v c = emit_bytes lsr (hex_text v) c"
  by (simp_all add: emit_bytes_def emergency_write_str_def hex_text_def emergency_hex_fold del: upt_Suc)

lemma emit_append: "emit_bytes lsr t (emit_bytes lsr s c) = emit_bytes lsr (s @ t) c"
  by (simp add: emit_bytes_def)

lemma emit_facts:
  "com1 (emit_bytes lsr s c) = com1 c @ s" "lsr_reads (emit_bytes lsr s c) \<le> lsr_reads c + 10000 * length s"
  "WRITER (emit_bytes lsr s c) = WRITER c"
  unfolding emit_bytes_def by (rule emergency_bytes)+

lemma panic_write_eq: "panic_write_byte = emergency_write_byte" "panic_write_str = emergency_write_str"
  "panic_write_hex_u64 = emergency_write_hex_u64"
proof -
  show b: "panic_write_byte = emergency_write_byte" by (intro ext) (simp add: panic_write_byte_def emergency_write_byte_def)
  then show s: "panic_write_str = emergency_write_str" by (intro ext) (simp add: panic_write_str_def emergency_write_str_def)
  from b s show "panic_write_hex_u64 = emergency_write_hex_u64"
    by (intro ext) (simp add: panic_write_hex_u64_def emergency_write_hex_u64_def)
qed

interpretation panic_out: byte_sink "panic_write_byte lsr" com1 lsr_reads WRITER 10000 for lsr
  unfolding panic_write_eq by (rule emergency.byte_sink_axioms)

lemma length_texts: "length (bytes s) = length s" "length (hex_text v) = 18"
  by (simp_all add: bytes_def hex_text_def)

definition panic_text :: "(u32 \<times> u32) option \<Rightarrow> bool \<Rightarrow> u8 list" where
  "panic_text loc again =
     (if again then bytes (''[PANIC] re-entered => halt'' @ nl)
      else bytes (''[PANIC] kernel panic'' @ nl) @
        (case loc of
           Some (line, column) \<Rightarrow> bytes ''[PANIC] location line='' @ hex_text (ucast line) @ bytes '' col='' @ hex_text (ucast column) @ bytes nl
         | None \<Rightarrow> bytes (''[PANIC] location unknown'' @ nl)))"

text \<open>C30: the panic handler always ends in the halted CPU with the panic flag set; it polls the serial device a
  bounded number of times, leaves the screen alone, and sends exactly its report, which for a panic
  inside a panic is one line.  Its private copy of the output routines is the exception handlers' one.\<close>

theorem panic_report:
  "case panic_handler lsr loc (again, c) of (e, flag, c') \<Rightarrow>
     e = Halted \<and> flag \<and> com1 c' = com1 c @ panic_text loc again \<and> lsr_reads c' \<le> lsr_reads c + 10000 * 105 \<and> WRITER c' = WRITER c"
proof -
  define t where "t = panic_text loc again"
  have len: "length t \<le> 105"
    by (simp add: t_def panic_text_def length_texts nl_def split: option.split)
  have str: "panic_write_str lsr s c = fold (panic_write_byte lsr) s c" for s c by (simp add: panic_write_str_def)
  have hex: "panic_write_hex_u64 lsr v c = fold (panic_write_byte lsr) (hex_text v) c" for v c
    by (simp add: panic_write_eq emergency_hex_fold hex_text_def del: upt_Suc)
  have "panic_handler lsr loc (again, c) = (Halted, True, fold (panic_write_byte lsr) t c)"
    by (simp add: t_def panic_text_def panic_handler_def str hex Let_def split: option.split)
  moreover have "lsr_reads (fold (panic_write_byte lsr) t c) \<le> lsr_reads c + 10000 * 105" using panic_out.puts_polls [of lsr t c] len by linarith
  ultimately show ?thesis using panic_out.puts_sent [of lsr t c] panic_out.puts_screen [of lsr t c] by (simp add: t_def)
qed

definition fault_text :: "string \<Rightarrow> u64 \<Rightarrow> u64 \<Rightarrow> u64 \<Rightarrow> u8 list" where
  "fault_text name err rip rsp = bytes (''[EXC] '' @ name @ '' err='') @ hex_text err @ bytes '' rip='' @ hex_text rip
     @ bytes '' rsp='' @ hex_text rsp @ bytes nl"

definition pf_text :: "u64 \<Rightarrow> cpu_fault \<Rightarrow> u8 list" where
  "pf_text cr2 flt = bytes (''[EXC] #PF unguarded'' @ nl) @ bytes '' cr2='' @ hex_text cr2 @ bytes '' err='' @ hex_text (flt_err flt)
     @ bytes '' rip='' @ hex_text (flt_rip flt) @ bytes '' rsp='' @ hex_text (flt_rsp flt) @ bytes nl"

text \<open>C31: a general protection fault and a double fault halt the CPU after reporting error code, instruction and
  stack pointer.  A page fault resumes exactly when a guarded access is in progress with a recovery
  address, and otherwise halts after reporting the address and the frame.\<close>

theorem exception_reports:
  "fst (general_protection_fault_handler lsr err rip rsp c) = Halted \<and> fst (double_fault_handler lsr err rip rsp c) = Halted
   \<and> com1 (snd (general_protection_fault_handler lsr err rip rsp c)) = com1 c @ fault_text ''#GP'' err rip rsp
   \<and> com1 (snd (double_fault_handler lsr err rip rsp c)) = com1 c @ fault_text ''#DF'' err rip rsp
   \<and> fst (page_fault_report lsr cr2 flt h c) = (if PF_GUARD_ACTIVE h \<noteq> 0 \<and> PF_GUARD_RECOVER_RIP h \<noteq> 0 then Resume else Halted)
   \<and> com1 (snd (page_fault_report lsr cr2 flt h c)) = com1 c @
       (if PF_GUARD_ACTIVE h \<noteq> 0 \<and> PF_GUARD_RECOVER_RIP h \<noteq> 0 then bytes (''[EXC] #PF guarded => fixup'' @ nl) else pf_text cr2 flt)"
proof (intro conjI)
  let ?g = "PF_GUARD_ACTIVE h \<noteq> 0 \<and> PF_GUARD_RECOVER_RIP h \<noteq> 0"
  have "page_fault_handler cr2 flt h = None" if "\<not> ?g"
    using that by (auto simp: page_fault_handler_def pf_guard_try_fixup_def Let_def)
  then have r: "page_fault_report lsr cr2 flt h c =
      (if ?g then (Resume, emit_bytes lsr (bytes (''[EXC] #PF guarded => fixup'' @ nl)) c) else (Halted, emit_bytes lsr (pf_text cr2 flt) c))"
    using guarded_fault [of h cr2 flt] by (simp add: page_fault_report_def emit_say emit_append pf_text_def)
  show "fst (page_fault_report lsr cr2 flt h c) = (if ?g then Resume else Halted)" by (simp add: r)
  show "com1 (snd (page_fault_report lsr cr2 flt h c)) = com1 c @ (if ?g then bytes (''[EXC] #PF guarded => fixup'' @ nl) else pf_text cr2 flt)"
    by (simp add: r emit_facts)
qed (simp_all add: general_protection_fault_handler_def double_fault_handler_def emit_say emit_append emit_facts fault_text_def Let_def)

section \<open>The ring 3 demo's calls\<close>

text \<open>What the kernel reads at a user address: 0 where the access faults.\<close>

definition user_word :: "'m Env \<Rightarrow> u64 \<Rightarrow> u64 \<Rightarrow> 'm \<Rightarrow> u64" where
  "user_word E c p m = (case cpu_load E c p m of Inr v \<Rightarrow> v | Inl _ \<Rightarrow> 0)"

definition ring3_roots_of :: "'m Machine \<Rightarrow> u64 \<times> u64" where
  "ring3_roots_of h = (RING3_DEMO_USER_ROOT_PHYS h, RING3_DEMO_KERNEL_ROOT_PHYS h)"

lemmas guarded_defs = guarded_read_block_def guarded_rw_block_def guarded_enter_def guarded_load_def guarded_fault guarded_result_def
  take_last_page_fault_def record_page_fault_def ring3_roots_of_def

lemma user_read_returns:
  assumes "frame_start_address user_root = Some u" "phys_addr_ok E (pa_u64 u)"
    "frame_start_address kernel_root = Some k" "phys_addr_ok E (pa_u64 k)" "recover_label E \<noteq> 0"
  shows "\<exists>s'. user_read_or_zero E lsr user_root kernel_root p s = Some (user_word E (pa_u64 u) p (mem (i80_hw s)), s')
    \<and> mem (i80_hw s') = mem (i80_hw s) \<and> cr3 (i80_hw s') = pa_u64 k \<and> INT80_COUNT s' = INT80_COUNT s
    \<and> ring3_roots_of (i80_hw s') = ring3_roots_of (i80_hw s)"
  using assms
  by (cases "cpu_load E (pa_u64 u) p (mem (i80_hw s))")
     (simp_all add: user_read_or_zero_def guarded_user_read_u64_in_root_def quiet_switch [OF assms(1,2)] quiet_switch [OF assms(3,4)]
       guarded_defs user_word_def i80_fault_line_def i80_say_def)

lemma user_rw_returns:
  assumes "frame_start_address user_root = Some u" "phys_addr_ok E (pa_u64 u)"
    "frame_start_address kernel_root = Some k" "phys_addr_ok E (pa_u64 k)" "recover_label E \<noteq> 0"
  shows "\<exists>r h'. guarded_user_rw_u64_in_root E user_root kernel_root p v h = Some (r, h')
    \<and> mem h' = snd (rw_outcome E (pa_u64 u) p v (mem h)) \<and> ring3_roots_of h' = ring3_roots_of h"
proof (cases "cpu_store E (pa_u64 u) p v (mem h)")
  case (Inl f)
  then show ?thesis using assms
    by (simp add: guarded_user_rw_u64_in_root_def quiet_switch [OF assms(1,2)] quiet_switch [OF assms(3,4)] guarded_defs rw_outcome_def)
next
  case (Inr m)
  then show ?thesis using assms
    by (cases "cpu_load E (pa_u64 u) p m")
       (simp_all add: guarded_user_rw_u64_in_root_def quiet_switch [OF assms(1,2)] quiet_switch [OF assms(3,4)] guarded_defs rw_outcome_def)
qed

lemma i80_say_fields [simp]:
  "i80_hw (i80_say lsr m s) = i80_hw s" "INT80_COUNT (i80_say lsr m s) = INT80_COUNT s"
  "i80_hw (i80_say_hex lsr m v s) = i80_hw s" "INT80_COUNT (i80_say_hex lsr m v s) = INT80_COUNT s"
  "INT80_COUNT (i80_fault_line lsr r s) = INT80_COUNT s"
  by (simp_all add: i80_say_def i80_say_hex_def i80_fault_line_def split: sum.split)

definition demo_ret :: "'m Env \<Rightarrow> u64 \<Rightarrow> u64 \<Rightarrow> 'm \<Rightarrow> u64" where
  "demo_ret E c rsp m = (if user_word E c (rsp - 16) m = 1
     then user_word E c (rsp - 24) m + user_word E c (rsp - 32) m + user_word E c (rsp - 40) m else 0)"

lemma int80_first_returns:
  assumes "frame_start_address user_root = Some u" "phys_addr_ok E (pa_u64 u)"
    "frame_start_address kernel_root = Some k" "phys_addr_ok E (pa_u64 k)" "recover_label E \<noteq> 0"
  shows "\<exists>s'. int80_first E lsr rip rsp user_root kernel_root s = Some (Resume, s') \<and> INT80_COUNT s' = INT80_COUNT s
    \<and> cr3 (i80_hw s') = pa_u64 u \<and> ring3_roots_of (i80_hw s') = ring3_roots_of (i80_hw s)
    \<and> mem (i80_hw s') = snd (rw_outcome E (pa_u64 u) (rsp - 48) (demo_ret E (pa_u64 u) rsp (mem (i80_hw s))) (mem (i80_hw s)))"
proof -
  note rd = user_read_returns [OF assms, where lsr = lsr]
  obtain s1 where 1: "user_read_or_zero E lsr user_root kernel_root (rsp - 16) s = Some (user_word E (pa_u64 u) (rsp - 16) (mem (i80_hw s)), s1)"
      "mem (i80_hw s1) = mem (i80_hw s)" "INT80_COUNT s1 = INT80_COUNT s" "ring3_roots_of (i80_hw s1) = ring3_roots_of (i80_hw s)"
    using rd [of "rsp - 16" s] by blast
  obtain s2 where 2: "user_read_or_zero E lsr user_root kernel_root (rsp - 24) s1 = Some (user_word E (pa_u64 u) (rsp - 24) (mem (i80_hw s)), s2)"
      "mem (i80_hw s2) = mem (i80_hw s)" "INT80_COUNT s2 = INT80_COUNT s" "ring3_roots_of (i80_hw s2) = ring3_roots_of (i80_hw s)"
    using rd [of "rsp - 24" s1] 1(2-) by metis
  obtain s3 where 3: "user_read_or_zero E lsr user_root kernel_root (rsp - 32) s2 = Some (user_word E (pa_u64 u) (rsp - 32) (mem (i80_hw s)), s3)"
      "mem (i80_hw s3) = mem (i80_hw s)" "INT80_COUNT s3 = INT80_COUNT s" "ring3_roots_of (i80_hw s3) = ring3_roots_of (i80_hw s)"
    using rd [of "rsp - 32" s2] 2(2-) by metis
  obtain s4 where 4: "user_read_or_zero E lsr user_root kernel_root (rsp - 40) s3 = Some (user_word E (pa_u64 u) (rsp - 40) (mem (i80_hw s)), s4)"
      "mem (i80_hw s4) = mem (i80_hw s)" "INT80_COUNT s4 = INT80_COUNT s" "ring3_roots_of (i80_hw s4) = ring3_roots_of (i80_hw s)"
    using rd [of "rsp - 40" s3] 3(2-) by metis
  obtain r h where 5: "guarded_user_rw_u64_in_root E user_root kernel_root (rsp - 48) (demo_ret E (pa_u64 u) rsp (mem (i80_hw s))) (i80_hw s4) = Some (r, h)"
      "mem h = snd (rw_outcome E (pa_u64 u) (rsp - 48) (demo_ret E (pa_u64 u) rsp (mem (i80_hw s))) (mem (i80_hw s)))"
      "ring3_roots_of h = ring3_roots_of (i80_hw s)"
    using user_rw_returns [OF assms, of "rsp - 48" _ "i80_hw s4"] 4(2-) by metis
  show ?thesis
    using 4(2-) 5(2-) by (simp add: int80_first_def 1(1) 2(1) 3(1) 4(1) 5(1) [unfolded demo_ret_def] quiet_switch [OF assms(1,2)] ring3_roots_of_def Let_def)
qed

lemma int80_second_last_returns:
  assumes "frame_start_address user_root = Some u" "phys_addr_ok E (pa_u64 u)"
    "frame_start_address kernel_root = Some k" "phys_addr_ok E (pa_u64 k)" "recover_label E \<noteq> 0"
  shows "\<exists>s'. int80_second E lsr rip rsp user_root kernel_root s = Some (Resume, s') \<and> INT80_COUNT s' = INT80_COUNT s
      \<and> cr3 (i80_hw s') = pa_u64 u \<and> ring3_roots_of (i80_hw s') = ring3_roots_of (i80_hw s) \<and> mem (i80_hw s') = mem (i80_hw s)"
    "\<exists>s'. int80_last E lsr rsp user_root kernel_root s = Some (Halted, s') \<and> INT80_COUNT s' = INT80_COUNT s
      \<and> cr3 (i80_hw s') = pa_u64 k \<and> ring3_roots_of (i80_hw s') = ring3_roots_of (i80_hw s) \<and> mem (i80_hw s') = mem (i80_hw s)"
proof -
  have rd: "\<exists>e t'. user_read_or_zero E lsr user_root kernel_root (rsp - 8) t = Some (e, t') \<and> mem (i80_hw t') = mem (i80_hw t)
      \<and> cr3 (i80_hw t') = pa_u64 k \<and> INT80_COUNT t' = INT80_COUNT t \<and> ring3_roots_of (i80_hw t') = ring3_roots_of (i80_hw t)" for t
    using user_read_returns [OF assms, of lsr "rsp - 8" t] by blast
  let ?t = "i80_say lsr nl (i80_say_hex lsr '' rsp='' rsp (i80_say_hex lsr '' rip='' rip (i80_say lsr (''[INT80] verify user_echo'' @ nl) s)))"
  from rd [of ?t] show "\<exists>s'. int80_second E lsr rip rsp user_root kernel_root s = Some (Resume, s') \<and> INT80_COUNT s' = INT80_COUNT s
      \<and> cr3 (i80_hw s') = pa_u64 u \<and> ring3_roots_of (i80_hw s') = ring3_roots_of (i80_hw s) \<and> mem (i80_hw s') = mem (i80_hw s)"
    by (auto simp: int80_second_def quiet_switch [OF assms(1,2)] Let_def ring3_roots_of_def)
  from rd [of "i80_say lsr (''[INT80] final'' @ nl) s"] show "\<exists>s'. int80_last E lsr rsp user_root kernel_root s = Some (Halted, s') \<and> INT80_COUNT s' = INT80_COUNT s
      \<and> cr3 (i80_hw s') = pa_u64 k \<and> ring3_roots_of (i80_hw s') = ring3_roots_of (i80_hw s) \<and> mem (i80_hw s') = mem (i80_hw s)"
    by (auto simp: int80_last_def Let_def)
qed

lemma peek_cong: "ring3_roots_of h = ring3_roots_of h' \<Longrightarrow> peek_ring3_demo_roots h = peek_ring3_demo_roots h'"
  by (simp add: ring3_roots_of_def peek_ring3_demo_roots_def)

lemma count_cases:
  fixes n :: u64
  assumes "n \<noteq> - 1"
  shows "chk_inc n = Some (n + 1)" "n + 1 = 1 \<longleftrightarrow> n = 0" "n + 1 = 2 \<longleftrightarrow> n = 1" "n < 2 \<longleftrightarrow> n = 0 \<or> n = 1"
proof -
  have "unat n \<noteq> unat (- 1 :: u64)" using assms by (simp only: word_unat_eq_iff not_False_eq_True)
  then have "unat n + 1 < 2 ^ 64" using unsigned_less [of n, where 'a = nat] by (simp add: unsigned_minus_1_eq_mask mask_eq_exp_minus_1)
  then show "chk_inc n = Some (n + 1)" by (rule chk_inc_Some)
  show "n + 1 = 1 \<longleftrightarrow> n = 0" by simp
  show "n + 1 = 2 \<longleftrightarrow> n = 1" by (metis add_right_cancel one_add_one)
  show "n < 2 \<longleftrightarrow> n = 0 \<or> n = 1" by (auto simp: word_less_nat_alt word_unat_eq_iff)
qed

text \<open>C26: whatever the user's memory holds or faults on, the demo's int 0x80 handler returns: the first call stores
  the sum of the three arguments (0 for another system call number) in the result slot, the second changes nothing, both
  resume on the user's page tables, and every later call halts on the kernel's.\<close>

theorem int80_demo_calls:
  assumes "frame_start_address user_root = Some u" "phys_addr_ok E (pa_u64 u)"
    "frame_start_address kernel_root = Some k" "phys_addr_ok E (pa_u64 k)" "recover_label E \<noteq> 0"
    "peek_ring3_demo_roots (i80_hw s) = Some (user_root, kernel_root)" "INT80_COUNT s \<noteq> - 1"
  shows "\<exists>e s'. int80_handler_ring3_demo E lsr rip rsp s = Some (e, s') \<and> INT80_COUNT s' = INT80_COUNT s + 1
    \<and> e = (if INT80_COUNT s < 2 then Resume else Halted) \<and> cr3 (i80_hw s') = (if e = Resume then pa_u64 u else pa_u64 k)
    \<and> mem (i80_hw s') = (if INT80_COUNT s = 0
         then snd (rw_outcome E (pa_u64 u) (rsp - 48) (demo_ret E (pa_u64 u) rsp (mem (i80_hw s))) (mem (i80_hw s)))
         else mem (i80_hw s))
    \<and> peek_ring3_demo_roots (i80_hw s') = Some (user_root, kernel_root)"
proof -
  note c = count_cases [OF assms(7)]
  let ?s = "s\<lparr>INT80_COUNT := INT80_COUNT s + 1\<rparr>"
  have pk: "peek_ring3_demo_roots (i80_hw ?s) = Some (user_root, kernel_root)" using assms(6) by simp
  have h: "int80_handler_ring3_demo E lsr rip rsp s =
      (if INT80_COUNT s = 0 then int80_first E lsr rip rsp user_root kernel_root ?s
       else if INT80_COUNT s = 1 then int80_second E lsr rip rsp user_root kernel_root ?s
       else int80_last E lsr rsp user_root kernel_root ?s)"
    by (simp only: int80_handler_ring3_demo_def c(1-3) bind.bind_lunit Let_def pk option.case prod.case)
  consider "INT80_COUNT s = 0" | "INT80_COUNT s = 1" | "\<not> INT80_COUNT s < 2" using c(4) by blast
  then show ?thesis
  proof cases
    case 1
    obtain s' where s': "int80_first E lsr rip rsp user_root kernel_root ?s = Some (Resume, s')" "INT80_COUNT s' = INT80_COUNT s + 1"
        "cr3 (i80_hw s') = pa_u64 u" "ring3_roots_of (i80_hw s') = ring3_roots_of (i80_hw s)"
        "mem (i80_hw s') = snd (rw_outcome E (pa_u64 u) (rsp - 48) (demo_ret E (pa_u64 u) rsp (mem (i80_hw s))) (mem (i80_hw s)))"
      using int80_first_returns [OF assms(1-5), of lsr rip rsp ?s] by auto
    show ?thesis
      by (rule exI [of _ Resume], rule exI [of _ s'])
         (simp only: h s' peek_cong [OF s'(4)] assms(6) eqTrueI [OF 1] c(4) simp_thms if_True)
  next
    case 2
    obtain s' where s': "int80_second E lsr rip rsp user_root kernel_root ?s = Some (Resume, s')" "INT80_COUNT s' = INT80_COUNT s + 1"
        "cr3 (i80_hw s') = pa_u64 u" "ring3_roots_of (i80_hw s') = ring3_roots_of (i80_hw s)" "mem (i80_hw s') = mem (i80_hw s)"
      using int80_second_last_returns(1) [OF assms(1-5), of lsr rip rsp ?s] by auto
    have n: "INT80_COUNT s \<noteq> 0" using 2 by simp
    show ?thesis
      by (rule exI [of _ Resume], rule exI [of _ s'])
         (simp only: h s' peek_cong [OF s'(4)] assms(6) eqTrueI [OF 2] n c(4) simp_thms if_True if_False)
  next
    case 3
    obtain s' where s': "int80_last E lsr rsp user_root kernel_root ?s = Some (Halted, s')" "INT80_COUNT s' = INT80_COUNT s + 1"
        "cr3 (i80_hw s') = pa_u64 k" "ring3_roots_of (i80_hw s') = ring3_roots_of (i80_hw s)" "mem (i80_hw s') = mem (i80_hw s)"
      using int80_second_last_returns(2) [OF assms(1-5), of lsr rsp ?s] by auto
    have n: "INT80_COUNT s \<noteq> 0" "INT80_COUNT s \<noteq> 1" using 3 c(4) by auto
    show ?thesis
      by (rule exI [of _ Halted], rule exI [of _ s'])
         (simp only: h s' peek_cong [OF s'(4)] assms(6) n 3 isr_end.distinct simp_thms if_False)
  qed
qed

section \<open>The registered state\<close>

text \<open>A call through the registered address runs on exactly the registered kernel state and leaves every other
  state alone; before a registration and after its removal the call does nothing and says so.\<close>

lemma registered_state_is_used:
  assumes "addr \<noteq> 0" "states_at r addr = Some ks" "f ks = Some (x, ks')"
  shows "with_kernel_state f (register_kernel_state addr r)
      = Some (Some x, (register_kernel_state addr r)\<lparr>states_at := (states_at r)(addr \<mapsto> ks')\<rparr>)
    \<and> with_kernel_state f (unregister_kernel_state r) = Some (None, unregister_kernel_state r)"
  using assms by (simp add: with_kernel_state_def register_kernel_state_def unregister_kernel_state_def Let_def)

end
