(* ===== verification/Ring3.thy ===== *)
theory Ring3
  imports User_Code Descriptors Exceptions
begin

text \<open>
  The way into ring 3: \<open>arch/ring3.rs\<close>, the three demos of \<open>kernel/entry.rs\<close> with their log, the
  feature-selected \<open>kernel_high_entry\<close> and the jump to the high alias
  (\<open>paging.rs\<close>: \<open>enter_kernel_high_alias\<close>).  \<open>iretq\<close> ends the kernel's part, so a demo's result is
  the interrupt frame it leaves with, the machine and the console.

  The byte accesses through the physical memory map are the CPU's and a parameter: \<open>st8\<close> and \<open>ld8\<close>
  store and load a byte at a virtual address under a CR3; \<open>None\<close> is a page fault, which halts here since no
  guard is up.
\<close>

unbundle bit_operations_syntax

record 'm ByteMem =
  st8 :: "u64 \<Rightarrow> u64 \<Rightarrow> u8 \<Rightarrow> 'm \<Rightarrow> 'm option"
  ld8 :: "u64 \<Rightarrow> u64 \<Rightarrow> 'm \<Rightarrow> u8 option"

section \<open>arch/ring3.rs\<close>

record IretqFrame =
  f_ss :: u64
  f_rsp :: u64
  f_rflags :: u64
  f_cs :: u64
  f_rip :: u64

definition rflags_user_mvp :: u64 where
  "rflags_user_mvp = push_bit 1 1"

definition enter_user_mode_iretq :: "u64 \<Rightarrow> u64 \<Rightarrow> u16 \<Rightarrow> u16 \<Rightarrow> IretqFrame" where
  "enter_user_mode_iretq user_rip user_rsp user_cs user_ss =
     \<lparr>f_ss = ucast user_ss, f_rsp = user_rsp, f_rflags = rflags_user_mvp, f_cs = ucast user_cs, f_rip = user_rip\<rparr>"

section \<open>Emergency output and the copy into the code page\<close>

definition eprint :: "lsr \<Rightarrow> string \<Rightarrow> Console \<Rightarrow> Console" where
  "eprint lsr s c = say lsr s c"

definition eprint_hex :: "lsr \<Rightarrow> string \<Rightarrow> u64 \<Rightarrow> Console \<Rightarrow> Console" where
  "eprint_hex lsr label v c = say lsr nl (say_hex lsr v (say lsr label c))"

definition write_bytes_to_phys :: "'m Env \<Rightarrow> 'm ByteMem \<Rightarrow> lsr \<Rightarrow> u64 \<Rightarrow> u8 list \<Rightarrow> 'm Machine \<Rightarrow> Console
    \<Rightarrow> ('m Machine \<times> Console) option" where
  "write_bytes_to_phys E B lsr phys_u64 bs h c = do {
     let c1 = eprint_hex lsr ''[E] physmap_off='' (PHYSICAL_MEMORY_OFFSET h)
                (eprint_hex lsr ''[E] phys_u64='' phys_u64 (eprint lsr (''[E] write_bytes_to_phys: begin'' @ nl) c));
     can_access \<leftarrow> debug_physmap_can_access_phys E phys_u64 h;
     if \<not> can_access then None
     else do {
       base \<leftarrow> chk_add (PHYSICAL_MEMORY_OFFSET h) phys_u64;
       m \<leftarrow> foldM (\<lambda>(i, b) m. st8 B (cr3 h) (base + of_nat i) b m) (enumerate 0 bs) (mem h);
       back0 \<leftarrow> ld8 B (cr3 h) base m;
       let c2 = eprint_hex lsr ''[E] write_bytes_to_phys: wrote first byte='' (ucast back0) (eprint_hex lsr ''[E] physmap_va='' base c1);
       Some (h\<lparr>mem := m\<rparr>, eprint lsr (''[E] write_bytes_to_phys: end'' @ nl) c2)
     }
   }"

section \<open>What the demos share\<close>

definition current_root :: "'m Machine \<Rightarrow> PhysFrame" where
  "current_root h = PhysFrame (cr3 h div PAGE_SIZE)"

definition expect_frame :: "'m Env \<Rightarrow> FrameAlloc \<Rightarrow> (u64 \<times> PhysFrame \<times> FrameAlloc) option" where
  "expect_frame E pm = do {
     (r, pm') \<leftarrow> allocate_frame (phys_addr_ok E) pm;
     raw \<leftarrow> r;
     a \<leftarrow> frame_start_address raw;
     Some (pa_u64 a, PhysFrame (pa_u64 a div PAGE_SIZE), pm')
   }"

definition expect_action :: "'m Env \<Rightarrow> MemAction \<Rightarrow> PhysFrame \<Rightarrow> FrameAlloc \<Rightarrow> 'm Machine \<Rightarrow> (FrameAlloc \<times> 'm Machine) option" where
  "expect_action E action root pm h = do {
     (res, pm', h') \<leftarrow> apply_mem_action_in_root E action root pm h;
     (case res of Inr _ \<Rightarrow> Some (pm', h') | Inl _ \<Rightarrow> None)
   }"

definition user_code_page :: VirtPage where "user_code_page = VirtPage 0x120"
definition user_stack_page :: VirtPage where "user_stack_page = VirtPage 0x121"

definition RW_USER :: PageFlags where "RW_USER = PRESENT OR WRITABLE OR USER"
definition RX_USER :: PageFlags where "RX_USER = PRESENT OR USER"

definition map_code_and_stack :: "'m Env \<Rightarrow> PhysFrame \<Rightarrow> FrameAlloc \<Rightarrow> 'm Machine
    \<Rightarrow> (u64 \<times> PhysFrame \<times> FrameAlloc \<times> 'm Machine) option" where
  "map_code_and_stack E user_root pm h = do {
     (code_phys, code_frame, pm1) \<leftarrow> expect_frame E pm;
     (stack_phys, stack_frame, pm2) \<leftarrow> expect_frame E pm1;
     (pm3, h1) \<leftarrow> expect_action E (Map user_code_page code_frame RW_USER) user_root pm2 h;
     (pm4, h2) \<leftarrow> expect_action E (Map user_stack_page stack_frame RW_USER) user_root pm3 h1;
     Some (code_phys, code_frame, pm4, h2)
   }"

definition remap_code_rx :: "'m Env \<Rightarrow> PhysFrame \<Rightarrow> PhysFrame \<Rightarrow> FrameAlloc \<Rightarrow> 'm Machine \<Rightarrow> (FrameAlloc \<times> 'm Machine) option" where
  "remap_code_rx E user_root code_frame pm h = do {
     (pm1, h1) \<leftarrow> expect_action E (Unmap user_code_page) user_root pm h;
     expect_action E (Map user_code_page code_frame RX_USER) user_root pm1 h1
   }"

definition enter_ring3 :: "'m Env \<Rightarrow> lsr \<Rightarrow> 'g GdtState \<Rightarrow> string \<Rightarrow> PhysFrame \<Rightarrow> 'm Machine \<Rightarrow> Console
    \<Rightarrow> (IretqFrame \<times> 'm Machine \<times> Console) option" where
  "enter_ring3 E lsr g msg user_root h c = do {
     cp \<leftarrow> page_start_address user_code_page;
     sp \<leftarrow> page_start_address user_stack_page;
     user_rip \<leftarrow> chk_add USER_SPACE_BASE (va_u64 cp);
     stack_base \<leftarrow> chk_add USER_SPACE_BASE (va_u64 sp);
     stack_top \<leftarrow> chk_add stack_base PAGE_SIZE;
     let user_rsp = stack_top AND NOT 0xF;
     user_code \<leftarrow> user_code_selector g;
     user_data \<leftarrow> user_data_selector g;
     let user_cs = user_code OR 3;
     let user_ss = user_data OR 3;
     c1 \<leftarrow> log_info (vga_enabled h) lsr msg c;
     c2 \<leftarrow> log_info_u64 (vga_enabled h) lsr ''user_rip'' user_rip c1;
     c3 \<leftarrow> log_info_u64 (vga_enabled h) lsr ''user_rsp'' user_rsp c2;
     h1 \<leftarrow> switch_address_space_quiet E user_root (set_vga_enabled False h);
     Some (enter_user_mode_iretq user_rip user_rsp user_cs user_ss, h1, c3)
   }"

section \<open>The demos\<close>

definition run_ring3_demo :: "'m Env \<Rightarrow> 'm ByteMem \<Rightarrow> lsr \<Rightarrow> 'g GdtState \<Rightarrow> region list \<Rightarrow> 'm Machine \<Rightarrow> Console
    \<Rightarrow> (IretqFrame \<times> 'm Machine \<times> Console) option" where
  "run_ring3_demo E B lsr g boot_map h c = do {
     c1 \<leftarrow> log_info (vga_enabled h) lsr ''ring3_demo: start'' c;
     let kernel_root = current_root h;
     pm0 \<leftarrow> BootInfoFrameAllocator_new boot_map;
     (r, pm1) \<leftarrow> allocate_new_l4_table (phys_addr_ok E) pm0;
     user_root \<leftarrow> r;
     h1 \<leftarrow> init_user_pml4_from_current E user_root h;
     (code_phys, code_frame, pm2, h2) \<leftarrow> map_code_and_stack E user_root pm1 h1;
     h3 \<leftarrow> set_ring3_demo_roots user_root kernel_root h2;
     (h4, c2) \<leftarrow> write_bytes_to_phys E B lsr code_phys ring3_demo_code h3 c1;
     (pm3, h5) \<leftarrow> remap_code_rx E user_root code_frame pm2 h4;
     enter_ring3 E lsr g ''ring3_demo: entering ring3 via iretq'' user_root h5 c2
   }"

definition run_ring3_mailbox_demo :: "'m Env \<Rightarrow> 'm ByteMem \<Rightarrow> lsr \<Rightarrow> 'g GdtState \<Rightarrow> region list \<Rightarrow> 'm Machine \<Rightarrow> Console
    \<Rightarrow> (IretqFrame \<times> 'm Machine \<times> Console) option" where
  "run_ring3_mailbox_demo E B lsr g boot_map h c = do {
     c1 \<leftarrow> log_info (vga_enabled h) lsr ''ring3_mailbox: start'' c;
     let kernel_root = current_root h;
     pm0 \<leftarrow> BootInfoFrameAllocator_new boot_map;
     (r, pm1) \<leftarrow> allocate_new_l4_table (phys_addr_ok E) pm0;
     user_root \<leftarrow> r;
     h1 \<leftarrow> init_user_pml4_from_current E user_root h;
     (code_phys, code_frame, pm2, h2) \<leftarrow> map_code_and_stack E user_root pm1 h1;
     h3 \<leftarrow> set_ring3_demo_roots user_root kernel_root h2;
     (h4, c2) \<leftarrow> write_bytes_to_phys E B lsr code_phys ring3_mailbox_code h3 c1;
     enter_ring3 E lsr g ''ring3_mailbox: entering ring3 via iretq'' user_root h4 c2
   }"

definition drop_writable :: "bool \<Rightarrow> 'm Env \<Rightarrow> lsr \<Rightarrow> bool \<Rightarrow> PhysFrame \<Rightarrow> PhysFrame \<Rightarrow> FrameAlloc \<Rightarrow> 'm Machine \<Rightarrow> Console
    \<Rightarrow> (FrameAlloc \<times> 'm Machine \<times> Console) option" where
  "drop_writable skip_rx E lsr en user_root code_frame pm h c =
     (if skip_rx then do {
        c1 \<leftarrow> log_info en lsr ''ring3_mailbox_loop: skip RX remap (debug)'' c;
        Some (pm, h, c1)
      } else do {
        c1 \<leftarrow> log_info en lsr ''ring3_mailbox_loop: remap code to RX (drop WRITABLE)'' c;
        (pm1, h1) \<leftarrow> remap_code_rx E user_root code_frame pm h;
        Some (pm1, h1, c1)
      })"

definition run_ring3_mailbox_loop_demo :: "bool \<Rightarrow> 'm Env \<Rightarrow> 'm ByteMem \<Rightarrow> lsr \<Rightarrow> 'g GdtState \<Rightarrow> 'm KernelState \<Rightarrow> Console
    \<Rightarrow> (IretqFrame \<times> 'm KernelState \<times> Console) option" where
  "run_ring3_mailbox_loop_demo skip_rx E B lsr g kstate c = do {
     c1 \<leftarrow> log_info (vga_enabled (hw kstate)) lsr ''ring3_mailbox_loop: start'' c;
     let ks = prepare_ring3_loop_current_task kstate;
     let en = vga_enabled (hw ks);
     let kernel_root = current_root (hw ks);
     aspace \<leftarrow> nth_chk (address_spaces ks) 1;
     user_root \<leftarrow> root_page_frame aspace;
     (code_phys, code_frame, pm1, h1) \<leftarrow> map_code_and_stack E user_root (phys_mem ks) (hw ks);
     c2 \<leftarrow> log_info en lsr ''ring3_mailbox_loop: mapped user code+stack OK'' c1;
     ua \<leftarrow> frame_start_address user_root;
     c3 \<leftarrow> log_info_u64 en lsr ''ring3_mailbox_loop: user_root_phys'' (pa_u64 ua) c2;
     ka \<leftarrow> frame_start_address kernel_root;
     c4 \<leftarrow> log_info_u64 en lsr ''ring3_mailbox_loop: kernel_root_phys'' (pa_u64 ka) c3;
     h2 \<leftarrow> set_ring3_demo_roots user_root kernel_root h1;
     let c5 = eprint lsr (''[E] after roots registered'' @ nl) c4;
     code \<leftarrow> ring3_loop_code;
     let c6 = eprint_hex lsr ''[E] code_phys='' code_phys (eprint lsr (''[E] about to write bytes to phys'' @ nl) c5);
     (h3, c7) \<leftarrow> write_bytes_to_phys E B lsr code_phys code h2 c6;
     let c8 = eprint lsr (''[E] bytes written OK'' @ nl) c7;
     (pm2, h4, c9) \<leftarrow> drop_writable skip_rx E lsr en user_root code_frame pm1 h3 c8;
     (f, h5, c10) \<leftarrow> enter_ring3 E lsr g ''ring3_mailbox_loop: entering ring3 via iretq'' user_root h4 c9;
     Some (f, ks\<lparr>phys_mem := pm2, hw := h5\<rparr>, c10)
   }"

section \<open>The entry point by features\<close>

text \<open>How the boot ends: in ring 3 (with the registered kernel state, if one was made), or in the final halt loop.\<close>

datatype 'm boot_end = InRing3 IretqFrame "'m Machine" "'m KernelState option" Console | HaltLoop "'m KernelState"

definition kernel_high_entry_by_feature :: "bool \<Rightarrow> bool \<Rightarrow> 'm Env \<Rightarrow> 'm ByteMem \<Rightarrow> lsr \<Rightarrow> 'g GdtState \<Rightarrow> region list
    \<Rightarrow> 'm Machine \<Rightarrow> Console \<Rightarrow> 'm boot_end option" where
  "kernel_high_entry_by_feature ring3_demo skip_rx E B lsr g boot_map h c =
     (if ring3_demo then do {
        (f, h1, c1) \<leftarrow> run_ring3_demo E B lsr g boot_map h c;
        Some (InRing3 f h1 None c1)
      } else if ring3_mailbox E then do {
        s0 \<leftarrow> KernelState_new E boot_map h;
        s1 \<leftarrow> bootstrap E s0;
        s2 \<leftarrow> tick_loop E 3 s1;
        (f, h1, c1) \<leftarrow> run_ring3_mailbox_demo E B lsr g boot_map (hw s2) c;
        Some (InRing3 f h1 (Some (s2\<lparr>hw := h1\<rparr>)) c1)
      } else if ring3_mailbox_loop E then do {
        s0 \<leftarrow> KernelState_new E boot_map h;
        s1 \<leftarrow> bootstrap E s0;
        (f, s2, c1) \<leftarrow> run_ring3_mailbox_loop_demo skip_rx E B lsr g s1 c;
        Some (InRing3 f (hw s2) (Some s2) c1)
      } else map_option HaltLoop (kernel_high_entry E boot_map h))"

record HighEntry =
  he_rsp :: u64
  he_rbp :: u64
  he_rdi :: u64
  he_target :: u64

definition enter_kernel_high_alias :: "u64 \<Rightarrow> u64 \<Rightarrow> u64 \<Rightarrow> u64 \<Rightarrow> HighEntry option" where
  "enter_kernel_high_alias low_entry boot_info rsp_low rbp_low = do {
     high_entry \<leftarrow> kernel_high_alias_of_low low_entry;
     rsp \<leftarrow> kernel_high_alias_of_low rsp_low;
     rbp_high \<leftarrow> kernel_high_alias_of_low rbp_low;
     Some \<lparr>he_rsp = rsp AND NOT 0xF, he_rbp = rbp_high, he_rdi = boot_info, he_target = high_entry\<rparr>
   }"

section \<open>The frame and the machine at the entry to ring 3\<close>

text \<open>What must hold when \<open>iretq\<close> leaves the kernel: the fixed user addresses, a 16-byte aligned stack at the end of
  the stack page, requested privilege level 3 in both selectors, interrupts off, and user page tables without VGA output.\<close>

definition ring3_entry_ok :: "PhysFrame \<Rightarrow> IretqFrame \<Rightarrow> 'm Machine \<Rightarrow> bool" where
  "ring3_entry_ok user_root f h \<longleftrightarrow> f_rip f = USER_SPACE_BASE + 0x120000 \<and> f_rsp f = USER_SPACE_BASE + 0x122000 \<and> unat (f_rsp f) mod 16 = 0
     \<and> f_cs f AND 3 = 3 \<and> f_ss f AND 3 = 3 \<and> \<not> bit (f_rflags f) 9 \<and> bit (f_rflags f) 1
     \<and> frame_start_address user_root = Some (PhysAddr (cr3 h)) \<and> \<not> vga_enabled h"

lemma rpl3: "(ucast (sel OR 3 :: u16) :: u64) AND 3 = 3"
proof (rule bit_eqI)
  fix n
  have m: "(3 :: u64) = mask 2" "(3 :: u16) = mask 2" by (simp_all add: mask_eq_exp_minus_1)
  show "bit ((ucast (sel OR 3 :: u16) :: u64) AND 3) n = bit (3 :: u64) n"
    unfolding m by (auto simp: bit_simps)
qed

lemma enter_ring3_ok:
  assumes "enter_ring3 E lsr g msg user_root h c = Some (f, h', c')"
  shows "ring3_entry_ok user_root f h'" "\<exists>p. h' = h\<lparr>vga_enabled := False, cr3 := p\<rparr>"
proof -
  have base: "USER_SPACE_BASE = 0x100000000000" by (simp add: USER_SPACE_BASE_def USER_PML4_INDEX_def pml4_index_base_addr_def canonicalize_virt_def)
  obtain a cs' ss' where a: "frame_start_address user_root = Some a" "h' = h\<lparr>vga_enabled := False, cr3 := pa_u64 a\<rparr>"
      "f = enter_user_mode_iretq 0x100000120000 0x100000122000 (cs' OR 3) (ss' OR 3)"
    using assms by (auto simp: enter_ring3_def user_code_page_def user_stack_page_def page_start_address_def chk_mul_def chk_add_def PAGE_SIZE_def base
        switch_address_space_quiet_def PhysAddr_new_def set_vga_enabled_def Let_def split: bind_splits if_splits)
  have "a = PhysAddr (pa_u64 a)" by simp
  then show "ring3_entry_ok user_root f h'"
    using a by (simp add: ring3_entry_ok_def enter_user_mode_iretq_def base rpl3 rflags_user_mvp_def bit_simps)
  show "\<exists>p. h' = h\<lparr>vga_enabled := False, cr3 := p\<rparr>" using a(2) by blast
qed
lemma expect_action_mem:
  assumes "expect_action E act root pm h = Some (pm', h')"
  shows "\<exists>m. h' = h\<lparr>mem := m\<rparr>"
proof -
  obtain z where z: "apply_mem_action_with_mapper E act (Some root) pm h = Some (z, pm', h')"
    using assms by (auto simp: expect_action_def apply_mem_action_in_root_def split: bind_splits prod.splits sum.splits)
  show ?thesis
  proof (cases act)
    case (Map page frame flags)
    then show ?thesis using z by (auto simp: Let_def split: bind_splits prod.splits)
  next
    case (Unmap page)
    then show ?thesis using z by (auto split: bind_splits prod.splits)
  qed
qed

text \<open>The memory just after a read-only remap: in the table of \<open>root\<close> the code page was unmapped and then mapped again to
  the frame \<open>code_frame\<close>, with exactly the flags present and user accessible.\<close>

definition mapped_rx :: "'m Env \<Rightarrow> PhysFrame \<Rightarrow> PhysFrame \<Rightarrow> 'm Machine \<Rightarrow> bool" where
  "mapped_rx E root code_frame h \<longleftrightarrow> (\<exists>t a m0 m1 pm pm'.
     init_offset_page_table_for_root E root h = Some t \<and> frame_start_address code_frame = Some a
     \<and> pt_unmap E t (USER_SPACE_BASE + 0x120000) m0 = (Inr (), m1)
     \<and> pt_map_to E t (USER_SPACE_BASE + 0x120000) (pa_u64 a) (X_PRESENT E OR X_USER_ACCESSIBLE E)
         (allocate_frame (phys_addr_ok E)) m1 pm = Some (Inr (), mem h, pm'))"

lemma table_for_root_mem [simp]:
  "init_offset_page_table_for_root E root (h\<lparr>mem := m\<rparr>) = init_offset_page_table_for_root E root h"
  "init_offset_page_table_for_root E root (h\<lparr>vga_enabled := v, cr3 := p\<rparr>) = init_offset_page_table_for_root E root h"
  by (simp_all add: init_offset_page_table_for_root_def phys_to_virt_def)

lemma mapped_rx_entry: "mapped_rx E root cf h \<Longrightarrow> h' = h\<lparr>vga_enabled := v, cr3 := p\<rparr> \<Longrightarrow> mapped_rx E root cf h'"
  by (simp add: mapped_rx_def)

lemma to_x86_RX: "to_x86_flags E RX_USER = X_PRESENT E OR X_USER_ACCESSIBLE E"
  by (simp add: to_x86_flags_def RX_USER_def flags_contain_def PRESENT_def WRITABLE_def USER_def NO_EXEC_def Let_def)

lemma unmap_code_page:
  assumes "expect_action E (Unmap user_code_page) root pm h = Some (pm', h')"
  shows "\<exists>t m. init_offset_page_table_for_root E root h = Some t \<and> pt_unmap E t (USER_SPACE_BASE + 0x120000) (mem h) = (Inr (), m)
    \<and> h' = h\<lparr>mem := m\<rparr>"
proof -
  have v: "chk_add USER_SPACE_BASE 0x120000 = Some (USER_SPACE_BASE + 0x120000)" by (simp add: chk_add_def)
  have p: "page_start_address user_code_page = Some (VirtAddr 0x120000)"
    by (simp add: user_code_page_def page_start_address_def chk_mul_def PAGE_SIZE_def)
  show ?thesis
    using assms by (auto simp: expect_action_def apply_mem_action_in_root_def p v VirtAddr_new_def mapper_for_def
        split: bind_splits prod.splits sum.splits if_splits)
qed

lemma map_code_page_rx:
  assumes "expect_action E (Map user_code_page frame RX_USER) root pm h = Some (pm', h')"
  shows "\<exists>t a m. init_offset_page_table_for_root E root h = Some t \<and> frame_start_address frame = Some a
    \<and> pt_map_to E t (USER_SPACE_BASE + 0x120000) (pa_u64 a) (X_PRESENT E OR X_USER_ACCESSIBLE E)
        (allocate_frame (phys_addr_ok E)) (mem h) pm = Some (Inr (), m, pm') \<and> h' = h\<lparr>mem := m\<rparr>"
proof -
  have u: "x_contains (X_PRESENT E OR X_USER_ACCESSIBLE E) (X_USER_ACCESSIBLE E)"
    unfolding x_contains_def by (rule bit_eqI) (auto simp: bit_simps)
  have v: "chk_add USER_SPACE_BASE 0x120000 = Some (USER_SPACE_BASE + 0x120000)" by (simp add: chk_add_def)
  have p: "page_start_address user_code_page = Some (VirtAddr 0x120000)"
    by (simp add: user_code_page_def page_start_address_def chk_mul_def PAGE_SIZE_def)
  show ?thesis
    using assms u by (auto simp: expect_action_def apply_mem_action_in_root_def p v to_x86_RX Let_def VirtAddr_new_def PhysAddr_new_def
        mapper_for_def split: bind_splits prod.splits if_splits sum.splits)
qed

lemma remap_mapped:
  assumes "remap_code_rx E root frame pm h = Some (pm', h')"
  shows "\<exists>m. h' = h\<lparr>mem := m\<rparr>" "mapped_rx E root frame h'"
proof -
  obtain pm1 h1 where 1: "expect_action E (Unmap user_code_page) root pm h = Some (pm1, h1)"
      "expect_action E (Map user_code_page frame RX_USER) root pm1 h1 = Some (pm', h')"
    using assms by (auto simp: remap_code_rx_def split: bind_splits)
  obtain t m where m: "init_offset_page_table_for_root E root h = Some t"
      "pt_unmap E t (USER_SPACE_BASE + 0x120000) (mem h) = (Inr (), m)" "h1 = h\<lparr>mem := m\<rparr>"
    using unmap_code_page [OF 1(1)] by blast
  obtain t' a m' where m': "init_offset_page_table_for_root E root h1 = Some t'" "frame_start_address frame = Some a"
      "pt_map_to E t' (USER_SPACE_BASE + 0x120000) (pa_u64 a) (X_PRESENT E OR X_USER_ACCESSIBLE E)
        (allocate_frame (phys_addr_ok E)) (mem h1) pm1 = Some (Inr (), m', pm')" "h' = h1\<lparr>mem := m'\<rparr>"
    using map_code_page_rx [OF 1(2)] by blast
  have "t' = t" using m(1,3) m'(1) by simp
  then show "mapped_rx E root frame h'"
    unfolding mapped_rx_def using m m' by (intro exI [of _ t] exI [of _ a] exI [of _ "mem h"] exI [of _ m] exI [of _ pm1] exI [of _ pm']) simp
  show "\<exists>m. h' = h\<lparr>mem := m\<rparr>" using m(3) m'(4) by auto
qed

text \<open>The code frame is the first frame allocated for the mapping.\<close>

lemma map_code_and_stack_frame:
  "map_code_and_stack E root pm h = Some (cp, cf, pm', h') \<Longrightarrow> \<exists>pm1. expect_frame E pm = Some (cp, cf, pm1)"
  by (auto simp: map_code_and_stack_def split: bind_splits)

lemma map_code_and_stack_mem:
  assumes "map_code_and_stack E root pm h = Some (cp, cf, pm', h')"
  shows "\<exists>m. h' = h\<lparr>mem := m\<rparr>"
proof -
  obtain pm2 pm3 h1 a b where "expect_action E a root pm2 h = Some (pm3, h1)" "expect_action E b root pm3 h1 = Some (pm', h')"
    using assms by (auto simp: map_code_and_stack_def split: bind_splits)
  then show ?thesis using expect_action_mem by (metis Machine.surjective Machine.update_convs(2))
qed

lemma write_bytes_mem: "write_bytes_to_phys E B lsr p bs h c = Some (h', c') \<Longrightarrow> \<exists>m. h' = h\<lparr>mem := m\<rparr>"
  by (auto simp: write_bytes_to_phys_def Let_def split: bind_splits if_splits)

text \<open>The registered roots: the user root the demo enters, and the root that was active when it started.\<close>

definition roots_registered :: "PhysFrame \<Rightarrow> PhysFrame \<Rightarrow> 'm Machine \<Rightarrow> bool" where
  "roots_registered user_root kernel_root h \<longleftrightarrow> frame_start_address user_root = Some (PhysAddr (RING3_DEMO_USER_ROOT_PHYS h))
     \<and> frame_start_address kernel_root = Some (PhysAddr (RING3_DEMO_KERNEL_ROOT_PHYS h))"

lemma set_roots: "set_ring3_demo_roots u k h = Some h' \<Longrightarrow> roots_registered u k h'"
  by (auto simp: set_ring3_demo_roots_def roots_registered_def split: bind_splits)

lemma roots_mem: "roots_registered u k h \<Longrightarrow> h' = h\<lparr>mem := m\<rparr> \<Longrightarrow> roots_registered u k h'"
  by (simp add: roots_registered_def)

lemma roots_entry: "roots_registered u k h \<Longrightarrow> h' = h\<lparr>vga_enabled := v, cr3 := p\<rparr> \<Longrightarrow> roots_registered u k h'"
  by (simp add: roots_registered_def)

text \<open>C23: when the ring 3 demo leaves the kernel it has entered ring 3 at the user code page with interrupts off, privilege level 3
  and an aligned stack, on the page tables it allocated first; those and the kernel's are the registered roots; and
  the last change of memory was to take the code page out of that root and map it there again, to the code frame (the
  next frame allocated), present and user accessible but not writable.\<close>

theorem ring3_demo_entry:
  assumes "run_ring3_demo E B lsr g boot_map h c = Some (f, h', c')"
  shows "\<exists>pm0 pm1 user_root code_phys code_frame pm2. BootInfoFrameAllocator_new boot_map = Some pm0
    \<and> allocate_new_l4_table (phys_addr_ok E) pm0 = Some (Some user_root, pm1) \<and> expect_frame E pm1 = Some (code_phys, code_frame, pm2)
    \<and> ring3_entry_ok user_root f h' \<and> roots_registered user_root (current_root h) h' \<and> mapped_rx E user_root code_frame h'"
proof -
  note d = assms [unfolded run_ring3_demo_def Let_def bind_eq_Some_conv case_prod_beta]
  obtain pm0 user_root pm1 h1 z h3 w y c2 where s: "BootInfoFrameAllocator_new boot_map = Some pm0"
      "allocate_new_l4_table (phys_addr_ok E) pm0 = Some (Some user_root, pm1)" "map_code_and_stack E user_root pm1 h1 = Some z"
      "set_ring3_demo_roots user_root (current_root h) (snd (snd (snd z))) = Some h3"
      "write_bytes_to_phys E B lsr (fst z) ring3_demo_code h3 c2 = Some w"
      "remap_code_rx E user_root (fst (snd z)) (fst (snd (snd z))) (fst w) = Some y"
      "enter_ring3 E lsr g ''ring3_demo: entering ring3 via iretq'' user_root (snd y) (snd w) = Some (f, h', c')"
    using d by (elim exE conjE) (auto simp: prod_eq_iff)
  obtain m1 where m1: "fst w = h3\<lparr>mem := m1\<rparr>" using write_bytes_mem [of E B lsr "fst z" ring3_demo_code h3 c2 "fst w" "snd w"] s(5) by auto
  have y: "remap_code_rx E user_root (fst (snd z)) (fst (snd (snd z))) (fst w) = Some (fst y, snd y)" using s(6) by simp
  obtain m2 where m2: "snd y = (fst w)\<lparr>mem := m2\<rparr>" using remap_mapped(1) [OF y] by blast
  obtain pm2 where e: "expect_frame E pm1 = Some (fst z, fst (snd z), pm2)"
    using map_code_and_stack_frame [of E user_root pm1 h1 "fst z" "fst (snd z)" "fst (snd (snd z))" "snd (snd (snd z))"] s(3) by auto
  obtain p where p: "h' = (snd y)\<lparr>vga_enabled := False, cr3 := p\<rparr>" using enter_ring3_ok(2) [OF s(7)] by blast
  have "roots_registered user_root (current_root h) h'"
    by (rule roots_entry [OF roots_mem [OF roots_mem [OF set_roots [OF s(4)] m1] m2] p])
  moreover have "mapped_rx E user_root (fst (snd z)) h'" by (rule mapped_rx_entry [OF remap_mapped(2) [OF y] p])
  ultimately show ?thesis using s(1,2) e enter_ring3_ok(1) [OF s(7)] by blast
qed
lemma new_state_root:
  assumes "KernelState_new E boot_map h = Some s" "BootInfoFrameAllocator_new boot_map = Some pm"
    "allocate_new_l4_table (phys_addr_ok E) pm = Some (Some r, pm1)"
  shows "root_page_frame (address_spaces s ! 1) = Some r"
proof -
  have u: "[FIRST_USER_ASID_INDEX..<MAX_TASKS] = [1, 2]" by (simp add: FIRST_USER_ASID_INDEX_def MAX_TASKS_def upt_rec)
  have a: "address_spaces (on_kernel_state_init E ks) = address_spaces ks" for ks
    by (simp add: on_kernel_state_init_def upd_endpoint_def)
  obtain ass pm2 h1 z where 1: "new_user_root E 1 ([new_kernel\<lparr>root_page_frame := Some (PhysFrame (cr3 h div PAGE_SIZE))\<rparr>, new_user, new_user], pm, h) = Some (ass, pm2, h1)"
      "new_user_root E 2 (ass, pm2, h1) = Some z" "address_spaces s = fst z"
    using assms(1) by (auto simp: KernelState_new_def assms(2) u Let_def a split: bind_splits)
  have "root_page_frame (ass ! 1) = Some r" using 1(1) assms(3) by (auto simp: new_user_root_def split: bind_splits)
  moreover have "fst z ! 1 = ass ! 1" using 1(2) by (auto simp: new_user_root_def split: bind_splits option.splits)
  ultimately show ?thesis using 1(3) by simp
qed

text \<open>C24: the mailbox demo makes a second frame allocator over the same memory map after the kernel state has used one, so
  the page table it builds and enters ring 3 on is the very frame that holds task 1's page table.\<close>

theorem ring3_mailbox_reuses_root:
  assumes "KernelState_new E boot_map h0 = Some s0" "run_ring3_mailbox_demo E B lsr g boot_map h c = Some (f, h', c')"
  shows "\<exists>user_root. root_page_frame (address_spaces s0 ! 1) = Some user_root \<and> ring3_entry_ok user_root f h'
    \<and> roots_registered user_root (current_root h) h'"
proof -
  note d = assms(2) [unfolded run_ring3_mailbox_demo_def Let_def bind_eq_Some_conv case_prod_beta]
  obtain pm0 user_root pm1 h1 z h3 w c2 where s: "BootInfoFrameAllocator_new boot_map = Some pm0"
      "allocate_new_l4_table (phys_addr_ok E) pm0 = Some (Some user_root, pm1)" "map_code_and_stack E user_root pm1 h1 = Some z"
      "set_ring3_demo_roots user_root (current_root h) (snd (snd (snd z))) = Some h3"
      "write_bytes_to_phys E B lsr (fst z) ring3_mailbox_code h3 c2 = Some w"
      "enter_ring3 E lsr g ''ring3_mailbox: entering ring3 via iretq'' user_root (fst w) (snd w) = Some (f, h', c')"
    using d by (elim exE conjE) (auto simp: prod_eq_iff)
  obtain m1 where m1: "fst w = h3\<lparr>mem := m1\<rparr>" using write_bytes_mem [of E B lsr "fst z" ring3_mailbox_code h3 c2 "fst w" "snd w"] s(5) by auto
  obtain p where p: "h' = (fst w)\<lparr>vga_enabled := False, cr3 := p\<rparr>" using enter_ring3_ok(2) [OF s(6)] by blast
  have "roots_registered user_root (current_root h) h'" by (rule roots_entry [OF roots_mem [OF set_roots [OF s(4)] m1] p])
  then show ?thesis using new_state_root [OF assms(1) s(1,2)] enter_ring3_ok(1) [OF s(6)] by blast
qed

text \<open>The mailbox loop enters on task 1's own page table, with the same frame, and a code page that is writable only in the
  debugging variant.\<close>

lemma ring3_loop_entry:
  assumes "run_ring3_mailbox_loop_demo skip_rx E B lsr g s c = Some (f, s', c')"
  shows "\<exists>user_root code_phys code_frame pm1. root_page_frame (address_spaces s' ! 1) = Some user_root
    \<and> expect_frame E (phys_mem s) = Some (code_phys, code_frame, pm1) \<and> ring3_entry_ok user_root f (hw s')
    \<and> roots_registered user_root (current_root (hw s)) (hw s') \<and> (skip_rx \<or> mapped_rx E user_root code_frame (hw s'))
    \<and> (\<exists>pm h'. s' = (prepare_ring3_loop_current_task s)\<lparr>phys_mem := pm, hw := h'\<rparr>)"
proof -
  let ?ks = "prepare_ring3_loop_current_task s"
  have k: "hw ?ks = hw s" "phys_mem ?ks = phys_mem s"
    by (simp_all add: prepare_ring3_loop_current_task_def remove_from_ready_queue_def upd_task_def Let_def split: prod.split)
  note d = assms [unfolded run_ring3_mailbox_loop_demo_def Let_def k bind_eq_Some_conv case_prod_beta]
  obtain aspace user_root z h2 code w y x c6 c8 where s: "nth_chk (address_spaces ?ks) 1 = Some aspace" "root_page_frame aspace = Some user_root"
      "map_code_and_stack E user_root (phys_mem s) (hw s) = Some z"
      "set_ring3_demo_roots user_root (current_root (hw s)) (snd (snd (snd z))) = Some h2"
      "write_bytes_to_phys E B lsr (fst z) code h2 c6 = Some w"
      "drop_writable skip_rx E lsr (vga_enabled (hw s)) user_root (fst (snd z)) (fst (snd (snd z))) (fst w) c8 = Some y"
      "enter_ring3 E lsr g ''ring3_mailbox_loop: entering ring3 via iretq'' user_root (fst (snd y)) (snd (snd y)) = Some x"
      "f = fst x" "s' = ?ks\<lparr>phys_mem := fst y, hw := fst (snd x)\<rparr>"
    using d unfolding option.inject prod.inject by (elim exE conjE) (rule that; (assumption | erule sym))
  obtain m1 where m1: "fst w = h2\<lparr>mem := m1\<rparr>" using write_bytes_mem [of E B lsr "fst z" code h2 c6 "fst w" "snd w"] s(5) by auto
  have "(\<exists>m2. fst (snd y) = (fst w)\<lparr>mem := m2\<rparr>) \<and> (skip_rx \<or> mapped_rx E user_root (fst (snd z)) (fst (snd y)))"
  proof (cases skip_rx)
    case True
    then have "fst (snd y) = (fst w)\<lparr>mem := mem (fst w)\<rparr>" using s(6) by (auto simp: drop_writable_def split: bind_splits)
    then show ?thesis using True by blast
  next
    case False
    then obtain q where q: "remap_code_rx E user_root (fst (snd z)) (fst (snd (snd z))) (fst w) = Some (fst q, snd q)" "fst (snd y) = snd q"
      using s(6) by (auto simp: drop_writable_def split: bind_splits)
    then show ?thesis using remap_mapped [OF q(1)] by simp
  qed
  then obtain m2 where m2: "fst (snd y) = (fst w)\<lparr>mem := m2\<rparr>" "skip_rx \<or> mapped_rx E user_root (fst (snd z)) (fst (snd y))" by blast
  obtain pm1 where ef: "expect_frame E (phys_mem s) = Some (fst z, fst (snd z), pm1)"
    using map_code_and_stack_frame [of E user_root "phys_mem s" "hw s" "fst z" "fst (snd z)" "fst (snd (snd z))" "snd (snd (snd z))"] s(3) by auto
  have e: "enter_ring3 E lsr g ''ring3_mailbox_loop: entering ring3 via iretq'' user_root (fst (snd y)) (snd (snd y)) = Some (f, hw s', snd (snd x))"
    using s(7-9) by simp
  obtain p where p: "hw s' = (fst (snd y))\<lparr>vga_enabled := False, cr3 := p\<rparr>" using enter_ring3_ok(2) [OF e] by blast
  have "roots_registered user_root (current_root (hw s)) (hw s')"
    by (rule roots_entry [OF roots_mem [OF roots_mem [OF set_roots [OF s(4)] m1] m2(1)] p])
  moreover have "root_page_frame (address_spaces s' ! 1) = Some user_root" using s(1,2,9) by (auto simp: nth_chk_def split: if_splits)
  moreover have "skip_rx \<or> mapped_rx E user_root (fst (snd z)) (hw s')" using mapped_rx_entry [OF _ p] m2(2) by blast
  ultimately show ?thesis using enter_ring3_ok(1) [OF e] s(9) ef by blast
qed
section \<open>The copy into the code page\<close>

text \<open>What the copy relies on of the physical memory map under the CR3 \<open>c\<close>: while the memory stays in \<open>M\<close>, the addresses \<open>W\<close> are
  mapped writable to different bytes.\<close>

definition phys_window :: "'m ByteMem \<Rightarrow> u64 \<Rightarrow> u64 set \<Rightarrow> 'm set \<Rightarrow> bool" where
  "phys_window B c W M \<longleftrightarrow> (\<forall>m \<in> M. \<forall>a \<in> W. \<forall>b. \<exists>m' \<in> M. st8 B c a b m = Some m' \<and> ld8 B c a m' = Some b
     \<and> (\<forall>a' \<in> W. a' \<noteq> a \<longrightarrow> ld8 B c a' m' = ld8 B c a' m))"

lemma offset_inject: "(base :: u64) + of_nat i = base + of_nat j \<longleftrightarrow> i = j" if "i < 2 ^ 64" "j < 2 ^ 64"
  using that by (simp add: word_of_nat_eq_iff take_bit_nat_eq_self)

lemma window_fold:
  assumes "phys_window B c W M" "m \<in> M" "\<And>i. n \<le> i \<Longrightarrow> i < n + length bs \<Longrightarrow> base + of_nat i \<in> W" "n + length bs \<le> 2 ^ 64"
  shows "\<exists>m' \<in> M. foldM (\<lambda>(i, b) m. st8 B c (base + of_nat i) b m) (enumerate n bs) m = Some m'
    \<and> (\<forall>i < length bs. ld8 B c (base + of_nat (n + i)) m' = Some (bs ! i))
    \<and> (\<forall>i < n. base + of_nat i \<in> W \<longrightarrow> ld8 B c (base + of_nat i) m' = ld8 B c (base + of_nat i) m)"
  using assms(2-)
proof (induction bs arbitrary: n m)
  case (Cons b bs)
  let ?a = "base + of_nat n"
  have aW: "?a \<in> W" using Cons.prems(2) by simp
  obtain m1 where m1: "m1 \<in> M" "st8 B c ?a b m = Some m1" "ld8 B c ?a m1 = Some b" "\<And>a'. a' \<in> W \<Longrightarrow> a' \<noteq> ?a \<Longrightarrow> ld8 B c a' m1 = ld8 B c a' m"
    using assms(1) Cons.prems(1) aW unfolding phys_window_def by meson
  obtain m' where m': "m' \<in> M" "foldM (\<lambda>(i, b) m. st8 B c (base + of_nat i) b m) (enumerate (Suc n) bs) m1 = Some m'"
      "\<And>i. i < length bs \<Longrightarrow> ld8 B c (base + of_nat (Suc n + i)) m' = Some (bs ! i)"
      "\<And>i. i < Suc n \<Longrightarrow> base + of_nat i \<in> W \<Longrightarrow> ld8 B c (base + of_nat i) m' = ld8 B c (base + of_nat i) m1"
    using Cons.IH [of m1 "Suc n"] m1(1) Cons.prems by force
  have "ld8 B c (base + of_nat (n + i)) m' = Some ((b # bs) ! i)" if "i < length (b # bs)" for i
    using that m'(3) [of "i - 1"] m'(4) [of n] m1(3) aW by (cases i) auto
  moreover have "ld8 B c (base + of_nat i) m' = ld8 B c (base + of_nat i) m" if "i < n" "base + of_nat i \<in> W" for i
    using that m'(4) [of i] m1(4) [of "base + of_nat i"] offset_inject [of i n base] Cons.prems(3) by auto
  ultimately show ?case using m'(1,2) m1(2) by (auto intro!: bexI [of _ m'])
qed auto

lemma write_bytes_spec:
  assumes "base = PHYSICAL_MEMORY_OFFSET h + phys" "phys_window B (cr3 h) ((\<lambda>i. base + of_nat i) ` {..<length bs}) M" "mem h \<in> M"
    "bs \<noteq> []" "length bs \<le> 4096" "debug_physmap_can_access_phys E phys h = Some True"
  shows "\<exists>m' c'. write_bytes_to_phys E B lsr phys bs h c = Some (h\<lparr>mem := m'\<rparr>, c') \<and> m' \<in> M
    \<and> (\<forall>i < length bs. ld8 B (cr3 h) (base + of_nat i) m' = Some (bs ! i))"
proof -
  obtain m' where m': "m' \<in> M" "foldM (\<lambda>(i, b) m. st8 B (cr3 h) (base + of_nat i) b m) (enumerate 0 bs) (mem h) = Some m'"
      "\<And>i. i < length bs \<Longrightarrow> ld8 B (cr3 h) (base + of_nat i) m' = Some (bs ! i)"
    using window_fold [OF assms(2,3), of 0 bs base] assms(5) by auto
  have l: "ld8 B (cr3 h) base m' = Some (bs ! 0)" using m'(3) [of 0] assms(4) by simp
  have "chk_add (PHYSICAL_MEMORY_OFFSET h) phys = Some base"
    using assms(1,6) by (auto simp: debug_physmap_can_access_phys_def chk_add_def split: if_splits bind_splits)
  then have "\<exists>c'. write_bytes_to_phys E B lsr phys bs h c = Some (h\<lparr>mem := m'\<rparr>, c')"
    using assms(6) m'(2) l by (simp add: write_bytes_to_phys_def Let_def)
  then show ?thesis using m'(1,3) by blast
qed

text \<open>C27: copying the program into its frame returns when the physical memory map covers it, and then every byte of the program
  reads back from the frame; nothing but the memory has changed.\<close>

theorem code_copy_reads_back:
  assumes "base = PHYSICAL_MEMORY_OFFSET h + phys" "phys_window B (cr3 h) ((\<lambda>i. base + of_nat i) ` {..<length bs}) M" "mem h \<in> M"
    "bs \<noteq> []" "length bs \<le> 4096" "debug_physmap_can_access_phys E phys h = Some True"
  shows "\<exists>m' c'. write_bytes_to_phys E B lsr phys bs h c = Some (h\<lparr>mem := m'\<rparr>, c') \<and> m' \<in> M
    \<and> map (\<lambda>i. ld8 B (cr3 h) (base + of_nat i) m') [0..<length bs] = map Some bs"
proof -
  obtain m' c' where "write_bytes_to_phys E B lsr phys bs h c = Some (h\<lparr>mem := m'\<rparr>, c')" "m' \<in> M"
      "\<And>i. i < length bs \<Longrightarrow> ld8 B (cr3 h) (base + of_nat i) m' = Some (bs ! i)"
    using write_bytes_spec [OF assms, of lsr c] by blast
  moreover from this(3) have "map (\<lambda>i. ld8 B (cr3 h) (base + of_nat i) m') [0..<length bs] = map Some bs"
    by (intro nth_equalityI) simp_all
  ultimately show ?thesis by blast
qed

section \<open>The jump to the high alias\<close>

text \<open>Rounding down to 16 bytes stays in the slot.\<close>

lemma align_in_slot: "n div 16 * 16 mod 2 ^ 39 = n mod 2 ^ 39 div 16 * 16" "n div 16 * 16 div 2 ^ 39 = n div 2 ^ 39" for n :: nat
proof -
  have k: "(2 :: nat) ^ 39 = 16 * 2 ^ 35" by simp
  have "n mod 2 ^ 39 div 16 = n div 16 mod 2 ^ 35" unfolding k mod_mult2_eq by simp
  moreover have "n div 16 * 16 mod 2 ^ 39 = (n div 16 mod 2 ^ 35) * 16" unfolding k by (simp only: mult.commute [of 16 "2 ^ 35"] mult_mod_left)
  ultimately show "n div 16 * 16 mod 2 ^ 39 = n mod 2 ^ 39 div 16 * 16" by (simp only:)
  show "n div 16 * 16 div 2 ^ 39 = n div 2 ^ 39" unfolding k div_mult2_eq by simp
qed

text \<open>C29: the kernel's jump to its high alias succeeds whenever entry, stack and frame pointer lie in the four low slots that are
  aliased.  Each of the three is loaded with its alias, 508 slots above its own and at the same offset in the slot;
  only the stack pointer's offset is rounded down to a multiple of 16.\<close>

theorem high_alias_entry:
  assumes "pml4_index low_entry < 4" "pml4_index rsp_low < 4" "pml4_index rbp_low < 4"
  shows "\<exists>e. enter_kernel_high_alias low_entry boot_info rsp_low rbp_low = Some e \<and> he_rdi e = boot_info
    \<and> high_mapped (he_target e) \<and> high_mapped (he_rbp e) \<and> KERNEL_SPACE_START \<le> he_rsp e
    \<and> pml4_index (he_target e) = 508 + pml4_index low_entry \<and> unat (he_target e) mod 2 ^ 39 = unat low_entry mod 2 ^ 39
    \<and> pml4_index (he_rbp e) = 508 + pml4_index rbp_low \<and> unat (he_rbp e) mod 2 ^ 39 = unat rbp_low mod 2 ^ 39
    \<and> pml4_index (he_rsp e) = 508 + pml4_index rsp_low \<and> unat (he_rsp e) mod 2 ^ 39 = unat rsp_low mod 2 ^ 39 div 16 * 16
    \<and> unat (he_rsp e) mod 16 = 0"
proof -
  obtain t r b where a: "kernel_high_alias_of_low low_entry = Some t" "kernel_high_alias_of_low rsp_low = Some r" "kernel_high_alias_of_low rbp_low = Some b"
    using kernel_high_alias_of_low_Some assms by meson
  have r: "unat (r AND NOT 0xF) = unat r div 16 * 16" using unat_align_down_16 [of r] by (simp add: align_down_16_def)
  have "(0xffff800000000000 :: nat) div 16 \<le> unat r div 16"
    using kernel_high_alias_of_low_index(4) [OF a(2)] by (intro div_le_mono) (simp add: KERNEL_SPACE_START_def word_le_nat_alt)
  then have k: "KERNEL_SPACE_START \<le> r AND NOT 0xF" using r by (simp add: KERNEL_SPACE_START_def word_le_nat_alt)
  note al = align_in_slot [of "unat r"]
  have "unat (r AND NOT 0xF) mod 2 ^ 39 = unat rsp_low mod 2 ^ 39 div 16 * 16" "pml4_index (r AND NOT 0xF) = pml4_index r"
    using r al kernel_high_alias_of_low_index(3) [OF a(2)] by (simp_all only: pml4_index_alt)
  then show ?thesis
    using a r k high_alias_mapped [OF a(1)] high_alias_mapped [OF a(3)] kernel_high_alias_of_low_index(2,3) [OF a(1)]
      kernel_high_alias_of_low_index(2) [OF a(2)] kernel_high_alias_of_low_index(2,3) [OF a(3)]
    by (simp add: enter_kernel_high_alias_def)
qed

theorem high_alias_entry_witness:
  "\<exists>e. enter_kernel_high_alias 0x200000 0x9000 0x8000012348 0x8000012350 = Some e \<and> pml4_index (he_target e) = 508
    \<and> pml4_index (he_rsp e) = 509 \<and> unat (he_rsp e) mod 2 ^ 39 = 0x12340 \<and> unat (he_rsp e) mod 16 = 0"
  using high_alias_entry [of "0x200000" "0x8000012348" "0x8000012350" "0x9000"] by (auto simp: pml4_index_alt)

end
