(* ===== verification/Ring3_Run.thy ===== *)
theory Ring3_Run
  imports Example_Machine Ring3
begin

text \<open>
  The kernel invariant at the entry to the mailbox loop, and the example machine's runs of the ring 3
  demos: a memory of bytes beside its page tables, a serial device that is always ready and the
  descriptor tables of \<open>Descriptors\<close>.
\<close>

section \<open>Handing the CPU to task 1\<close>

lemma remove_ready_commute:
  "snd (remove_from_ready_queue i (upd_task j f s)) = upd_task j f (snd (remove_from_ready_queue i s))"
  "snd (remove_from_ready_queue i (s\<lparr>current_task := k\<rparr>)) = (snd (remove_from_ready_queue i s))\<lparr>current_task := k\<rparr>"
  by (simp_all add: remove_from_ready_queue_def upd_task_def Let_def split: prod.split)

lemma prepare_kinv:
  assumes "kinv s" "current_task s = 0" "t_state (tk s 1) = Ready"
  shows "kinv (prepare_ring3_loop_current_task s)" "current_task (prepare_ring3_loop_current_task s) = 1"
proof -
  note k = kinvD [OF assms(1)]
  note n = coreD(1,2) [OF k(1)]
  let ?s1 = "upd_task 0 demoted s"
  let ?s2 = "snd (remove_from_ready_queue 1 ?s1)"
  let ?t = "(upd_task 1 start_running ?s2)\<lparr>current_task := 1\<rparr>"
  have run: "t_state (tk s 0) = Running" using k(5) assms(2) by simp
  have d: "demoted = (\<lambda>t. t\<lparr>t_state := Ready, time_slice_used := 0, blocked_reason := None\<rparr>)"
    by (rule ext, rule Task.equality) (simp_all add: demoted_def)
  have r: "start_running = (\<lambda>t. t\<lparr>t_state := Running, time_slice_used := 0, blocked_reason := None\<rparr>)"
    by (rule ext) (simp add: start_running_def)
  have "prepare_ring3_loop_current_task s = snd (remove_from_ready_queue 1 (upd_task 1 start_running (?s1\<lparr>current_task := 1\<rparr>)))"
    using n run assms(3) unfolding d r by (simp add: prepare_ring3_loop_current_task_def TASK0_INDEX_def TASK1_INDEX_def)
  also have "\<dots> = ?t" unfolding remove_ready_commute by (rule KernelState.equality) (simp_all add: upd_task_def)
  finally have p: "prepare_ring3_loop_current_task s = ?t" .
  have c1: "core {} ?s1" using k(1) by (intro core_detach_idle_task) (simp_all add: demoted_def)
  have ok: "length (ready_queue ?s1) = 3" "rq_len ?s1 \<le> 3" using coreD(8) [OF c1] by (simp_all add: rq_ok_def)
  obtain q m where q: "?s2 = ?s1\<lparr>ready_queue := q, rq_len := m\<rparr>" "length q = 3" "m \<le> rq_len ?s1" "take m q = filter (\<lambda>v. v \<noteq> 1) (rdy ?s1)"
    using remove_from_ready_queue_eq [of ?s1 1] ok by auto
  have r1: "1 \<in> ready_set {} ?s1" using n assms(3) by (simp add: ready_set_def)
  have rd: "distinct (rdy ?s1)" "set (rdy ?s1) = ready_set {} ?s1" using coreD(8) [OF c1] by (simp_all only: rq_ok_def)
  have c2: "core {1} ?s2"
    unfolding q(1) by (rule core_detach_ready [OF c1 r1 q(2)]) (use q(3,4) ok(2) rd in \<open>auto simp: set_filter\<close>)
  have t2: "tasks ?s2 = tasks ?s1" by simp
  have "task_ok 1 (tk ?s1 1)" using coreD(7) [OF c1, of 1] by simp
  then have c3: "core {} ?t" using core_start [OF c2] assms(3) n by (simp add: t2)
  have "ainv {} ?s1" using k(2) n run by (intro ainv_upd_task) (simp_all add: demoted_def)
  then have "ainv {} ?t" using n by (simp, intro ainv_upd_task) (simp_all add: start_running_def)
  moreover have "at_most_current ?t" using k(3) assms(2) n by (auto simp: at_most_current_def demoted_def start_running_def)
  moreover have "t_state (tk ?t 1) = Running" using n by (simp add: start_running_def)
  moreover show "current_task (prepare_ring3_loop_current_task s) = 1" unfolding p by simp
  ultimately show "kinv (prepare_ring3_loop_current_task s)" using c3 unfolding p by (intro kinvI) simp_all
qed

lemma bootstrap_loop_keeps:
  "bootstrap_loop E n s = Some s' \<Longrightarrow> tasks s' = tasks s \<and> current_task s' = current_task s"
proof (induction n arbitrary: s)
  case (Suc n)
  then show ?case by (auto split: bind_splits prod.splits option.splits)
qed simp

text \<open>C22: when the mailbox loop enters ring 3 after the boot, the kernel invariant holds with task 1 as the one running task, and ring 3
  runs at the user code page on task 1's own page table, with the roots registered for the system calls.  Unless the debugging
  feature asks to skip it, the last change of memory was to take the code page out of that page table and map it there again,
  to the code frame (the first frame the loop allocated), present and user accessible but not writable.\<close>

theorem ring3_loop_start:
  assumes "booted E s0" "bootstrap E s0 = Some s1" "run_ring3_mailbox_loop_demo skip_rx E B lsr g s1 c = Some (f, s', c')"
  shows "kinv s' \<and> current_task s' = 1 \<and> (\<exists>user_root code_phys code_frame pm1. root_page_frame (address_spaces s' ! 1) = Some user_root
    \<and> expect_frame E (phys_mem s1) = Some (code_phys, code_frame, pm1) \<and> ring3_entry_ok user_root f (hw s')
    \<and> roots_registered user_root (current_root (hw s1)) (hw s') \<and> (skip_rx \<or> mapped_rx E user_root code_frame (hw s')))"
proof -
  have "kinv s0" using kernel_sys.init_inv [OF assms(1)] by blast
  then have k: "kinv s1" using post_safeD [OF bootstrap_loop_kinv] assms(2) by (auto simp: bootstrap_def)
  obtain bm h where "KernelState_new E bm h = Some s0" using assms(1) by (auto simp: booted_def)
  from new_state_fields(2,4) [OF this] have "current_task s1 = 0" "t_state (tk s1 1) = Ready"
    using bootstrap_loop_keeps [of E 5 s0 s1] assms(2) by (simp_all add: bootstrap_def new_task_def)
  note p = prepare_kinv [OF k this]
  obtain user_root code_phys code_frame pm1 pm h' where u: "root_page_frame (address_spaces s' ! 1) = Some user_root" "ring3_entry_ok user_root f (hw s')"
      "roots_registered user_root (current_root (hw s1)) (hw s')"
      "expect_frame E (phys_mem s1) = Some (code_phys, code_frame, pm1)" "skip_rx \<or> mapped_rx E user_root code_frame (hw s')"
      "s' = (prepare_ring3_loop_current_task s1)\<lparr>phys_mem := pm, hw := h'\<rparr>"
    using ring3_loop_entry [OF assms(3)] by blast
  have "kinv ((prepare_ring3_loop_current_task s1)\<lparr>phys_mem := pm, hw := h'\<rparr>)" using kinvD [OF p(1)] by (intro kinvI) simp_all
  then have "kinv s'" using u(6) by simp
  moreover have "current_task s' = 1" using u(6) p(2) by simp
  ultimately show ?thesis using u(1-5) by blast
qed
section \<open>A run on the example machine\<close>

definition toyB :: "toy_mem ByteMem" where
  "toyB = \<lparr>st8 = (\<lambda>c a b m. Some (((c, a), ucast b) # m)), ld8 = (\<lambda>c a m. map_option ucast (map_of m (c, a)))\<rparr>"

definition ready :: lsr where "ready = (\<lambda>_. 0x20)"

definition toyG :: "unit GdtState" where
  "toyG = \<lparr>INIT_DONE = True, GDT = None, TSS = None,
     SELECTORS = Some \<lparr>sel_code = 8, sel_data = 16, sel_tss = 40, sel_user_code = 24, sel_user_data = 32\<rparr>,
     gdtr = 0, cs = 8, ds = 16, es = 16, ss = 16, tr = 40\<rparr>"

lemma ready_again: "eventually_ready ready"
  by (simp add: eventually_ready_def ready_def)

lemma log_info_ready: "\<exists>c'. log_info en ready msg c = Some c'"
  using post_strictD [OF serial_post_prefixed [of ready "bytes ''[INFO] ''" "bytes msg" "vga_write_prefixed_line en (bytes ''[INFO] '') (bytes msg) c",
      unfolded serial_post_def eqTrueI [OF ready_again]]] by (auto simp: log_info_def)

lemma log_info_u64_ready: "key \<noteq> [] \<Longrightarrow> \<exists>c'. log_info_u64 en ready key v c = Some c'"
  using log_info_kv_spec [OF ready_again, of key en v c] by (auto simp: log_info_u64_def)

lemma toy_user_base: "USER_SPACE_BASE = 0x100000000000"
  by (simp add: USER_SPACE_BASE_def USER_PML4_INDEX_def pml4_index_base_addr_def canonicalize_virt_def)

lemma toy_mapper: "PHYSICAL_MEMORY_OFFSET h = 0 \<Longrightarrow> mapper_for toyE (Some (PhysFrame 256)) h = Some \<lparr>l4_table = 0x100000, phys_offset = 0\<rparr>"
  by (simp add: mapper_for_def init_offset_page_table_for_root_def frame_start_address_def chk_mul_def PAGE_SIZE_def PhysAddr_new_def VirtAddr_new_def
      phys_to_virt_def chk_add_def)

lemma toy_pt [simp]:
  "pt_map_to toyE t v p fl al m fa = (if map_of m (l4_table t, v) = None then Some (Inr (), ((l4_table t, v), p) # m, fa)
      else Some (Inl (PageAlreadyMapped p), m, fa))"
  "pt_unmap toyE t v m = (if map_of m (l4_table t, v) = None then (Inl PageNotMapped, m) else (Inr (), filter (\<lambda>x. fst x \<noteq> (l4_table t, v)) m))"
  "X_WRITABLE toyE = 2" "X_NO_EXECUTE toyE = 0x8000000000000000"
  by (simp_all add: toyE_def)

lemma toy_map:
  assumes "PHYSICAL_MEMORY_OFFSET h = 0" "p \<in> {0x120, 0x121}" "n < 0x1000" "fl \<in> {RW_USER, RX_USER}"
    "map_of (mem h) (0x100000, 0x100000000000 + p * 4096) = None"
  shows "expect_action toyE (Map (VirtPage p) (PhysFrame n) fl) (PhysFrame 256) pm h
    = Some (pm, h\<lparr>mem := ((0x100000, 0x100000000000 + p * 4096), n * 4096) # mem h\<rparr>)"
proof -
  have 1: "page_start_address (VirtPage p) = Some (VirtAddr (p * 4096))"
    using assms(2) by (auto simp: page_start_address_def chk_mul_def PAGE_SIZE_def)
  have 2: "frame_start_address (PhysFrame n) = Some (PhysAddr (n * 4096))"
    using assms(3) by (simp add: frame_start_address_def chk_mul_def PAGE_SIZE_def word_less_nat_alt)
  have 3: "x_contains (to_x86_flags toyE fl) 4"
    using assms(4) by (auto simp: to_x86_flags_def RW_USER_def RX_USER_def flags_contain_def PRESENT_def WRITABLE_def USER_def NO_EXEC_def x_contains_def)
  have 4: "chk_add USER_SPACE_BASE (p * 4096) = Some (0x100000000000 + p * 4096)"
    using assms(2) by (auto simp: chk_add_def toy_user_base)
  have 5: "enforce_user_mapping_policy toyE (0x100000000000 + p * 4096) (to_x86_flags toyE fl) = Some ()"
    using assms(2) 3
    by (auto simp: enforce_user_mapping_policy_def is_user_space_addr_u64_def USER_SPACE_SIZE_def PML4_SLOT_SIZE_def toy_user_base Let_def)
  show ?thesis using assms(5)
    by (simp add: expect_action_def apply_mem_action_in_root_def toy_mapper [OF assms(1)] 1 2 3 4 5 VirtAddr_new_def PhysAddr_new_def Let_def)
qed

lemma toy_unmap:
  assumes "PHYSICAL_MEMORY_OFFSET h = 0" "map_of (mem h) (0x100000, 0x100000120000) \<noteq> None"
  shows "expect_action toyE (Unmap user_code_page) (PhysFrame 256) pm h
    = Some (pm, h\<lparr>mem := filter (\<lambda>x. fst x \<noteq> (0x100000, 0x100000120000)) (mem h)\<rparr>)"
  using assms
  by (auto simp: expect_action_def apply_mem_action_in_root_def toy_mapper page_start_address_def chk_mul_def PAGE_SIZE_def user_code_page_def
      chk_add_def toy_user_base VirtAddr_new_def)
lemma toy_frames:
  "expect_frame toyE (toyFA 0x101000) = Some (0x101000, PhysFrame 257, toyFA 0x102000)"
  "expect_frame toyE (toyFA 0x102000) = Some (0x102000, PhysFrame 258, toyFA 0x103000)"
  "expect_frame toyE (toyFA 0x107000) = Some (0x107000, PhysFrame 263, toyFA 0x108000)"
  "expect_frame toyE (toyFA 0x108000) = Some (0x108000, PhysFrame 264, toyFA 0x109000)"
  by (simp_all add: expect_frame_def allocate_frame.simps toyFA_def chk_add_def frame_start_address_def chk_mul_def PAGE_SIZE_def toyE_def)

definition toy_mapped :: "u64 \<Rightarrow> u64 \<Rightarrow> toy_mem Machine" where
  "toy_mapped c d = toyH\<lparr>mem := [((0x100000, 0x100000121000), d), ((0x100000, 0x100000120000), c)]\<rparr>"

lemma toy_code_stack:
  "map_code_and_stack toyE (PhysFrame 256) (toyFA 0x101000) toyH = Some (0x101000, PhysFrame 257, toyFA 0x103000, toy_mapped 0x101000 0x102000)"
  "map_code_and_stack toyE (PhysFrame 256) (toyFA 0x107000) toyH = Some (0x107000, PhysFrame 263, toyFA 0x109000, toy_mapped 0x107000 0x108000)"
proof -
  have 1: "expect_action toyE (Map user_code_page (PhysFrame n) RW_USER) (PhysFrame 256) pm toyH
      = Some (pm, toyH\<lparr>mem := [((0x100000, 0x100000120000), n * 4096)]\<rparr>)" if "n < 0x1000" for n pm
    using toy_map [of toyH "0x120" n RW_USER pm] that by (simp add: toyH_def user_code_page_def)
  have 2: "expect_action toyE (Map user_stack_page (PhysFrame n) RW_USER) (PhysFrame 256) pm (toyH\<lparr>mem := [((0x100000, 0x100000120000), c)]\<rparr>)
      = Some (pm, toy_mapped c (n * 4096))" if "n < 0x1000" for n c pm
    using toy_map [of "toyH\<lparr>mem := [((0x100000, 0x100000120000), c)]\<rparr>" "0x121" n RW_USER pm] that
    by (simp add: toyH_def user_stack_page_def toy_mapped_def)
  show "map_code_and_stack toyE (PhysFrame 256) (toyFA 0x101000) toyH = Some (0x101000, PhysFrame 257, toyFA 0x103000, toy_mapped 0x101000 0x102000)"
    by (simp add: map_code_and_stack_def toy_frames 1 2)
  show "map_code_and_stack toyE (PhysFrame 256) (toyFA 0x107000) toyH = Some (0x107000, PhysFrame 263, toyFA 0x109000, toy_mapped 0x107000 0x108000)"
    by (simp add: map_code_and_stack_def toy_frames 1 2)
qed

definition toy_rooted :: "u64 \<Rightarrow> u64 \<Rightarrow> toy_mem Machine" where
  "toy_rooted c d = (toy_mapped c d)\<lparr>RING3_DEMO_USER_ROOT_PHYS := 0x100000, RING3_DEMO_KERNEL_ROOT_PHYS := 0x1000\<rparr>"

lemma toy_set_roots: "set_ring3_demo_roots (PhysFrame 256) (current_root toyH) (toy_mapped c d) = Some (toy_rooted c d)"
  by (simp add: set_ring3_demo_roots_def current_root_def frame_start_address_def chk_mul_def PAGE_SIZE_def toyH_def toy_rooted_def)

text \<open>Writing bytes below CR3 0x1000 keeps the entries of the user table.\<close>

lemma byte_through_word: "ucast (ucast (b :: u8) :: u64) = b"
  by (rule bit_word_eqI) (simp add: bit_simps)

lemma toy_window:
  "phys_window toyB 0x1000 W {m. map_of m (0x100000, 0x100000120000) \<noteq> None}"
  by (auto simp: phys_window_def toyB_def byte_through_word)

lemma toy_write:
  assumes "bs \<noteq> []" "length bs \<le> 4096" "h = toy_rooted a d" "a \<in> {0x101000, 0x107000}"
  shows "\<exists>m c'. write_bytes_to_phys toyE toyB lsr a bs h c = Some (h\<lparr>mem := m\<rparr>, c') \<and> map_of m (0x100000, 0x100000120000) \<noteq> None"
proof -
  have "debug_physmap_can_access_phys toyE a h = Some True" using assms(4)
    by (auto simp: debug_physmap_can_access_phys_def init_offset_page_table_def active_level_4_table_def phys_to_virt_def chk_add_def VirtAddr_new_def
        assms(3) toy_rooted_def toy_mapped_def toyH_def)
  moreover have "cr3 h = 0x1000" "mem h \<in> {m. map_of m (0x100000, 0x100000120000) \<noteq> None}"
    by (simp_all add: assms(3) toy_rooted_def toy_mapped_def toyH_def)
  ultimately show ?thesis using write_bytes_spec [OF refl _ _ assms(1,2), of toyB h a _ toyE lsr c] toy_window by force
qed

lemma toy_remap:
  assumes "PHYSICAL_MEMORY_OFFSET h = 0" "map_of (mem h) (0x100000, 0x100000120000) \<noteq> None"
    "n < 0x1000"
  shows "\<exists>m. remap_code_rx toyE (PhysFrame 256) (PhysFrame n) pm h = Some (pm, h\<lparr>mem := m\<rparr>)"
proof -
  let ?h = "h\<lparr>mem := filter (\<lambda>x. fst x \<noteq> (0x100000, 0x100000120000)) (mem h)\<rparr>"
  have "map_of (mem ?h) (0x100000, 0x100000120000) = None" by (auto simp: map_of_eq_None_iff)
  then show ?thesis
    using toy_map [of ?h "0x120" n RX_USER pm] assms(1,3) unfolding remap_code_rx_def toy_unmap [OF assms(1,2)] by (simp add: user_code_page_def) (rule exI, rule refl)
qed

lemma toy_enter:
  assumes "msg \<noteq> []"
  shows "\<exists>f h' c'. enter_ring3 toyE ready toyG msg (PhysFrame 256) h c = Some (f, h', c')"
proof -
  let ?en = "vga_enabled h"
  obtain c1 where c1: "log_info ?en ready msg c = Some c1" using log_info_ready by blast
  obtain c2 where c2: "log_info_u64 ?en ready ''user_rip'' 0x100000120000 c1 = Some c2" using log_info_u64_ready [of "''user_rip''"] by blast
  obtain c3 where c3: "log_info_u64 ?en ready ''user_rsp'' 0x100000122000 c2 = Some c3" using log_info_u64_ready [of "''user_rsp''"] by blast
  show ?thesis using c1 c2 c3
    by (simp add: enter_ring3_def user_code_page_def user_stack_page_def page_start_address_def chk_mul_def PAGE_SIZE_def chk_add_def toy_user_base
        user_code_selector_def user_data_selector_def toyG_def switch_address_space_quiet_def frame_start_address_def PhysAddr_new_def Let_def)
qed

lemma toy_ring3_demo: "\<exists>f h' c'. run_ring3_demo toyE toyB ready toyG toyMap toyH c = Some (f, h', c')"
proof -
  obtain c1 where c1: "log_info (vga_enabled toyH) ready ''ring3_demo: start'' c = Some c1" using log_info_ready by blast
  have "ring3_demo_code \<noteq> []" "length ring3_demo_code \<le> 4096" by (simp_all add: ring3_demo_code_def)
  from toy_write [OF this refl, of "0x101000" ready "0x102000" c1] obtain m c2 where w: "write_bytes_to_phys toyE toyB ready 0x101000 ring3_demo_code (toy_rooted 0x101000 0x102000) c1
      = Some ((toy_rooted 0x101000 0x102000)\<lparr>mem := m\<rparr>, c2)" "map_of m (0x100000, 0x100000120000) \<noteq> None" by auto
  obtain m2 where r: "remap_code_rx toyE (PhysFrame 256) (PhysFrame 257) (toyFA 0x103000) ((toy_rooted 0x101000 0x102000)\<lparr>mem := m\<rparr>) = Some (toyFA 0x103000, (toy_rooted 0x101000 0x102000)\<lparr>mem := m2\<rparr>)"
    using toy_remap [of "(toy_rooted 0x101000 0x102000)\<lparr>mem := m\<rparr>" 257 "toyFA 0x103000"] w(2) by (auto simp: toy_rooted_def toy_mapped_def toyH_def)
  obtain f h' c' where e: "enter_ring3 toyE ready toyG ''ring3_demo: entering ring3 via iretq'' (PhysFrame 256) ((toy_rooted 0x101000 0x102000)\<lparr>mem := m2\<rparr>) c2 = Some (f, h', c')"
    using toy_enter [of "''ring3_demo: entering ring3 via iretq''"] by blast
  have i: "init_user_pml4_from_current toyE (PhysFrame 256) toyH = Some toyH" by (rule toy_init_pml4) simp
  show ?thesis
    unfolding run_ring3_demo_def c1 toy_alloc i toy_code_stack toy_set_roots w(1) r e bind.bind_lunit prod.case Let_def by blast
qed

lemma toy_ring3_mailbox: "\<exists>f h' c'. run_ring3_mailbox_demo toyE toyB ready toyG toyMap toyH c = Some (f, h', c')"
proof -
  obtain c1 where c1: "log_info (vga_enabled toyH) ready ''ring3_mailbox: start'' c = Some c1" using log_info_ready by blast
  have "ring3_mailbox_code \<noteq> []" "length ring3_mailbox_code \<le> 4096" by (simp_all add: ring3_mailbox_code_def)
  from toy_write [OF this refl, of "0x101000" ready "0x102000" c1] obtain m c2 where w: "write_bytes_to_phys toyE toyB ready 0x101000 ring3_mailbox_code (toy_rooted 0x101000 0x102000) c1
      = Some ((toy_rooted 0x101000 0x102000)\<lparr>mem := m\<rparr>, c2)" by auto
  obtain f h' c' where e: "enter_ring3 toyE ready toyG ''ring3_mailbox: entering ring3 via iretq'' (PhysFrame 256) ((toy_rooted 0x101000 0x102000)\<lparr>mem := m\<rparr>) c2 = Some (f, h', c')"
    using toy_enter [of "''ring3_mailbox: entering ring3 via iretq''"] by blast
  have i: "init_user_pml4_from_current toyE (PhysFrame 256) toyH = Some toyH" by (rule toy_init_pml4) simp
  show ?thesis
    unfolding run_ring3_mailbox_demo_def c1 toy_alloc i toy_code_stack toy_set_roots w e bind.bind_lunit prod.case Let_def by blast
qed
lemma toy_bootstrap: "\<exists>s1. bootstrap toyE toy0 = Some s1 \<and> phys_mem s1 = toyFA 0x107000 \<and> hw s1 = toyH \<and> address_spaces s1 = address_spaces toy0"
proof -
  have a: "allocate_frame (phys_addr_ok toyE) (toyFA 0x102000) = Some (Some (PhysFrame 258), toyFA 0x103000)"
    "allocate_frame (phys_addr_ok toyE) (toyFA 0x103000) = Some (Some (PhysFrame 259), toyFA 0x104000)"
    "allocate_frame (phys_addr_ok toyE) (toyFA 0x104000) = Some (Some (PhysFrame 260), toyFA 0x105000)"
    "allocate_frame (phys_addr_ok toyE) (toyFA 0x105000) = Some (Some (PhysFrame 261), toyFA 0x106000)"
    "allocate_frame (phys_addr_ok toyE) (toyFA 0x106000) = Some (Some (PhysFrame 262), toyFA 0x107000)"
    by (simp_all add: allocate_frame.simps toyFA_def chk_add_def toyE_def PAGE_SIZE_def)
  have e: "phys_mem (push_event ev s) = phys_mem s" "hw (push_event ev s) = hw s" "address_spaces (push_event ev s) = address_spaces s" for ev s
    by (simp_all add: push_event_def Let_def)
  have "phys_mem toy0 = toyFA 0x102000" "hw toy0 = toyH" by (simp_all add: toy0_eq)
  moreover have five: "(5 :: nat) = Suc (Suc (Suc (Suc (Suc 0))))" by simp
  ultimately show ?thesis unfolding bootstrap_def five bootstrap_loop.simps by (simp add: a e)
qed

lemma toy_ring3_loop:
  assumes "phys_mem s = toyFA 0x107000" "hw s = toyH" "address_spaces s = address_spaces toy0"
  shows "\<exists>f s' c'. run_ring3_mailbox_loop_demo skip_rx toyE toyB ready toyG s c = Some (f, s', c')"
proof -
  let ?ks = "prepare_ring3_loop_current_task s"
  have f: "phys_mem ?ks = toyFA 0x107000" "hw ?ks = toyH" "address_spaces ?ks = address_spaces toy0"
    using assms by (simp_all add: prepare_ring3_loop_current_task_def remove_from_ready_queue_def upd_task_def Let_def split: prod.split)
  have u: "nth_chk (address_spaces toy0) 1 = Some (new_user\<lparr>root_page_frame := Some (PhysFrame 256)\<rparr>)"
    "root_page_frame (new_user\<lparr>root_page_frame := Some (PhysFrame 256)\<rparr>) = Some (PhysFrame 256)" by (simp_all add: nth_chk_def toy0_eq)
  let ?en = "vga_enabled toyH" and ?r = "toy_rooted 0x107000 0x108000"
  have fs: "frame_start_address (PhysFrame 256) = Some (PhysAddr 0x100000)" "frame_start_address (current_root toyH) = Some (PhysAddr 0x1000)"
    by (simp_all add: frame_start_address_def chk_mul_def PAGE_SIZE_def current_root_def toyH_def)
  obtain c1 where c1: "log_info ?en ready ''ring3_mailbox_loop: start'' c = Some c1" using log_info_ready by blast
  obtain c2 where c2: "log_info ?en ready ''ring3_mailbox_loop: mapped user code+stack OK'' c1 = Some c2" using log_info_ready by blast
  obtain c3 where c3: "log_info_u64 ?en ready ''ring3_mailbox_loop: user_root_phys'' 0x100000 c2 = Some c3"
    using log_info_u64_ready [of "''ring3_mailbox_loop: user_root_phys''"] by blast
  obtain c4 where c4: "log_info_u64 ?en ready ''ring3_mailbox_loop: kernel_root_phys'' 0x1000 c3 = Some c4"
    using log_info_u64_ready [of "''ring3_mailbox_loop: kernel_root_phys''"] by blast
  define c6 where "c6 = eprint_hex ready ''[E] code_phys='' 0x107000 (eprint ready (''[E] about to write bytes to phys'' @ nl)
      (eprint ready (''[E] after roots registered'' @ nl) c4))"
  obtain code where code: "ring3_loop_code = Some code" "code \<noteq> []" "length code \<le> 4096" using ring3_loop_code_eq loop_code_size by fastforce
  obtain m c7 where w: "write_bytes_to_phys toyE toyB ready 0x107000 code ?r c6 = Some (?r\<lparr>mem := m\<rparr>, c7)" "map_of m (0x100000, 0x100000120000) \<noteq> None"
    using toy_write [OF code(2,3) refl, of "0x107000" ready "0x108000" c6] by auto
  define c8 where "c8 = eprint ready (''[E] bytes written OK'' @ nl) c7"
  obtain m2 where r: "remap_code_rx toyE (PhysFrame 256) (PhysFrame 263) (toyFA 0x109000) (?r\<lparr>mem := m\<rparr>) = Some (toyFA 0x109000, ?r\<lparr>mem := m2\<rparr>)"
    using toy_remap [of "?r\<lparr>mem := m\<rparr>" 263 "toyFA 0x109000"] w(2) by (auto simp: toy_rooted_def toy_mapped_def toyH_def)
  obtain h4 c9 where d: "drop_writable skip_rx toyE ready ?en (PhysFrame 256) (PhysFrame 263) (toyFA 0x109000) (?r\<lparr>mem := m\<rparr>) c8 = Some (toyFA 0x109000, h4, c9)"
    using r log_info_ready [of ?en "''ring3_mailbox_loop: skip RX remap (debug)''" c8]
      log_info_ready [of ?en "''ring3_mailbox_loop: remap code to RX (drop WRITABLE)''" c8] by (cases skip_rx) (auto simp: drop_writable_def)
  obtain g h5 c10 where e: "enter_ring3 toyE ready toyG ''ring3_mailbox_loop: entering ring3 via iretq'' (PhysFrame 256) h4 c9 = Some (g, h5, c10)"
    using toy_enter [of "''ring3_mailbox_loop: entering ring3 via iretq''"] by blast
  show ?thesis
    unfolding run_ring3_mailbox_loop_demo_def f assms(2) u c1 c2 c3 c4 fs toy_code_stack(2) toy_set_roots code(1) PhysAddr.sel bind.bind_lunit prod.case Let_def
      c6_def [symmetric] w(1) bind.bind_lunit prod.case c8_def [symmetric] d e
    by blast
qed
section \<open>The theorems at the example machine\<close>

definition toyC :: Console where
  "toyC = \<lparr>WRITER = None, SERIAL_INITIALIZED = True, port_writes = [], lsr_reads = 0\<rparr>"

theorem code_copy_reads_back_witness:
  "\<exists>m' c'. write_bytes_to_phys toyE toyB ready 0x101000 [0xCD, 0x80] (toy_rooted 0x101000 0x102000) toyC
      = Some ((toy_rooted 0x101000 0x102000)\<lparr>mem := m'\<rparr>, c') \<and> ld8 toyB 0x1000 0x101001 m' = Some 0x80"
proof -
  let ?h = "toy_rooted 0x101000 0x102000"
  have h: "cr3 ?h = 0x1000" "PHYSICAL_MEMORY_OFFSET ?h = 0" "mem ?h \<in> {m. map_of m (0x100000, 0x100000120000) \<noteq> None}"
    by (simp_all add: toy_rooted_def toy_mapped_def toyH_def)
  have d: "debug_physmap_can_access_phys toyE 0x101000 ?h = Some True"
    by (simp add: debug_physmap_can_access_phys_def init_offset_page_table_def active_level_4_table_def phys_to_virt_def chk_add_def VirtAddr_new_def h)
  obtain m' c' where "write_bytes_to_phys toyE toyB ready 0x101000 [0xCD, 0x80] ?h toyC = Some (?h\<lparr>mem := m'\<rparr>, c')"
      "map (\<lambda>i. ld8 toyB (cr3 ?h) (PHYSICAL_MEMORY_OFFSET ?h + 0x101000 + of_nat i) m') [0..<length [0xCD :: u8, 0x80]] = map Some [0xCD, 0x80]"
    using code_copy_reads_back [OF refl _ h(3) _ _ d, of toyB "[0xCD, 0x80]" ready toyC] toy_window unfolding h(1) by auto
  then show ?thesis using h by (auto simp: upt_rec)
qed

lemma toy_code_frames:
  "expect_frame toyE (toyFA 0x101000) = Some (0x101000, PhysFrame 257, toyFA 0x102000)"
  "expect_frame toyE (toyFA 0x107000) = Some (0x107000, PhysFrame 263, toyFA 0x108000)"
  by (simp_all add: expect_frame_def allocate_frame.simps toyFA_def chk_add_def toyE_def PAGE_SIZE_def frame_start_address_def chk_mul_def)

theorem ring3_demo_entry_witness:
  "\<exists>f h' c'. run_ring3_demo toyE toyB ready toyG toyMap toyH toyC = Some (f, h', c') \<and> ring3_entry_ok (PhysFrame 256) f h'
    \<and> mapped_rx toyE (PhysFrame 256) (PhysFrame 257) h'"
proof -
  obtain f h' c' where r: "run_ring3_demo toyE toyB ready toyG toyMap toyH toyC = Some (f, h', c')" using toy_ring3_demo [of toyC] by blast
  from ring3_demo_entry [OF r] show ?thesis using r toy_alloc(1,2) toy_code_frames(1) by auto
qed

theorem ring3_mailbox_reuses_root_witness:
  "\<exists>f h' c'. run_ring3_mailbox_demo toyE toyB ready toyG toyMap toyH toyC = Some (f, h', c') \<and> ring3_entry_ok (PhysFrame 256) f h'
    \<and> root_page_frame (address_spaces toy0 ! 1) = Some (PhysFrame 256)"
proof -
  obtain f h' c' where r: "run_ring3_mailbox_demo toyE toyB ready toyG toyMap toyH toyC = Some (f, h', c')" using toy_ring3_mailbox by blast
  have "KernelState_new toyE toyMap toyH = Some toy0" by (simp add: toy_new toy0_eq)
  from ring3_mailbox_reuses_root [OF this r] show ?thesis using r by (simp add: toy0_eq)
qed

theorem ring3_loop_start_witness:
  "\<exists>s1 f s' c'. bootstrap toyE toy0 = Some s1 \<and> run_ring3_mailbox_loop_demo False toyE toyB ready toyG s1 toyC = Some (f, s', c')
    \<and> kinv s' \<and> current_task s' = 1 \<and> (\<exists>user_root. ring3_entry_ok user_root f (hw s') \<and> mapped_rx toyE user_root (PhysFrame 263) (hw s'))"
proof -
  obtain s1 where s1: "bootstrap toyE toy0 = Some s1" "phys_mem s1 = toyFA 0x107000" "hw s1 = toyH" "address_spaces s1 = address_spaces toy0"
    using toy_bootstrap by blast
  obtain f s' c' where r: "run_ring3_mailbox_loop_demo False toyE toyB ready toyG s1 toyC = Some (f, s', c')" using toy_ring3_loop [OF s1(2-4)] by blast
  from ring3_loop_start [OF toy0_booted s1(1) r] show ?thesis using s1(1,2) r toy_code_frames(2) by auto
qed

text \<open>A machine whose user memory can be written, with the arguments of the demo's first call below a stack pointer.\<close>

definition toyW :: "toy_mem Env" where
  "toyW = toyE\<lparr>cpu_store := (\<lambda>c a x m. Inr (((c, a), x) # m)),
     cpu_load := (\<lambda>c a m. case map_of m (c, a) of Some v \<Rightarrow> Inr v | None \<Rightarrow> Inl \<lparr>flt_err = 4, flt_rip = 7, flt_rsp = 8\<rparr>)\<rparr>"

definition toyI :: "toy_mem Int80" where
  "toyI = \<lparr>INT80_COUNT = 0, i80_hw = (toy_rooted 0x101000 0x102000)
     \<lparr>mem := [((0x100000, 0x100000121FF0), 1), ((0x100000, 0x100000121FE8), 0x1111), ((0x100000, 0x100000121FE0), 0x2222), ((0x100000, 0x100000121FD8), 0x3333)]\<rparr>,
     i80_out = toyC\<rparr>"

theorem int80_demo_calls_witness:
  "\<exists>s'. int80_handler_ring3_demo toyW ready 0x100000120026 0x100000122000 toyI = Some (Resume, s') \<and> cr3 (i80_hw s') = 0x100000
    \<and> map_of (mem (i80_hw s')) (0x100000, 0x100000121FD0) = Some 0x6666"
proof -
  have p: "peek_ring3_demo_roots (i80_hw toyI) = Some (PhysFrame 256, PhysFrame 1)"
    by (simp add: peek_ring3_demo_roots_def toyI_def toy_rooted_def PAGE_SIZE_def)
  have f: "frame_start_address (PhysFrame 256) = Some (PhysAddr 0x100000)" "frame_start_address (PhysFrame 1) = Some (PhysAddr 0x1000)"
    by (simp_all add: frame_start_address_def chk_mul_def PAGE_SIZE_def)
  have e: "phys_addr_ok toyW a" "recover_label toyW \<noteq> 0" for a by (simp_all add: toyW_def toyE_def)
  obtain e s' where s': "int80_handler_ring3_demo toyW ready 0x100000120026 0x100000122000 toyI = Some (e, s')"
      "e = (if INT80_COUNT toyI < 2 then Resume else Halted)" "cr3 (i80_hw s') = (if e = Resume then 0x100000 else 0x1000)"
      "mem (i80_hw s') = (if INT80_COUNT toyI = 0 then snd (rw_outcome toyW 0x100000 (0x100000122000 - 48)
         (demo_ret toyW 0x100000 0x100000122000 (mem (i80_hw toyI))) (mem (i80_hw toyI))) else mem (i80_hw toyI))"
    using int80_demo_calls [OF f(1) e(1) f(2) e(1) e(2) p, of ready "0x100000120026" "0x100000122000"] by (auto simp: toyI_def)
  have z: "INT80_COUNT toyI = 0" by (simp add: toyI_def)
  have "demo_ret toyW 0x100000 0x100000122000 (mem (i80_hw toyI)) = 0x6666"
    by (simp add: demo_ret_def user_word_def toyW_def toyI_def)
  then have "map_of (mem (i80_hw s')) (0x100000, 0x100000121FD0) = Some 0x6666"
    using s'(4) z by (simp add: rw_outcome_def toyW_def)
  then show ?thesis using s'(1-3) z by simp
qed

end
