(* ===== verification/Example_Ticks.thy ===== *)
theory Example_Ticks
  imports Example_Machine
begin

text \<open>
  Six ticks of the main loop on the example machine.  The idle task runs its quantum of five ticks, the fourth of
  which maps the kernel's demo page; the fifth schedules task 1, and in the sixth task 1 sends on endpoint 0,
  finds no receiver and blocks.
\<close>

section \<open>The idle task's quantum\<close>

definition toy_users :: "AddressSpace list" where
  "toy_users = [new_user\<lparr>root_page_frame := Some (PhysFrame 256)\<rparr>, new_user\<lparr>root_page_frame := Some (PhysFrame 257)\<rparr>]"

lemma toy_users_simps [simp]:
  "kind (toy_users ! 0) = User" "kind (toy_users ! Suc 0) = User" "root_page_frame (toy_users ! 0) = Some (PhysFrame 256)"
  "root_page_frame (toy_users ! Suc 0) = Some (PhysFrame 257)" "length toy_users = 2"
  by (simp_all add: toy_users_def new_user_def)

text \<open>What the idle task's ticks work with, and the rest of the state, which they leave alone.\<close>

definition idle_data :: "toy_mem KernelState \<Rightarrow> u64 \<times> FrameAlloc \<times> AddressSpace \<times> bool list \<times> PhysFrame option list \<times> toy_mem Machine" where
  "idle_data s = (time_ticks s, phys_mem s, hd (address_spaces s), mem_demo_mapped s, mem_demo_frame s, hw s)"

definition idle_for :: "u64 \<Rightarrow> u64 \<Rightarrow> toy_mem KernelState \<Rightarrow> bool" where
  "idle_for n k s \<longleftrightarrow> \<not> should_halt s \<and> \<not> halt_dumped_no_user_tasks s \<and> tick_count s = n \<and> quantum s = 5
     \<and> tasks s = [(new_task TASK0_ID Running 1 0)\<lparr>runtime_ticks := k, time_slice_used := k\<rparr>, new_task TASK1_ID Ready 3 1, new_task TASK2_ID Ready 2 2]
     \<and> num_tasks s = 3 \<and> current_task s = 0 \<and> ready_queue s = [1, 2, 0] \<and> rq_len s = 2 \<and> wq_len s = 0
     \<and> (\<exists>a. address_spaces s = a # toy_users) \<and> endpoints s = [Endpoint_new 0, Endpoint_new 1]
     \<and> counters s = KernelCounters_new \<and> \<not> demo_sent_by_task1 s"

lemma push_event_more [simp]:
  "time_ticks (push_event ev s) = time_ticks s" "demo_sent_by_task1 (push_event ev s) = demo_sent_by_task1 s"
  by (simp_all add: push_event_def Let_def)

lemma debug_check_returns:
  assumes "address_spaces s = a # toy_users" "num_tasks s = 3"
  shows "do { debug_check_invariants s; Some s } = Some s"
proof -
  have "[FIRST_USER_ASID_INDEX..<3] = [1, 2]" by (simp add: FIRST_USER_ASID_INDEX_def upt_rec)
  moreover have "each_mapping (new_user\<lparr>root_page_frame := r\<rparr>) = []" for r by (simp add: each_mapping_def new_user_def)
  ultimately have "chk_user_mappings s = Some []" using assms by (simp add: chk_user_mappings_def toy_users_def Let_def)
  then show ?thesis by (simp add: debug_check_invariants_def Let_def)
qed

lemmas tick_run = nth_chk_def chk_inc_def chk_add_def Let_def TASK0_INDEX_def TASK1_INDEX_def upd_task_def user_step_issue_syscall_def clear_reply_def
  take_unread_last_syscall_ret_def handle_pending_syscall_if_any_def update_runtime_for_def maybe_block_task_def
  update_time_slice_for_and_maybe_schedule_def maybe_halt_if_no_user_tasks_def alive_user_task_count_def new_task_def

lemma idle_tail:
  assumes "idle_for n k s" "k < 4"
  shows "\<exists>s'. tick_tail toyE 0 na s = Some s' \<and> idle_for n (k + 1) s' \<and> activity s' = na \<and> idle_data s' = idle_data s"
proof -
  have k: "\<not> 5 \<le> k + 1" "unat k + 1 < 2 ^ 64" using assms(2) by (simp_all add: not_le word_less_nat_alt unat_word_ariths)
  obtain a where a: "address_spaces s = a # toy_users" using assms(1) by (auto simp: idle_for_def)
  show ?thesis using assms(1) k a
    by (simp add: tick_tail_def idle_for_def idle_data_def tick_run upt_rec debug_check_returns [where a = a])
qed

lemma idle_tick:
  assumes "idle_for n k s" "k < 4" "n < 100" "next_activity_and_action (activity s) = (na, act)"
    "\<And>s1. idle_for (n + 1) k s1 \<Longrightarrow> idle_data s1 = idle_data s \<Longrightarrow>
      \<exists>s2. tick_action toyE act s1 = Some s2 \<and> idle_for (n + 1) k s2 \<and> idle_data s2 = d"
  shows "\<exists>s'. tick toyE s = Some s' \<and> idle_for (n + 1) (k + 1) s' \<and> activity s' = na \<and> idle_data s' = d"
proof -
  let ?s1 = "push_event (TickStarted (n + 1)) (s\<lparr>tick_count := n + 1\<rparr>)"
  have n: "unat n + 1 < 2 ^ 64" using assms(3) by (simp add: word_less_nat_alt)
  have "idle_for (n + 1) k ?s1" "idle_data ?s1 = idle_data s" using assms(1) by (simp_all add: idle_for_def idle_data_def)
  from assms(5) [OF this] obtain s2 where s2: "tick_action toyE act ?s1 = Some s2" "idle_for (n + 1) k s2" "idle_data s2 = d" by blast
  obtain s' where s': "tick_tail toyE 0 na s2 = Some s'" "idle_for (n + 1) (k + 1) s'" "activity s' = na" "idle_data s' = d"
    using idle_tail [OF s2(2) assms(2)] s2(3) by auto
  have f: "\<not> should_halt s" "tick_count s = n" "current_task s = 0" "length (tasks s) = 3" "num_tasks s2 = 3" "t_state (tasks s2 ! 0) \<noteq> Dead"
    using assms(1) s2(2) by (simp_all add: idle_for_def new_task_def)
  have "tick toyE s = Some s'" using f n assms(4) s2(1) s'(1) by (simp add: tick_def nth_chk_def chk_inc_def chk_add_def Let_def)
  then show ?thesis using s' by blast
qed

lemma idle_frames:
  "allocate_frame (phys_addr_ok toyE) (toyFA 0x102000) = Some (Some (PhysFrame 258), toyFA 0x103000)"
  "allocate_frame (phys_addr_ok toyE) (toyFA 0x103000) = Some (Some (PhysFrame 259), toyFA 0x104000)"
  by (simp_all add: allocate_frame.simps toyFA_def chk_add_def toyE_def PAGE_SIZE_def)

text \<open>The fourth tick: the demo page is mapped in the kernel's address space.\<close>

definition toyK :: AddressSpace where "toyK = new_kernel\<lparr>root_page_frame := Some (PhysFrame 1)\<rparr>"

lemma toyK_map: "\<exists>a. as_apply toyK (Map page frame flags) = Inr a"
proof -
  have "as_wf toyK" "as_lookup toyK page = None" "\<not> as_full toyK"
    by (simp_all add: toyK_def as_wf_def as_lookup_def each_mapping_def new_kernel_def as_full_def mapping_count_def MAX_MAPPINGS_def)
  then show ?thesis using as_map_ok by blast
qed

lemma toy_map_page: "apply_mem_action toyE (Map (demo_page_for_task 0) (PhysFrame 259) (PRESENT OR WRITABLE)) pm toyH
    = Some (Inr (), pm, toyH\<lparr>mem := [((0x1000, 0x100000), 0x103000)]\<rparr>)"
proof -
  have x: "to_x86_flags toyE (PRESENT OR WRITABLE) = 3" "\<not> x_contains 3 4"
    by (simp_all add: to_x86_flags_def flags_contain_def PRESENT_def WRITABLE_def USER_def NO_EXEC_def x_contains_def toyE_def)
  have u: "\<not> is_user_space_addr_u64 0x100000"
    by (simp add: is_user_space_addr_u64_def USER_SPACE_BASE_def USER_PML4_INDEX_def pml4_index_base_addr_def canonicalize_virt_def word_le_nat_alt)
  have p: "page_start_address (demo_page_for_task 0) = Some (VirtAddr 0x100000)" "frame_start_address (PhysFrame 259) = Some (PhysAddr 0x103000)"
    by (simp_all add: demo_page_for_task_def TASK0_INDEX_def DEMO_VIRT_PAGE_INDEX_TASK0_def page_start_address_def frame_start_address_def chk_mul_def PAGE_SIZE_def)
  show ?thesis
    by (simp add: apply_mem_action_def p x u enforce_user_mapping_policy_def mapper_for_def init_offset_page_table_def
        active_level_4_table_def phys_to_virt_def VirtAddr_new_def PhysAddr_new_def chk_add_def toyH_def)
      (simp add: toyE_def)
qed

lemma toy_mem_demo:
  assumes "idle_for n k s" "idle_data s = (v, toyFA 0x103000, toyK, [False, False, False], [None, None, None], toyH)"
    "as_apply toyK (Map (demo_page_for_task 0) (PhysFrame 259) (PRESENT OR WRITABLE)) = Inr a"
  shows "\<exists>s'. do_mem_demo toyE s = Some s' \<and> idle_for n k s'
    \<and> idle_data s' = (v, toyFA 0x104000, a, [True, False, False], [Some (PhysFrame 259), None, None], toyH\<lparr>mem := [((0x1000, 0x100000), 0x103000)]\<rparr>)"
proof -
  have e: "on_mem_demo toyE s = (False, s)" by (simp add: on_mem_demo_def toyE_def)
  have s: "address_spaces s = toyK # toy_users" using assms(1,2) by (auto simp: idle_for_def idle_data_def)
  show ?thesis
    using assms s idle_frames(2) toy_map_page
    by (simp add: do_mem_demo_def e do_mem_demo_normal_def nth_chk_def Let_def TASK0_INDEX_def mem_demo_kernel_def get_or_alloc_demo_frame_def
        mem_demo_kernel_apply_def idle_for_def idle_data_def new_task_def upd_aspace_def del: as_apply.simps)
qed

lemma toy_four_ticks: "\<exists>s a p. tick_loop toyE 4 toy0 = Some s \<and> idle_for 4 4 s \<and> activity s = Idle
    \<and> idle_data s = (1, p, a, [True, False, False], [Some (PhysFrame 259), None, None], toyH\<lparr>mem := [((0x1000, 0x100000), 0x103000)]\<rparr>)"
proof -
  let ?d = "\<lambda>v p. (v, p, toyK, [False, False, False], [None, None, None], toyH)"
  have i: "idle_for 0 0 toy0" "activity toy0 = Idle" "idle_data toy0 = ?d 0 (toyFA 0x102000)"
    by (simp_all add: idle_for_def idle_data_def toy0_eq toy_users_def toyK_def new_task_def)
  obtain s1 where 1: "tick toyE toy0 = Some s1" "idle_for 1 1 s1" "activity s1 = UpdatingTimer" "idle_data s1 = ?d 0 (toyFA 0x102000)"
    using idle_tick [OF i(1), of UpdatingTimer ActNone "idle_data toy0"] i(2,3) by auto
  obtain s2 where 2: "tick toyE s1 = Some s2" "idle_for 2 2 s2" "activity s2 = AllocatingFrame" "idle_data s2 = ?d 1 (toyFA 0x102000)"
    using idle_tick [OF 1(2), of AllocatingFrame ActUpdateTimer "?d 1 (toyFA 0x102000)"] 1(3,4)
    by (auto simp: idle_data_def idle_for_def chk_inc_def chk_add_def maybe_wake_one_sleep_task_def)
  obtain s3 where 3: "tick toyE s2 = Some s3" "idle_for 3 3 s3" "activity s3 = MappingDemoPage" "idle_data s3 = ?d 1 (toyFA 0x103000)"
    using idle_tick [OF 2(2), of MappingDemoPage ActAllocateFrame "?d 1 (toyFA 0x103000)"] 2(3,4) idle_frames(1)
    by (auto simp: idle_data_def idle_for_def)
  obtain a where a: "as_apply toyK (Map (demo_page_for_task 0) (PhysFrame 259) (PRESENT OR WRITABLE)) = Inr a" using toyK_map by blast
  let ?e = "(1, toyFA 0x104000, a, [True, False, False], [Some (PhysFrame 259), None, None], toyH\<lparr>mem := [((0x1000, 0x100000), 0x103000)]\<rparr>)"
  have m: "\<exists>s2. tick_action toyE ActMemDemo s1 = Some s2 \<and> idle_for (3 + 1) 3 s2 \<and> idle_data s2 = ?e"
    if "idle_for (3 + 1) 3 s1" "idle_data s1 = idle_data s3" for s1
    using toy_mem_demo [OF that(1) that(2) [unfolded 3(4)] a] by (simp add: toyE_def)
  obtain s4 where 4: "tick toyE s3 = Some s4" "idle_for 4 4 s4" "activity s4 = Idle" "idle_data s4 = ?e"
    using idle_tick [OF 3(2), of Idle ActMemDemo ?e, OF _ _ _ m] 3(3) by fastforce
  have four: "(4 :: nat) = Suc (Suc (Suc (Suc 0)))" by simp
  have h: "\<not> should_halt toy0" "\<not> should_halt s1" "\<not> should_halt s2" "\<not> should_halt s3" using i(1) 1(2) 2(2) 3(2) by (simp_all add: idle_for_def)
  have "tick_loop toyE 4 toy0 = Some s4" using 1(1) 2(1) 3(1) 4(1) h unfolding four tick_loop.simps by simp
  then show ?thesis using 4(2-4) by blast
qed

section \<open>Task 1 is scheduled and sends\<close>

text \<open>The state in which task 1 runs for the first time.\<close>

definition task1_runs :: "toy_mem KernelState \<Rightarrow> bool" where
  "task1_runs s \<longleftrightarrow> \<not> should_halt s \<and> \<not> halt_dumped_no_user_tasks s
     \<and> tasks s = [(new_task TASK0_ID Ready 1 0)\<lparr>runtime_ticks := 5\<rparr>, new_task TASK1_ID Running 3 1, new_task TASK2_ID Ready 2 2]
     \<and> num_tasks s = 3 \<and> current_task s = 1 \<and> ready_queue s = [2, 2, 0] \<and> rq_len s = 1 \<and> wq_len s = 0
     \<and> (\<exists>a. address_spaces s = a # toy_users) \<and> endpoints s = [Endpoint_new 0, Endpoint_new 1]
     \<and> counters s = KernelCounters_new\<lparr>sched_switches := 1\<rparr> \<and> toy_hw (hw s)"

lemma toy_fifth_tick:
  assumes "idle_for 4 4 s" "activity s = Idle" "time_ticks s = 1" "hw s = toyH\<lparr>mem := m\<rparr>"
  shows "\<exists>s'. tick toyE s = Some s' \<and> task1_runs s' \<and> tick_count s' = 5 \<and> time_ticks s' = 1 \<and> activity s' = UpdatingTimer
    \<and> \<not> demo_sent_by_task1 s'"
proof -
  obtain a where a: "address_spaces s = a # toy_users" using assms(1) by (auto simp: idle_for_def)
  let ?h = "set_vga_enabled False (set_vga_enabled True (toyH\<lparr>mem := m\<rparr>))"
  have "toy_hw ?h" by (simp add: toy_hw_def toyH_def set_vga_enabled_def)
  from toy_switch(2) [OF this, of 256] obtain h' where "switch_address_space toyE (Some (PhysFrame 256)) ?h = Some h'" "toy_hw h'"
    using \<open>toy_hw ?h\<close> by (auto simp: toy_hw_def)
  then show ?thesis using assms a
    by (simp add: toy_run tick_run tick_def tick_tail_def idle_for_def task1_runs_def debug_check_returns [where a = a])
qed

lemma toy_send:
  assumes "task1_runs s"
  shows "\<exists>s'. handle_syscall toyE (SysIpcSend 0 msg) s = Some s' \<and> current_task s' = 2 \<and> num_tasks s' = 3 \<and> address_spaces s' = address_spaces s
    \<and> \<not> halt_dumped_no_user_tasks s' \<and> tasks s' = [(new_task TASK0_ID Ready 1 0)\<lparr>runtime_ticks := 5\<rparr>,
        (new_task TASK1_ID Blocked 3 1)\<lparr>blocked_reason := Some (IpcSend 0), pending_send_msg := Some msg\<rparr>, new_task TASK2_ID Running 2 2]"
proof -
  obtain a where a: "address_spaces s = a # toy_users" using assms(1) by (auto simp: task1_runs_def)
  let ?h = "set_vga_enabled False (set_vga_enabled False (hw s))"
  have "toy_hw ?h" using assms by (simp add: toy_hw_def set_vga_enabled_def task1_runs_def)
  from toy_switch(2) [OF this, of 257] obtain h' where "switch_address_space toyE (Some (PhysFrame 257)) ?h = Some h'" "toy_hw h'"
    using \<open>toy_hw ?h\<close> by (auto simp: toy_hw_def)
  moreover have "replicate 3 x = [x, x, x]" for x :: nat by (simp add: numeral_3_eq_3)
  ultimately show ?thesis using assms a by (simp add: toy_run task1_runs_def)
qed

lemma toy_send_tail:
  assumes "task1_runs s" "\<not> demo_sent_by_task1 s"
  shows "\<exists>s'. tick_tail toyE 1 na s = Some s' \<and> current_task s' = 2 \<and> blocked_reason (tasks s' ! 1) = Some (IpcSend 0)"
proof -
  obtain a where a: "address_spaces s = a # toy_users" using assms(1) by (auto simp: task1_runs_def)
  have f: "num_tasks s = 3" "current_task s = 1" "tasks s ! 1 = new_task TASK1_ID Running 3 1" "length (tasks s) = 3" "\<not> demo_sent_by_task1 s"
    using assms by (simp_all add: task1_runs_def)
  define msg where "msg = 0x1111000000000000 XOR (tick_count s AND 0xFFFF)"
  let ?s1 = "set_pending 1 (SysIpcSend 0 msg) (s\<lparr>demo_sent_by_task1 := True\<rparr>)"
  have u: "user_step_issue_syscall toyE 1 s = ?s1"
    using f by (simp add: user_step_issue_syscall_def take_unread_last_syscall_ret_def user_step_sender_def clear_reply_def new_task_def Let_def
        TASK0_INDEX_def TASK1_INDEX_def IPC_DEMO_EP0_def msg_def) (simp add: toyE_def)
  let ?s2 = "push_event (SyscallIssued TASK1_ID) (s\<lparr>demo_sent_by_task1 := True, tasks := tasks s\<rparr>)"
  have p: "handle_pending_syscall_if_any toyE ?s1 = handle_syscall toyE (SysIpcSend 0 msg) ?s2"
    using assms(1) by (simp add: handle_pending_syscall_if_any_def set_pending_def upd_task_def task1_runs_def new_task_def Let_def)
  have "task1_runs ?s2" using assms(1) by (simp add: task1_runs_def)
  from toy_send [OF this, of msg] obtain s3 where s3: "handle_syscall toyE (SysIpcSend 0 msg) ?s2 = Some s3" "current_task s3 = 2" "num_tasks s3 = 3"
      "address_spaces s3 = a # toy_users" "\<not> halt_dumped_no_user_tasks s3" "tasks s3 = [(new_task TASK0_ID Ready 1 0)\<lparr>runtime_ticks := 5\<rparr>,
        (new_task TASK1_ID Blocked 3 1)\<lparr>blocked_reason := Some (IpcSend 0), pending_send_msg := Some msg\<rparr>, new_task TASK2_ID Running 2 2]"
    using a by auto
  have ps: "handle_pending_syscall_if_any toyE ?s1 = Some s3" unfolding p by (rule s3(1))
  have c: "current_task ?s1 = 1" "\<not> ring3_mailbox_loop toyE" using f(2) by (simp_all add: set_pending_def upd_task_def toyE_def)
  show ?thesis
    using s3(2-6) by (simp add: tick_tail_def Let_def u [unfolded One_nat_def] c [unfolded One_nat_def] ps [unfolded One_nat_def] update_runtime_for_def chk_inc_def chk_add_def maybe_halt_if_no_user_tasks_def alive_user_task_count_def
        new_task_def upd_task_def upt_rec TASK0_INDEX_def debug_check_returns [where a = a])
qed

lemma toy_sixth_tick:
  assumes "task1_runs s" "\<not> demo_sent_by_task1 s" "tick_count s = 5" "time_ticks s = 1" "activity s = UpdatingTimer"
  shows "\<exists>s'. tick toyE s = Some s' \<and> current_task s' = 2 \<and> blocked_reason (tasks s' ! 1) = Some (IpcSend 0)"
proof -
  let ?s2 = "push_event (TimerUpdated 2) ((push_event (TickStarted 6) (s\<lparr>tick_count := 6\<rparr>))\<lparr>time_ticks := 2\<rparr>)"
  have f: "\<not> should_halt s" "current_task s = 1" "num_tasks s = 3" "length (tasks s) = 3" "t_state (tasks s ! 1) = Running" "wq_len s = 0"
    using assms(1) by (simp_all add: task1_runs_def new_task_def)
  have t: "tick_action toyE ActUpdateTimer (push_event (TickStarted 6) (s\<lparr>tick_count := 6\<rparr>)) = Some ?s2"
    using assms(4) f(6) by (simp add: chk_inc_def chk_add_def maybe_wake_one_sleep_task_def)
  have "task1_runs ?s2" "\<not> demo_sent_by_task1 ?s2" using assms(1,2) by (simp_all add: task1_runs_def)
  from toy_send_tail [OF this] obtain s' where "tick_tail toyE 1 AllocatingFrame ?s2 = Some s'" "current_task s' = 2"
      "blocked_reason (tasks s' ! 1) = Some (IpcSend 0)" by blast
  moreover from this(1) have "tick toyE s = Some s'"
    using f(1-5) assms(3,5) t by (simp add: tick_def nth_chk_def chk_inc_def chk_add_def Let_def del: tick_action.simps)
  ultimately show ?thesis by blast
qed

lemma tick_loop_add: "tick_loop E m s = Some s' \<Longrightarrow> tick_loop E (m + n) s = tick_loop E n s'"
proof (induction m arbitrary: s)
  case (Suc m)
  show ?case
  proof (cases "should_halt s")
    case True
    then show ?thesis using Suc.prems by (cases n) auto
  next
    case False
    then obtain t where "tick E s = Some t" "tick_loop E m t = Some s'" using Suc.prems by (auto split: bind_splits)
    then show ?thesis using Suc.IH False by simp
  qed
qed simp

lemma toy_six_ticks: "\<exists>s. tick_loop toyE 6 toy0 = Some s \<and> current_task s = 2 \<and> blocked_reason (tasks s ! 1) = Some (IpcSend 0)"
proof -
  obtain s4 a p where 4: "tick_loop toyE 4 toy0 = Some s4" "idle_for 4 4 s4" "activity s4 = Idle"
      "idle_data s4 = (1, p, a, [True, False, False], [Some (PhysFrame 259), None, None], toyH\<lparr>mem := [((0x1000, 0x100000), 0x103000)]\<rparr>)"
    using toy_four_ticks by blast
  obtain s5 where 5: "tick toyE s4 = Some s5" "task1_runs s5" "tick_count s5 = 5" "time_ticks s5 = 1" "activity s5 = UpdatingTimer" "\<not> demo_sent_by_task1 s5"
    using toy_fifth_tick [OF 4(2,3)] 4(4) by (auto simp: idle_data_def)
  obtain s6 where 6: "tick toyE s5 = Some s6" "current_task s6 = 2" "blocked_reason (tasks s6 ! 1) = Some (IpcSend 0)"
    using toy_sixth_tick [OF 5(2,6,3-5)] by blast
  have "\<not> should_halt s4" "\<not> should_halt s5" using 4(2) 5(2) by (simp_all add: idle_for_def task1_runs_def)
  then have "tick_loop toyE (Suc (Suc 0)) s4 = Some s6" using 5(1) 6(1) by simp
  then have "tick_loop toyE (4 + Suc (Suc 0)) toy0 = Some s6" using tick_loop_add [OF 4(1)] by metis
  then show ?thesis using 6(2,3) by simp
qed

end
