(* ===== verification/Log_Records.thy ===== *)
theory Log_Records
  imports Logging Kill
begin

text \<open>
  What the kernel logs (\<open>kernel/mod.rs\<close>: the event dump and the kill report, \<open>arch/paging.rs\<close>: mapping
  errors and the execution context, \<open>kernel/trace.rs\<close> and \<open>kernel/syscall.rs\<close>: IPC traces) as lists of log
  records; \<open>emit\<close> is the log call each record stands for.  The records of an event determine it, and
  the debug hash of the trace tells small identifiers apart.
\<close>

unbundle bit_operations_syntax

datatype log_record = Info string | Err string | Kv string u64

fun emit :: "bool \<Rightarrow> lsr \<Rightarrow> log_record \<Rightarrow> Console \<Rightarrow> Console option" where
  "emit en lsr (Info msg) c = log_info en lsr msg c"
| "emit en lsr (Err msg) c = log_error en lsr msg c"
| "emit en lsr (Kv key v) c = log_info_u64 en lsr key v c"

section \<open>Events\<close>

fun state_change_record :: "TaskState \<Rightarrow> log_record" where
  "state_change_record Ready = Info ''to READY''"
| "state_change_record Running = Info ''to RUNNING''"
| "state_change_record Blocked = Info ''to BLOCKED''"
| "state_change_record Dead = Info ''to DEAD''"

fun mem_action_records :: "MemAction \<Rightarrow> log_record list" where
  "mem_action_records (Map page frame flags) =
     [Info ''mem_action = Map'', Kv ''virt_page_index'' (page_number page), Kv ''phys_frame_index'' (frame_number frame), Kv ''flags_bits'' flags]"
| "mem_action_records (Unmap page) = [Info ''mem_action = Unmap'', Kv ''virt_page_index'' (page_number page)]"

fun event_kill_records :: "TaskKillReason \<Rightarrow> log_record list" where
  "event_kill_records (UserPageFault addr err rip) =
     [Info ''reason = UserPageFault'', Kv ''addr'' addr, Kv ''err'' err, Kv ''rip'' rip]"
| "event_kill_records (DemoInjected code) = [Info ''reason = DemoInjected'', Kv ''code'' code]"

fun log_event_records :: "LogEvent \<Rightarrow> log_record list" where
  "log_event_records (TickStarted n) = [Info ''EVENT: TickStarted'', Kv ''tick'' n]"
| "log_event_records (TimerUpdated n) = [Info ''EVENT: TimerUpdated'', Kv ''time'' n]"
| "log_event_records FrameAllocated = [Info ''EVENT: FrameAllocated'']"
| "log_event_records (TaskSwitched tid) = [Info ''EVENT: TaskSwitched'', Kv ''task'' tid]"
| "log_event_records (TaskStateChanged tid st) = [Info ''EVENT: TaskStateChanged'', Kv ''task'' tid, state_change_record st]"
| "log_event_records (ReadyQueued tid) = [Info ''EVENT: ReadyQueued'', Kv ''task'' tid]"
| "log_event_records (ReadyDequeued tid) = [Info ''EVENT: ReadyDequeued'', Kv ''task'' tid]"
| "log_event_records (WaitQueued tid) = [Info ''EVENT: WaitQueued'', Kv ''task'' tid]"
| "log_event_records (WaitDequeued tid) = [Info ''EVENT: WaitDequeued'', Kv ''task'' tid]"
| "log_event_records (RuntimeUpdated tid rt) = [Info ''EVENT: RuntimeUpdated'', Kv ''task'' tid, Kv ''runtime'' rt]"
| "log_event_records (QuantumExpired tid used) = [Info ''EVENT: QuantumExpired'', Kv ''task'' tid, Kv ''used_ticks'' used]"
| "log_event_records (MemActionApplied task aspace action) =
     [Info ''EVENT: MemActionApplied'', Kv ''task'' task, Kv ''address_space_id'' (of_nat aspace)] @ mem_action_records action"
| "log_event_records (SyscallIssued task) = [Info ''EVENT: SyscallIssued'', Kv ''task'' task]"
| "log_event_records (SyscallHandled task) = [Info ''EVENT: SyscallHandled'', Kv ''task'' task]"
| "log_event_records (IpcRecvCalled task ep) = [Info ''EVENT: IpcRecvCalled'', Kv ''task'' task, Kv ''ep'' (of_nat ep)]"
| "log_event_records (IpcRecvBlocked task ep) = [Info ''EVENT: IpcRecvBlocked'', Kv ''task'' task, Kv ''ep'' (of_nat ep)]"
| "log_event_records (IpcSendCalled task ep msg) = [Info ''EVENT: IpcSendCalled'', Kv ''task'' task, Kv ''ep'' (of_nat ep), Kv ''msg'' msg]"
| "log_event_records (IpcSendBlocked task ep) = [Info ''EVENT: IpcSendBlocked'', Kv ''task'' task, Kv ''ep'' (of_nat ep)]"
| "log_event_records (IpcDelivered from to ep msg) =
     [Info ''EVENT: IpcDelivered'', Kv ''from'' from, Kv ''to'' to, Kv ''ep'' (of_nat ep), Kv ''msg'' msg]"
| "log_event_records (IpcReplyCalled task ep to) = [Info ''EVENT: IpcReplyCalled'', Kv ''task'' task, Kv ''ep'' (of_nat ep), Kv ''to'' to]"
| "log_event_records (IpcReplyDelivered from to ep) = [Info ''EVENT: IpcReplyDelivered'', Kv ''from'' from, Kv ''to'' to, Kv ''ep'' (of_nat ep)]"
| "log_event_records (TaskKilled task reason) = [Info ''EVENT: TaskKilled'', Kv ''task'' task] @ event_kill_records reason"

definition log_event_to_vga :: "bool \<Rightarrow> lsr \<Rightarrow> LogEvent \<Rightarrow> Console \<Rightarrow> Console option" where
  "log_event_to_vga en lsr ev c = foldM (emit en lsr) (log_event_records ev) c"

section \<open>Reports\<close>

fun log_task_killed :: "TaskId \<Rightarrow> TaskKillReason \<Rightarrow> log_record list" where
  "log_task_killed dead_id (UserPageFault addr err rip) =
     [Err ''TASK KILLED'', Kv ''task_id'' dead_id, Info ''reason = UserPageFault'', Kv ''addr'' addr, Kv ''err'' err, Kv ''rip'' rip]"
| "log_task_killed dead_id (DemoInjected code) =
     [Err ''TASK KILLED'', Kv ''task_id'' dead_id, Info ''reason = DemoInjected'', Kv ''demo_code'' code]"

fun log_map_to_error :: "MapToError \<Rightarrow> log_record list" where
  "log_map_to_error FrameAllocationFailed = [Err ''MapToError::FrameAllocationFailed'']"
| "log_map_to_error ParentEntryHugePage = [Err ''MapToError::ParentEntryHugePage'']"
| "log_map_to_error (PageAlreadyMapped old) = [Err ''MapToError::PageAlreadyMapped'', Kv ''already_mapped_phys_addr'' old]"

fun log_unmap_error :: "UnmapError \<Rightarrow> log_record list" where
  "log_unmap_error PageNotMapped = [Err ''UnmapError::PageNotMapped'']"
| "log_unmap_error (InvalidFrameAddress p) = [Err ''UnmapError::InvalidFrameAddress'', Kv ''invalid_frame_phys_addr'' p]"
| "log_unmap_error UnmapParentEntryHugePage = [Err ''UnmapError::ParentEntryHugePage'']"

definition debug_log_execution_context :: "'m Env \<Rightarrow> string \<Rightarrow> 'm Machine \<Rightarrow> log_record list \<times> 'm Machine" where
  "debug_log_execution_context E tag h =
     (case read_rip_rsp_rbp E h of ((rip, rsp, rbp), h1) \<Rightarrow>
        ([Info ''exec_context:'', Info tag, Kv ''rip'' rip, Kv ''rsp'' rsp, Kv ''rbp'' rbp,
          Kv ''rip_pml4'' (of_nat (pml4_index rip)), Kv ''rsp_pml4'' (of_nat (pml4_index rsp)), Kv ''rbp_pml4'' (of_nat (pml4_index rbp))], h1))"

section \<open>IPC traces\<close>

datatype IpcSyscallKind = Recv | Send | Reply

datatype IpcPathEvent = SendFast | SendSlow | RecvFast | RecvSlow | ReplyDelivered | ReplyNoWaiter

fun kind_record :: "IpcSyscallKind \<Rightarrow> log_record" where
  "kind_record Recv = Info ''ipc_trace kind=ipc_recv''"
| "kind_record Send = Info ''ipc_trace kind=ipc_send''"
| "kind_record Reply = Info ''ipc_trace kind=ipc_reply''"

fun msg_records :: "u64 option \<Rightarrow> log_record list" where
  "msg_records None = []"
| "msg_records (Some m) = [Kv ''msg'' m]"

definition trace_ipc :: "IpcSyscallKind \<Rightarrow> TaskId \<Rightarrow> EndpointId \<Rightarrow> u64 option \<Rightarrow> log_record list" where
  "trace_ipc k tid ep msg = [kind_record k, Kv ''task_id'' tid, Kv ''ep_id'' (of_nat ep)] @ msg_records msg"

definition FNV_OFFSET :: u64 where "FNV_OFFSET = 0xcbf29ce484222325"
definition FNV_PRIME :: u64 where "FNV_PRIME = 0x100000001b3"

definition fnv_step :: "u8 \<Rightarrow> u64 \<Rightarrow> u64" where
  "fnv_step b h = (h XOR ucast b) * FNV_PRIME"

text \<open>The memory representation of the identifiers (a 64-bit little-endian word each).\<close>

definition le_bytes :: "u64 \<Rightarrow> u8 list" where
  "le_bytes v = map (\<lambda>i. ucast (drop_bit (i * 8) v)) [0..<8]"

definition stable_hash64_of_bytes :: "u8 list \<Rightarrow> u64" where
  "stable_hash64_of_bytes bs = fold fnv_step bs FNV_OFFSET"

definition trace_ipc_syscall :: "IpcSyscallKind \<Rightarrow> TaskId \<Rightarrow> EndpointId \<Rightarrow> u64 option \<Rightarrow> log_record list" where
  "trace_ipc_syscall k tid ep msg =
     [kind_record k, Kv ''task_id_hash'' (stable_hash64_of_bytes (le_bytes tid)),
      Kv ''ep_id_hash'' (stable_hash64_of_bytes (le_bytes (of_nat ep)))] @ msg_records msg"

text \<open>The entry points, under the features \<open>ipc_trace_syscall\<close> and \<open>ipc_trace_paths\<close>.\<close>

definition trace_ipc_syscall_recv :: "bool \<Rightarrow> TaskId \<Rightarrow> EndpointId \<Rightarrow> log_record list" where
  "trace_ipc_syscall_recv ipc_trace_syscall tid ep = (if ipc_trace_syscall then trace_ipc_syscall Recv tid ep None else [])"

definition trace_ipc_syscall_send :: "bool \<Rightarrow> TaskId \<Rightarrow> EndpointId \<Rightarrow> u64 \<Rightarrow> log_record list" where
  "trace_ipc_syscall_send ipc_trace_syscall tid ep msg = (if ipc_trace_syscall then trace_ipc_syscall Send tid ep (Some msg) else [])"

definition trace_ipc_syscall_reply :: "bool \<Rightarrow> TaskId \<Rightarrow> EndpointId \<Rightarrow> u64 \<Rightarrow> log_record list" where
  "trace_ipc_syscall_reply ipc_trace_syscall tid ep msg = (if ipc_trace_syscall then trace_ipc_syscall Reply tid ep (Some msg) else [])"

fun path_record :: "IpcPathEvent \<Rightarrow> log_record" where
  "path_record SendFast = Info ''ipc_trace_paths send=fast''"
| "path_record SendSlow = Info ''ipc_trace_paths send=slow''"
| "path_record RecvFast = Info ''ipc_trace_paths recv=fast''"
| "path_record RecvSlow = Info ''ipc_trace_paths recv=slow''"
| "path_record ReplyDelivered = Info ''ipc_trace_paths reply=delivered''"
| "path_record ReplyNoWaiter = Info ''ipc_trace_paths reply=no_waiter''"

definition trace_ipc_path :: "bool \<Rightarrow> IpcPathEvent \<Rightarrow> log_record list" where
  "trace_ipc_path ipc_trace_paths ev = (if ipc_trace_paths then [path_record ev] else [])"

section \<open>The dump of the kernel state\<close>

fun opt_records :: "string \<Rightarrow> string \<Rightarrow> string \<Rightarrow> u64 option \<Rightarrow> log_record list" where
  "opt_records some_msg key none_msg (Some v) = [Info some_msg, Kv key v]"
| "opt_records some_msg key none_msg None = [Info none_msg]"

fun state_record :: "TaskState \<Rightarrow> log_record" where
  "state_record Ready = Info ''state = Ready''"
| "state_record Running = Info ''state = Running''"
| "state_record Blocked = Info ''state = Blocked''"
| "state_record Dead = Info ''state = Dead''"

fun reason_records :: "BlockedReason option \<Rightarrow> log_record list" where
  "reason_records None = [Info ''blocked_reason = None'']"
| "reason_records (Some Sleep) = [Info ''blocked_reason = Sleep'']"
| "reason_records (Some (IpcRecv ep)) = [Info ''blocked_reason = IpcRecv'', Kv ''blocked_ep'' (of_nat ep)]"
| "reason_records (Some (IpcSend ep)) = [Info ''blocked_reason = IpcSend'', Kv ''blocked_ep'' (of_nat ep)]"
| "reason_records (Some (IpcReply partner ep)) =
     [Info ''blocked_reason = IpcReply'', Kv ''blocked_ep'' (of_nat ep), Kv ''blocked_partner_task_id'' partner]"

definition task_records :: "usize \<Rightarrow> Task \<Rightarrow> log_record list" where
  "task_records i t =
     [Info ''TASK:'', Kv ''task_index'' (of_nat i), Kv ''task_id'' (t_id t), state_record (t_state t),
      Kv ''address_space_id'' (of_nat (address_space_id t))]
     @ reason_records (blocked_reason t)
     @ [Info (if pending_syscall t \<noteq> None then ''pending_syscall = Some'' else ''pending_syscall = None'')]
     @ opt_records ''pending_send_msg = Some'' ''pending_send_msg_value'' ''pending_send_msg = None'' (pending_send_msg t)
     @ opt_records ''last_msg = Some'' ''last_msg_value'' ''last_msg = None'' (last_msg t)
     @ opt_records ''last_reply = Some'' ''last_reply_value'' ''last_reply = None'' (last_reply t)
     @ opt_records ''last_syscall_ret = Some'' ''last_syscall_ret_value'' ''last_syscall_ret = None'' (last_syscall_ret t)"

definition aspace_records :: "usize \<Rightarrow> Task \<Rightarrow> AddressSpace \<Rightarrow> log_record list" where
  "aspace_records i t a =
     [Info ''Task AddressSpace:'', Kv ''task_index'' (of_nat i), Kv ''task_id'' (t_id t),
      Info (if kind a = Kernel then ''kind = Kernel'' else ''kind = User''),
      (case root_page_frame a of Some root \<Rightarrow> Kv ''root_page_frame_index'' (frame_number root)
                               | None \<Rightarrow> Info ''root_page_frame_index = None''),
      Kv ''address_space_id'' (of_nat (address_space_id t)), Kv ''mapping_count'' (of_nat (mapping_count a))]
     @ concat (map (\<lambda>m. [Info ''MAPPING:'', Kv ''virt_page_index'' (page_number (m_page m)),
                          Kv ''phys_frame_index'' (frame_number (m_frame m)), Kv ''flags_bits'' (m_flags m)]) (each_mapping a))
     @ (case last_msg t of Some m \<Rightarrow> [Info ''IPC:'', Kv ''last_msg'' m] | None \<Rightarrow> [])"

definition indexed_task_records :: "'m KernelState \<Rightarrow> string \<Rightarrow> string \<Rightarrow> usize \<Rightarrow> log_record list" where
  "indexed_task_records s idx_key id_key tidx =
     Kv idx_key (of_nat tidx) # (if tidx < num_tasks s then [Kv id_key (t_id (tasks s ! tidx))] else [])"

definition endpoint_records :: "'m KernelState \<Rightarrow> Endpoint \<Rightarrow> log_record list" where
  "endpoint_records s e =
     [Info ''ENDPOINT:'', Kv ''ep_id'' (of_nat (ep_id e))]
     @ (case recv_waiter e of
          Some tidx \<Rightarrow> indexed_task_records s ''recv_waiter_task_index'' ''recv_waiter_task_id'' tidx
        | None \<Rightarrow> [Info ''recv_waiter_task_index = None''])
     @ [Kv ''send_queue_len'' (of_nat (sq_len e))]
     @ concat (map (indexed_task_records s ''send_queue_task_index'' ''send_queue_task_id'') (take (sq_len e) (send_queue e)))
     @ [Kv ''reply_queue_len'' (of_nat (e_rq_len e))]
     @ concat (map (indexed_task_records s ''reply_queue_task_index'' ''reply_queue_task_id'') (take (e_rq_len e) (reply_queue e)))"

definition counter_records :: "KernelCounters \<Rightarrow> log_record list" where
  "counter_records c =
     [Info ''=== Counters Dump ==='', Kv ''sched_switches'' (sched_switches c),
      Kv ''ipc_send_fast'' (ipc_send_fast c), Kv ''ipc_send_slow'' (ipc_send_slow c),
      Kv ''ipc_recv_fast'' (ipc_recv_fast c), Kv ''ipc_recv_slow'' (ipc_recv_slow c),
      Kv ''ipc_reply_delivered'' (ipc_reply_delivered c), Kv ''task_killed_user_pf'' (task_killed_user_pf c),
      Kv ''task_killed_demo_injected'' (task_killed_demo_injected c), Info ''=== End of Counters Dump ==='']"

definition dump_records :: "'m KernelState \<Rightarrow> log_record list option" where
  "dump_records s = do {
     dump_events s;
     Some ([Info ''=== KernelState Event Log Dump ===''] @ concat (map log_event_records (dumped_events s)) @ [Info ''=== End of Event Log ==='']
       @ [Info ''=== Task Dump ===''] @ concat (map (\<lambda>i. task_records i (tasks s ! i)) [0..<num_tasks s]) @ [Info ''=== End of Task Dump ==='']
       @ [Info ''=== AddressSpace Dump (per task) ===''] @
         concat (map (\<lambda>i. aspace_records i (tasks s ! i) (address_spaces s ! address_space_id (tasks s ! i))) [0..<num_tasks s])
       @ [Info ''=== End of AddressSpace Dump ===''] @ [Info ''=== Endpoint Dump ===''] @ concat (map (endpoint_records s) (endpoints s))
       @ [Info ''=== End of Endpoint Dump ==='']
       @ counter_records (counters s))
   }"

section \<open>The records determine the event\<close>

fun usize_ok :: "LogEvent \<Rightarrow> bool" where
  "usize_ok (MemActionApplied t a act) = (a < 2 ^ 64)"
| "usize_ok (IpcRecvCalled t ep) = (ep < 2 ^ 64)"
| "usize_ok (IpcRecvBlocked t ep) = (ep < 2 ^ 64)"
| "usize_ok (IpcSendCalled t ep m) = (ep < 2 ^ 64)"
| "usize_ok (IpcSendBlocked t ep) = (ep < 2 ^ 64)"
| "usize_ok (IpcDelivered f t ep m) = (ep < 2 ^ 64)"
| "usize_ok (IpcReplyCalled t ep f) = (ep < 2 ^ 64)"
| "usize_ok (IpcReplyDelivered f t ep) = (ep < 2 ^ 64)"
| "usize_ok _ = True"

lemma of_nat_u64_inject: "a < 2 ^ 64 \<Longrightarrow> b < 2 ^ 64 \<Longrightarrow> (of_nat a :: u64) = of_nat b \<longleftrightarrow> a = b"
  by (simp add: word_of_nat_eq_iff take_bit_nat_eq_self)

lemma state_change_inject: "state_change_record a = state_change_record b \<longleftrightarrow> a = b"
  by (cases a; cases b) simp_all

lemma mem_action_inject: "mem_action_records a = mem_action_records b \<longleftrightarrow> a = b"
  by (cases a; cases b) (auto intro: VirtPage.expand PhysFrame.expand)

lemma event_kill_inject: "event_kill_records a = event_kill_records b \<longleftrightarrow> a = b"
  by (cases a; cases b) simp_all

text \<open>C36: the log of an event determines the event: no two different events are logged the same way.\<close>

theorem event_log_unambiguous:
  assumes "usize_ok a" "usize_ok b" "log_event_records a = log_event_records b"
  shows "a = b"
  using assms
  by (cases a; cases b) (simp_all add: of_nat_u64_inject state_change_inject mem_action_inject event_kill_inject)

theorem event_log_unambiguous_witness:
  "log_event_records (IpcRecvCalled 2 0) \<noteq> log_event_records (IpcRecvCalled 2 1)"
  using event_log_unambiguous [of "IpcRecvCalled 2 0" "IpcRecvCalled 2 1"] by auto

section \<open>The debug hash\<close>

text \<open>The prime has an inverse modulo two to the 64, so a step loses nothing of the hash so far.\<close>

lemma fnv_prime_inverse: "FNV_PRIME * 0xce965057aff6957b = 1"
  by (simp add: FNV_PRIME_def)

lemma fnv_mult_inject: "a * FNV_PRIME = b * FNV_PRIME \<longleftrightarrow> a = b"
proof
  assume "a * FNV_PRIME = b * FNV_PRIME"
  then have "a * (FNV_PRIME * 0xce965057aff6957b) = b * (FNV_PRIME * 0xce965057aff6957b)" by (simp only: mult.assoc [symmetric])
  then show "a = b" by (simp add: fnv_prime_inverse)
qed simp

lemma xor_cancel: "a XOR c = b XOR c \<longleftrightarrow> a = b" for a b c :: u64
proof
  assume "a XOR c = b XOR c"
  then have "(a XOR c) XOR c = (b XOR c) XOR c" by (rule arg_cong)
  then show "a = b" by (simp only: xor.assoc xor_self_eq xor.right_neutral)
qed simp

lemma ucast_u8_inject: "(ucast b :: u64) = ucast b' \<longleftrightarrow> b = b'" for b b' :: u8
proof
  assume e: "(ucast b :: u64) = ucast b'"
  have "unat (ucast x :: u64) = unat x" for x :: u8
    using unsigned_less [of x, where 'a = nat] by (simp add: unsigned_ucast_eq take_bit_nat_eq_self)
  then show "b = b'" using e by (metis word_unat_eq_iff)
qed simp

lemma fnv_step_inject: "fnv_step b h = fnv_step b h' \<longleftrightarrow> h = h'"
  by (simp add: fnv_step_def fnv_mult_inject xor_cancel)

lemma fnv_fold_inject: "fold fnv_step bs h = fold fnv_step bs h' \<longleftrightarrow> h = h'"
  by (induction bs arbitrary: h h') (simp_all add: fnv_step_inject)

lemma fnv_first_inject: "fnv_step b h = fnv_step b' h \<longleftrightarrow> b = b'"
  by (simp add: fnv_step_def fnv_mult_inject xor.commute [of h] xor_cancel ucast_u8_inject)

text \<open>Two byte strings that differ in one place have different hashes: the bytes before it bring both hashes to one
  value, the differing byte separates them, and the bytes after it keep them apart.\<close>

lemma hash_one_byte:
  assumes "k < length bs" "bs' = bs[k := y]" "stable_hash64_of_bytes bs = stable_hash64_of_bytes bs'"
  shows "bs' = bs"
proof -
  let ?h = "fold fnv_step (take k bs) FNV_OFFSET"
  have split: "bs = take k bs @ bs ! k # drop (Suc k) bs" "bs' = take k bs @ y # drop (Suc k) bs"
    using assms(1,2) by (simp_all add: id_take_nth_drop upd_conv_take_nth_drop)
  have "stable_hash64_of_bytes (take k bs @ z # drop (Suc k) bs) = fold fnv_step (drop (Suc k) bs) (fnv_step z ?h)" for z
    by (simp add: stable_hash64_of_bytes_def)
  then have "fnv_step (bs ! k) ?h = fnv_step y ?h" using assms(3) split by (metis fnv_fold_inject)
  then show ?thesis using assms(1,2) by (auto simp: fnv_first_inject)
qed

text \<open>The little-endian bytes determine the identifier.\<close>

lemma le_bytes_bit: "j < 64 \<Longrightarrow> bit (le_bytes v ! (j div 8)) (j mod 8) = bit v j"
proof -
  assume "j < 64"
  then have "j div 8 < 8" by simp
  then have "le_bytes v ! (j div 8) = ucast (drop_bit (j div 8 * 8) v)" unfolding le_bytes_def by (simp only: nth_map length_upt nth_upt diff_zero add_0)
  then show ?thesis by (simp add: bit_simps)
qed

lemma le_bytes_inject: "le_bytes v = le_bytes w \<longleftrightarrow> v = w"
proof
  assume e: "le_bytes v = le_bytes w"
  show "v = w"
  proof (rule bit_word_eqI)
    fix j assume "j < LENGTH(64)"
    then show "bit v j \<longleftrightarrow> bit w j" using le_bytes_bit [of j v] le_bytes_bit [of j w] e by simp
  qed
qed simp

text \<open>C37: the debug hash of the trace tells identifiers apart that differ in one byte: if, of the eight little-endian bytes of two
  identifiers, all but possibly one (any one) agree, and the identifiers have the same hash, they are equal.\<close>

theorem trace_hash_injective:
  assumes "k < 8" "\<forall>i < 8. i \<noteq> k \<longrightarrow> le_bytes a ! i = le_bytes b ! i"
    "stable_hash64_of_bytes (le_bytes a) = stable_hash64_of_bytes (le_bytes b)"
  shows "a = b"
proof -
  have l: "length (le_bytes v) = 8" for v by (simp add: le_bytes_def)
  have "le_bytes b = (le_bytes a)[k := le_bytes b ! k]"
    using assms(1,2) l by (intro nth_equalityI) (auto simp: nth_list_update)
  from hash_one_byte [OF _ this assms(3)] show ?thesis using assms(1) l le_bytes_inject by auto
qed

theorem trace_hash_injective_witness:
  "stable_hash64_of_bytes (le_bytes 0x1100) \<noteq> stable_hash64_of_bytes (le_bytes 0x2200)
    \<and> stable_hash64_of_bytes (le_bytes TASK1_ID) \<noteq> stable_hash64_of_bytes (le_bytes TASK2_ID)"
proof -
  have e: "le_bytes 0x2200 = (le_bytes 0x1100)[1 := 0x22]" "le_bytes TASK2_ID = (le_bytes TASK1_ID)[0 := ucast TASK2_ID]"
    by (simp_all add: le_bytes_def upt_rec TASK1_ID_def TASK2_ID_def)
  have one: "\<forall>i < 8. i \<noteq> 1 \<longrightarrow> le_bytes 0x1100 ! i = le_bytes 0x2200 ! i" "\<forall>i < 8. i \<noteq> 0 \<longrightarrow> le_bytes TASK1_ID ! i = le_bytes TASK2_ID ! i"
    by (simp_all add: e)
  show ?thesis using trace_hash_injective [OF _ one(1)] trace_hash_injective [OF _ one(2)] by (auto simp: TASK1_ID_def TASK2_ID_def)
qed

end
