(* ===== verification/Spec2Isabelle.thy ===== *)
theory Spec2Isabelle
  imports Ring3_Run Example_Ticks Log_Records
begin

text \<open>
  Formal-os is a small x86-64 kernel in Rust (\<open>src/kernel/src\<close>): three tasks, priority scheduling, synchronous
  IPC over two endpoints, per-task address spaces, a ring 3 demo, and a self-check of its own invariants.
  This development models it function by function and proves what makes the parts correct.

  \<^bold>\<open>Conventions.\<close>  Operations that may panic (explicit panics, failed \<open>expect\<close>, an index out of range, an
  overflow of \<open>+\<close> or \<open>*\<close> in the dev profile) or halt return an \<open>option\<close> with \<open>None\<close> for that; machine integers are words, indices
  natural numbers, the kernel state and the statics are records passed explicitly.  Code outside the repository is a
  parameter: \<open>Env\<close> (the x86\_64 crate, the CPU and the Cargo features that select code), \<open>ByteMem\<close> (byte accesses of the CPU),
  \<open>GdtCrate\<close>, \<open>StaticAddrs\<close> (linker addresses), \<open>lsr\<close> (the serial device), \<open>region list\<close> (the boot memory map).

  \<^bold>\<open>Theories and the code they model.\<close>
  \<^item> \<open>Prelude\<close>: checked arithmetic, arrays with a length, total and partial correctness of panicking operations (\<open>returns\<close>, \<open>post\<close>).
  \<^item> \<open>Addr\<close> (\<open>mem/addr.rs\<close>, \<open>mem/layout.rs\<close>, \<open>arch/virt_layout.rs\<close>): addresses, PML4 slots, the kernel's high alias.
  \<^item> \<open>Address_Space\<close> (\<open>mem/paging.rs\<close>, \<open>mem/address_space.rs\<close>): the table of 64 mappings, as a bounded finite map.
  \<^item> \<open>Frame_Alloc\<close> (\<open>mm/mod.rs\<close>, \<open>kernel/pagetable_init.rs\<close>): the boot memory map allocator, as a source of distinct usable frames.
  \<^item> \<open>Machine\<close>, \<open>Arch_Paging\<close> (\<open>arch/paging.rs\<close>): page fault guard, CR3 preflight and switch, map and unmap, user page tables.
  \<^item> \<open>Endpoint\<close>, \<open>Ipc\<close> (\<open>kernel/ipc.rs\<close>), \<open>Syscalls\<close> (\<open>kernel/syscall.rs\<close>, \<open>kernel/user_program.rs\<close>, \<open>kernel/demo\<close>).
  \<^item> \<open>Kernel_State\<close>, \<open>Scheduler\<close>, \<open>Kill\<close>, \<open>Tick\<close>, \<open>Debug_Check\<close> (\<open>kernel/mod.rs\<close>, \<open>kernel/entry.rs\<close>: main loop; \<open>arch/interrupts.rs\<close>: the
    mailbox interrupt).
  \<^item> \<open>Vga\<close>, \<open>Logging\<close>, \<open>Log_Records\<close> (\<open>logging\<close>, \<open>kernel/trace.rs\<close>, the dumps of \<open>kernel/mod.rs\<close>): screen, serial port, number formatting, and
    what is logged as lists of records.
  \<^item> \<open>Descriptors\<close> (\<open>arch/gdt.rs\<close>, the IDT of \<open>arch/interrupts.rs\<close>), \<open>Exceptions\<close> (fault handlers, the demo's int 0x80, \<open>panic.rs\<close>,
    \<open>kernel/state_ref.rs\<close>).
  \<^item> \<open>User_Code\<close>, \<open>Ring3\<close> (\<open>kernel/entry.rs\<close>: the ring 3 demos; \<open>arch/ring3.rs\<close>): the machine code placed in the user page, with a decoder and
    a run of it, and the way to \<open>iretq\<close>.

  \<^bold>\<open>Proofs.\<close>
  \<^item> \<open>Inv_Core\<close> states the kernel invariant \<open>kinv\<close>: exactly the current task runs, the ready queue is the set of ready user tasks, each endpoint queue
    the set of tasks blocked there, every reply partner is alive, dead tasks have no mappings.  Its index, a set of detached tasks, lets
    an operation take a task out of all structures, change it and put it back.  \<open>Inv_Sched\<close>, \<open>Inv_Ipc\<close>, \<open>Inv_Send\<close>, \<open>Inv_Close\<close>,
    \<open>Inv_Kill\<close>, \<open>Inv_Tick\<close> prove for each operation that it keeps the invariant and, where its resources suffice (page tables that can be
    switched to, counters that do not overflow), that it does not panic; \<open>Inv_Check\<close> that the invariant makes the
    kernel's self-check silent.  \<open>Kernel_Run\<close> makes them the invariant of a transition system (locale \<open>invariant_system\<close>).
  \<^item> \<open>Ipc_Spec\<close> is the abstract rendezvous protocol that send, receive and reply refine.
  \<^item> Interfaces are locales, interpreted on the model: \<open>page_map\<close> (address spaces), \<open>frame_source\<close> (the allocator), \<open>task_bag\<close> (endpoint queues),
    \<open>recent_log\<close> (the event ring), \<open>byte_sink\<close> (emergency and panic output), \<open>invariant_system\<close> (the kernel).
  \<^item> \<open>Example_Machine\<close>, \<open>Example_Ticks\<close> and \<open>Ring3_Run\<close> hold a concrete machine, booted and run through a rendezvous, a kill, six ticks of the
    main loop and the ring 3 demos, at which the theorems with hypotheses are instantiated; for the page tables, one whose high alias
    shows the physical memory map a second time.  This theory has the properties that span components.

  \<^bold>\<open>Assumptions on outside code.\<close>  Of the parameters, only these are assumed, each where a theorem says so: a write to a page table that is not part of
  the active ones, through its pointer in the physical memory map, changes that entry and no other entry seen through the map
  (\<open>inactive_table\<close>; nothing is assumed of other virtual addresses, which may be aliases); the bytes of the copied code page are
  separate memory (\<open>phys_window\<close>); the serial device becomes ready again and again (\<open>eventually_ready\<close>).  The kernel switches CR3 through a checked
  and an unchecked function; what is shown of the target table concerns the checked one.

  \<^bold>\<open>Loops.\<close>  Every loop of the code is a structural recursion or a function with a termination proof, except the
  serial port's wait for its device (\<open>wait_ready\<close>, a partial function; it returns when the device becomes ready again and again).  No fuel is used.

  \<^bold>\<open>Not modelled.\<close>  Log lines of the kernel functions other than the dumps, reports, traces and the ring 3 demos; the crate root
  (\<open>main.rs\<close>), the \<open>hlt\<close> loop; \<open>types.rs\<close> and \<open>mm/pagetable_init.rs\<close>, which the kernel does not use.  The mailbox interrupt is
  modelled, but the kernel invariant is not claimed for the feature \<open>ring3_mailbox\<close>, whose dispatcher changes the current task without
  its state.
\<close>

section \<open>Every reachable state\<close>

text \<open>C1: in every state the kernel reaches from its boot state by ticks, system calls of the running
  task (any IPC call, and the page calls the program issues: the demo page, with the demo's flags), kills of user tasks, closings of endpoints and the bootstrap, the kernel's own self-check
  reports no violation and does not panic.\<close>

theorem reachable_clean:
  assumes "booted E s0" "(kernel_step E)\<^sup>*\<^sup>* s0 s"
  shows "debug_check_invariants s = Some []"
  using kernel_sys.reachable_inv [OF assms] debug_check_clean by blast

theorem reachable_clean_witness:
  "debug_check_invariants (close_endpoint_and_rescue_waiters 0 toy0) = Some []"
  by (rule reachable_clean [OF toy0_booted r_into_rtranclp [of "kernel_step toyE", OF step_close [OF refl]]])

text \<open>C10: from the booted state, however many ticks of the main loop run (up to a panic or a halt),
  the state satisfies the kernel invariant: exactly the current task runs; the ready queue holds
  exactly the ready user tasks, without repetition; of every endpoint, the send queue holds exactly the tasks
  blocked sending on it, the reply queue exactly those blocked waiting for a reply on it, both without repetition, and the
  receive waiter is exactly the task blocked receiving on it, if there is one; a closed endpoint has no waiters.\<close>

theorem main_loop_invariant:
  assumes "booted E s0" "tick_loop E n s0 = Some s"
  shows "{i. i < 3 \<and> t_state (tasks s ! i) = Running} = {current_task s}
    \<and> distinct (take (rq_len s) (ready_queue s))
    \<and> set (take (rq_len s) (ready_queue s)) = {i. 0 < i \<and> i < 3 \<and> t_state (tasks s ! i) = Ready}
    \<and> (\<forall>j < 2. distinct (sq (endpoints s ! j)) \<and> distinct (rq (endpoints s ! j))
         \<and> set (sq (endpoints s ! j)) = {i. i < 3 \<and> blocked_reason (tasks s ! i) = Some (IpcSend j)}
         \<and> set (rq (endpoints s ! j)) = {i. i < 3 \<and> (\<exists>p. blocked_reason (tasks s ! i) = Some (IpcReply p j))}
         \<and> set_option (recv_waiter (endpoints s ! j)) = {i. i < 3 \<and> blocked_reason (tasks s ! i) = Some (IpcRecv j)}
         \<and> (is_closed (endpoints s ! j) \<longrightarrow> recv_waiter (endpoints s ! j) = None \<and> sq (endpoints s ! j) = [] \<and> rq (endpoints s ! j) = []))"
proof -
  have k: "kinv s" using kernel_sys.reachable_inv [OF assms(1) tick_loop_steps [OF assms(2)]] by blast
  have run: "{i. i < 3 \<and> t_state (tasks s ! i) = Running} = {current_task s}"
  proof (rule set_eqI)
    fix i show "i \<in> {i. i < 3 \<and> t_state (tasks s ! i) = Running} \<longleftrightarrow> i \<in> {current_task s}"
      using kinvD(3) [OF k] kinvD(5) [OF k] unfolding at_most_current_def by auto
  qed
  have rq: "rq_ok {} s" using kinvD(1) [OF k] by (simp add: core_def)
  have ep: "ep_ok {} s j (endpoints s ! j)" if "j < 2" for j using kinvD(1) [OF k] that by (simp add: core_def)
  show ?thesis
  proof (intro conjI allI impI)
    show "distinct (take (rq_len s) (ready_queue s))" using rq by (simp add: rq_ok_def rdy_def)
    show "set (take (rq_len s) (ready_queue s)) = {i. 0 < i \<and> i < 3 \<and> t_state (tasks s ! i) = Ready}"
      using rq by (simp add: rq_ok_def rdy_def ready_set_def)
  qed (use run in \<open>simp_all add: ep [unfolded ep_ok_def ep_wf_def blk_def wants_send_def wants_reply_def wants_recv_def sq_def rq_def] sq_def rq_def\<close>)
qed

theorem main_loop_invariant_witness:
  "\<exists>s. tick_loop toyE 6 toy0 = Some s \<and> {i. i < 3 \<and> t_state (tasks s ! i) = Running} = {2} \<and> 1 \<in> set (sq (endpoints s ! 0))"
proof -
  obtain s where s: "tick_loop toyE 6 toy0 = Some s" "current_task s = 2" "blocked_reason (tasks s ! 1) = Some (IpcSend 0)"
    using toy_six_ticks by blast
  from main_loop_invariant [OF toy0_booted s(1)] show ?thesis using s by auto
qed

section \<open>IPC\<close>

text \<open>C3: a receive refines the rendezvous protocol, keeps the kernel invariant and, when the address
  space switches succeed and no counter is at its maximum, does not panic.\<close>

theorem ipc_recv_refines:
  assumes "kinv s" "\<not> ring3_mailbox E" "ipc_safe E s"
  shows "\<exists>s'. ipc_recv E j s = Some s' \<and> kinv s' \<and> ipc_spec (closed_eps s) (current_task s) (SysIpcRecv j) (view s) (view s')"
  using post_strictD [OF ipc_recv_post [OF assms(1,2), of True]] assms(3) by blast

theorem ipc_recv_refines_witness:
  "\<exists>s'. ipc_recv toyE 0 toy1 = Some s' \<and> kinv s' \<and> ipc_spec (closed_eps toy1) (current_task toy1) (SysIpcRecv 0) (view toy1) (view s')"
  by (rule ipc_recv_refines [OF toy1_kinv _ toy1_safe]) simp

text \<open>C2: a send refines the protocol in the same sense.\<close>

theorem ipc_send_refines:
  assumes "kinv s" "\<not> ring3_mailbox E" "ipc_safe E s"
  shows "\<exists>s'. ipc_send E j m s = Some s' \<and> kinv s' \<and> ipc_spec (closed_eps s) (current_task s) (SysIpcSend j m) (view s) (view s')"
  using post_strictD [OF ipc_send_post [OF assms(1,2), of True]] assms(3) by blast

theorem ipc_send_refines_witness:
  "\<exists>s'. ipc_send toyE 0 77 toy1 = Some s' \<and> kinv s' \<and> ipc_spec (closed_eps toy1) (current_task toy1) (SysIpcSend 0 77) (view toy1) (view s')"
  by (rule ipc_send_refines [OF toy1_kinv _ toy1_safe]) simp

text \<open>C4: a reply refines the protocol in the same sense; it never switches tasks, so it needs only that no
  counter is at its maximum.\<close>

theorem ipc_reply_refines:
  assumes "kinv s" "room s"
  shows "\<exists>s'. ipc_reply j m s = Some s' \<and> kinv s' \<and> ipc_spec (closed_eps s) (current_task s) (SysIpcReply j m) (view s) (view s')"
  using post_strictD [OF ipc_reply_post [OF assms(1), of True]] assms(2) by blast

theorem ipc_reply_refines_witness:
  "\<exists>s'. ipc_reply 0 5 toy1 = Some s' \<and> kinv s' \<and> ipc_spec (closed_eps toy1) (current_task toy1) (SysIpcReply 0 5) (view toy1) (view s')"
  using ipc_reply_refines [OF toy1_kinv, of 0 5] toy1_safe by (simp add: ipc_safe_def)

text \<open>The dispatcher: an IPC system call of the kernel task is dropped, any other refines the protocol.\<close>

lemma ipc_syscall_refines:
  assumes "kinv s" "\<not> ring3_mailbox E" "\<not> dead_partner_test E" "is_ipc_syscall sc" "handle_syscall E sc s = Some s'"
  shows "view s' = view s \<or> ipc_spec (closed_eps s) (current_task s) sc (view s) (view s')"
proof -
  have c: "current_task s < num_tasks s" using kinvD(1,4) [OF assms(1)] coreD(1) by fastforce
  show ?thesis
  proof (cases "s' = s")
    case False
    let ?s = "push_event (SyscallHandled (t_id (tasks s ! current_task s))) s"
    have k: "kinv ?s" "view ?s = view s" "closed_eps ?s = closed_eps s" "current_task ?s = current_task s"
      using assms(1) view_cong [of ?s s] by (simp_all add: closed_eps_def fun_eq_iff)
    have after: "on_after_ipc_recv E i t j = Some" for i t j using assms(3) by (simp add: fun_eq_iff on_after_ipc_recv_def)
    have h: "handle_syscall E sc s = (case sc of SysIpcRecv j \<Rightarrow> ipc_recv E j ?s | SysIpcSend j m \<Rightarrow> ipc_send E j m ?s
        | SysIpcReply j m \<Rightarrow> ipc_reply j m ?s | _ \<Rightarrow> None)"
      using c False assms(4,5) after by (cases sc) (auto simp: handle_syscall_def Let_def split: if_splits)
    show ?thesis
      using h assms(4,5) k post_safeD [OF ipc_recv_post [OF k(1) assms(2), of False]]
        post_safeD [OF ipc_send_post [OF k(1) assms(2), of False]] post_safeD [OF ipc_reply_post [OF k(1), of False]]
      by (cases sc) auto
  qed simp
qed

lemma running_is_free: "kinv s \<Longrightarrow> ph (view s (current_task s)) = Free"
  using kinvD(4,5) [of s] by (simp add: view_def task_view_def phase_of_def)

text \<open>C8: in the default build (the features \<open>dead_partner_test\<close> and \<open>ring3_mailbox\<close> off) a queued message is never lost: whatever IPC system call the running task makes, a sender that
  waits on an endpoint still waits with its message, or the caller has received exactly that message
  and the sender now waits for the caller's reply.\<close>

theorem message_never_lost:
  assumes "kinv s" "\<not> ring3_mailbox E" "\<not> dead_partner_test E" "is_ipc_syscall sc" "handle_syscall E sc s = Some s'"
    and "t_state (tasks s ! i) = Blocked" "blocked_reason (tasks s ! i) = Some (IpcSend j)" "pending_send_msg (tasks s ! i) = Some m" "i < 3"
  shows "ph (view s' i) = WaitSend j m
    \<or> ph (view s' i) = WaitReply j (tid_of (current_task s)) \<and> last_msg (tasks s' ! current_task s) = Some m"
proof -
  have "ph (view s i) = WaitSend j m" using assms(6-9) by (simp add: view_def task_view_def phase_of_def)
  moreover have "inbox (view s' (current_task s)) = last_msg (tasks s' ! current_task s)"
    using kinvD(4) [OF assms(1)] by (simp add: view_def task_view_def)
  ultimately show ?thesis
    using ipc_syscall_refines [OF assms(1-5)] spec_message_kept [where v = "view s" and v' = "view s'" and i = i, OF _ running_is_free [OF assms(1)]] by metis
qed

theorem message_never_lost_witness:
  "ph (view toy3 1) = WaitSend 0 77 \<or> ph (view toy3 1) = WaitReply 0 (tid_of (current_task toy2)) \<and> last_msg (tasks toy3 ! current_task toy2) = Some 77"
  by (rule message_never_lost [OF toy23_kinv(1) _ _ _ toy3_fields(1)]) (simp_all add: toy2_fields new_task_def)

text \<open>C9: in the default build (the features \<open>dead_partner_test\<close> and \<open>ring3_mailbox\<close> off) a task that waits for a reply is answered only by the task it waits for: an IPC system call that
  ends its wait is a reply by that partner, on that endpoint, and the waiter gets exactly the reply's
  value.\<close>

theorem answered_by_partner:
  assumes "kinv s" "\<not> ring3_mailbox E" "\<not> dead_partner_test E" "is_ipc_syscall sc" "handle_syscall E sc s = Some s'"
    and "t_state (tasks s ! i) = Blocked" "blocked_reason (tasks s ! i) = Some (IpcReply p j)" "i < 3" "ph (view s' i) \<noteq> WaitReply j p"
  shows "p = tid_of (current_task s) \<and> (\<exists>m. sc = SysIpcReply j m \<and> last_reply (tasks s' ! i) = Some m)"
proof -
  have w: "ph (view s i) = WaitReply j p" using assms(6-8) by (simp add: view_def task_view_def phase_of_def)
  then have "p = tid_of (current_task s) \<and> (\<exists>m. sc = SysIpcReply j m \<and> view s' i = (view s i)\<lparr>ph := Free, answer := Some m\<rparr>)"
    using ipc_syscall_refines [OF assms(1-5)] spec_answer_from_partner [where v = "view s" and v' = "view s'" and i = i, OF _ running_is_free [OF assms(1)] w assms(9)] w assms(9) by metis
  moreover have "answer (view s' i) = last_reply (tasks s' ! i)" using assms(8) by (simp add: view_def task_view_def)
  ultimately show ?thesis by (metis TaskView.select_convs(3) TaskView.surjective TaskView.update_convs(1,3))
qed

theorem answered_by_partner_witness:
  "\<exists>s'. handle_syscall toyE (SysIpcReply 0 5) toy3 = Some s' \<and> TASK2_ID = tid_of (current_task toy3) \<and> last_reply (tasks s' ! 1) = Some 5"
proof -
  obtain s' where s: "handle_syscall toyE (SysIpcReply 0 5) toy3 = Some s'"
      "tasks s' = [new_task TASK0_ID Ready 1 0, (new_task TASK1_ID Ready 3 1)\<lparr>last_reply := Some 5\<rparr>,
         (new_task TASK2_ID Running 2 2)\<lparr>last_msg := Some 77\<rparr>]"
    using toy_reply by blast
  have "TASK2_ID = tid_of (current_task toy3) \<and> (\<exists>m. SysIpcReply 0 5 = SysIpcReply 0 m \<and> last_reply (tasks s' ! 1) = Some m)"
    by (rule answered_by_partner [OF toy23_kinv(2) _ _ _ s(1)])
      (simp_all add: toy3_fields s(2) new_task_def view_def task_view_def phase_of_def)
  with s(1) show ?thesis by auto
qed

section \<open>Scheduling\<close>

text \<open>C5: the scheduler runs a user task of the highest priority among those that can run, and the idle
  task when none can; it changes nothing else of any task's IPC state, and does not panic when the
  address space switch succeeds and the switch counter is not at its maximum.\<close>

theorem schedule_highest_priority:
  assumes "kinv s" "sched_safe E s"
  shows "\<exists>s'. schedule_next_task E s = Some s' \<and> kinv s'
    \<and> (if runnable s = {} then current_task s' = 0
       else current_task s' \<in> runnable s \<and> (\<forall>k \<in> runnable s. priority (tasks s ! k) \<le> priority (tasks s ! current_task s')))
    \<and> endpoints s' = endpoints s \<and> (\<forall>i < 3. t_state (tasks s ! i) = Blocked \<or> t_state (tasks s ! i) = Dead \<longrightarrow> tasks s' ! i = tasks s ! i)"
  using post_strictD [OF schedule_post [OF kinvD(6) [OF assms(1)], of True E]] assms(2)
  unfolding good_choice_def kept_def by blast

theorem schedule_highest_priority_witness:
  "\<exists>s'. schedule_next_task toyE toy0 = Some s' \<and> kinv s'
    \<and> (if runnable toy0 = {} then current_task s' = 0
       else current_task s' \<in> runnable toy0 \<and> (\<forall>k \<in> runnable toy0. priority (tasks toy0 ! k) \<le> priority (tasks toy0 ! current_task s')))
    \<and> endpoints s' = endpoints toy0
    \<and> (\<forall>i < 3. t_state (tasks toy0 ! i) = Blocked \<or> t_state (tasks toy0 ! i) = Dead \<longrightarrow> tasks s' ! i = tasks toy0 ! i)"
  by (rule schedule_highest_priority [OF toy0_kinv toy0_safe(2)])

section \<open>Killing a task and closing an endpoint\<close>

text \<open>C6: killing a user task leaves nothing of it: it is dead, in no queue and registered at no endpoint,
  its address space has no mapping left, the kernel invariant holds, and every task that waited for
  its reply is runnable again with an error as its reply.\<close>

theorem kill_leaves_nothing:
  assumes "kinv s" "0 < i" "i < 3" "kill_task E i reason s = Some s'"
  shows "kinv s' \<and> t_state (tasks s' ! i) = Dead \<and> each_mapping (address_spaces s' ! i) = []
    \<and> i \<notin> set (take (rq_len s') (ready_queue s')) \<and> (\<forall>j < 2. i \<notin> waiters (endpoints s' ! j))
    \<and> (\<forall>k < 3. \<forall>j. k \<noteq> i \<longrightarrow> blocked_reason (tasks s ! k) = Some (IpcReply (tid_of i) j) \<longrightarrow>
         (t_state (tasks s' ! k) = Ready \<or> t_state (tasks s' ! k) = Running)
         \<and> (last_reply (tasks s' ! k) = Some IPC_ERR_DEAD_PARTNER \<or> last_reply (tasks s' ! k) = Some IPC_ERR_ENDPOINT_CLOSED))"
proof -
  obtain s3 where k: "kinv s'" "after_kill i s s3" "kept s3 s'" using post_safeD [OF kill_task_post [OF assms(1-3)] assms(4)] by blast
  have i: "tk s' i = dead_task (tk s i)"
    using k(2,3) assms(3) unfolding after_kill_def kept_def by (simp add: dead_task_def)
  have r: "blocked_reason (tk s' i) = None" "t_state (tk s' i) = Dead" using i by (simp_all add: dead_task_def)
  have "each_mapping (address_spaces s' ! i) = []" using kinvD(2) [OF k(1)] r(2) assms(3) by (simp add: ainv_def)
  moreover have "i \<notin> set (take (rq_len s') (ready_queue s'))"
    using kinvD(1) [OF k(1)] r(2) by (simp add: core_def rq_ok_def rdy_def ready_set_def)
  moreover have "i \<notin> waiters (endpoints s' ! j)" if "j < 2" for j
  proof -
    have "ep_ok {} s' j (endpoints s' ! j)" using kinvD(1) [OF k(1)] that by (simp add: core_def)
    then show ?thesis using r(1) by (simp add: waiters_def ep_ok_def blk_def wants_send_def wants_reply_def wants_recv_def)
  qed
  moreover have "(t_state (tk s' m) = Ready \<or> t_state (tk s' m) = Running)
      \<and> (last_reply (tk s' m) = Some IPC_ERR_DEAD_PARTNER \<or> last_reply (tk s' m) = Some IPC_ERR_ENDPOINT_CLOSED)"
    if m: "m < 3" "m \<noteq> i" "blocked_reason (tk s m) = Some (IpcReply (tid_of i) j)" for m j
  proof -
    obtain e where "tk s3 m = rescued e (tk s m)" "e = IPC_ERR_DEAD_PARTNER \<or> e = IPC_ERR_ENDPOINT_CLOSED"
      using k(2) m unfolding after_kill_def by metis
    then have "t_state (tk s3 m) = Ready" "last_reply (tk s3 m) = Some e" by (simp_all add: rescued_def wake_with_def)
    then show ?thesis using k(3) m(1) \<open>e = _ \<or> _\<close> unfolding kept_def payload_def by auto
  qed
  ultimately show ?thesis using k(1) r(2) by blast
qed

theorem kill_leaves_nothing_witness:
  "\<exists>s'. kill_task toyE 2 (DemoInjected 1) toy3 = Some s' \<and> t_state (tasks s' ! 2) = Dead
     \<and> (last_reply (tasks s' ! 1) = Some IPC_ERR_DEAD_PARTNER \<or> last_reply (tasks s' ! 1) = Some IPC_ERR_ENDPOINT_CLOSED)"
proof -
  obtain s' where s: "kill_task toyE 2 (DemoInjected 1) toy3 = Some s'" using toy_kill by blast
  have "blocked_reason (tasks toy3 ! 1) = Some (IpcReply (tid_of 2) 0)"
    by (simp add: toy3_fields tid_of_def TASK2_ID_def new_task_def)
  moreover note kill_leaves_nothing [OF toy23_kinv(2) _ _ s]
  ultimately show ?thesis using s by auto
qed

text \<open>C7: closing an open endpoint wakes exactly the tasks that wait on it (its receiver, its queued senders
  and its reply waiters), each with the error CLOSED as its reply and no pending message; every
  other task is unchanged, the endpoint is closed and empty, and the other endpoints are unchanged.\<close>

theorem close_wakes_waiters:
  assumes "kinv s" "j < 2" "\<not> is_closed (endpoints s ! j)" "s' = close_endpoint_and_rescue_waiters j s"
  shows "(\<forall>k \<in> waiters (endpoints s ! j). t_state (tasks s' ! k) = Ready \<and> blocked_reason (tasks s' ! k) = None
           \<and> pending_send_msg (tasks s' ! k) = None \<and> last_reply (tasks s' ! k) = Some IPC_ERR_ENDPOINT_CLOSED)
    \<and> (\<forall>k. k \<notin> waiters (endpoints s ! j) \<longrightarrow> tasks s' ! k = tasks s ! k)
    \<and> is_closed (endpoints s' ! j) \<and> waiters (endpoints s' ! j) = {}
    \<and> (\<forall>i. i \<noteq> j \<longrightarrow> endpoints s' ! i = endpoints s ! i) \<and> kinv s'"
proof -
  note f = close_freed [OF kinvD(1) [OF assms(1)] assms(2,3)]
  have "j < length (endpoints s)" using coreD(3) [OF kinvD(1) [OF assms(1)]] assms(2) by simp
  then have "endpoints s' ! j = emptied (endpoints s ! j)" "i \<noteq> j \<Longrightarrow> endpoints s' ! i = endpoints s ! i" for i
    using f(2) assms(4) by (simp_all add: upd_endpoint_def)
  moreover have "is_closed (emptied e)" "waiters (emptied e) = {}" for e by (simp_all add: emptied_def waiters_def sq_def rq_def)
  moreover have "tasks s' ! k = (if k \<in> waiters (endpoints s ! j) then rescued IPC_ERR_ENDPOINT_CLOSED (tasks s ! k) else tasks s ! k)" for k
    using freedD(2) [OF f(1)] assms(4) by simp
  ultimately show ?thesis using close_kinv [OF assms(1)] assms(4) by (simp add: rescued_def)
qed

theorem close_wakes_waiters_witness:
  "last_reply (tasks (close_endpoint_and_rescue_waiters 0 toy3) ! 1) = Some IPC_ERR_ENDPOINT_CLOSED"
proof -
  have "1 \<in> waiters (endpoints toy3 ! 0)" "\<not> is_closed (endpoints toy3 ! 0)"
    by (simp_all add: toy3_fields waiters_def rq_def Endpoint_new_def)
  then show ?thesis using close_wakes_waiters [OF toy23_kinv(2) _ _ refl, of 0] by simp
qed

text \<open>C11: an IPC call of a user task on a closed endpoint returns at once with the error CLOSED as the
  caller's reply: it neither blocks nor switches, and changes nothing else.\<close>

theorem closed_endpoint_rejects:
  assumes "kinv s" "current_task s \<noteq> 0" "j < 2" "is_closed (endpoints s ! j)"
  defines "s' \<equiv> upd_task (current_task s) (\<lambda>t. t\<lparr>last_reply := Some IPC_ERR_ENDPOINT_CLOSED\<rparr>) s"
  shows "ipc_recv E j s = Some s' \<and> ipc_send E j m s = Some s' \<and> ipc_reply j m s = Some s' \<and> t_state (tasks s' ! current_task s) = Running"
proof -
  have c: "current_task s < 3" "t_state (tk s (current_task s)) = Running" "num_tasks s = 3" "length (tasks s) = 3"
    using kinvD(4,5) [OF assms(1)] coreD(1,2) [OF kinvD(1) [OF assms(1)]] by auto
  then have "reject_ipc_if_kernel_current j s = (False, s)"
    using assms(2) kernel_task_iff [OF assms(1) c(1)] by (simp add: reject_ipc_if_kernel_current_def)
  moreover have "reject_ipc_if_endpoint_closed j s = (True, s')"
    using assms(3,4) c by (simp add: reject_ipc_if_endpoint_closed_def s'_def MAX_ENDPOINTS_def)
  ultimately show ?thesis
    using assms(3) c by (simp add: ipc_recv_def ipc_send_def ipc_reply_def MAX_ENDPOINTS_def s'_def)
qed

theorem closed_endpoint_rejects_witness:
  "ipc_send toyE 0 7 (close_endpoint_and_rescue_waiters 0 toy1)
   = Some (upd_task 1 (\<lambda>t. t\<lparr>last_reply := Some IPC_ERR_ENDPOINT_CLOSED\<rparr>) (close_endpoint_and_rescue_waiters 0 toy1))"
proof -
  have c: "current_task (close_endpoint_and_rescue_waiters 0 toy1) = 1" "is_closed (endpoints (close_endpoint_and_rescue_waiters 0 toy1) ! 0)"
    by (simp_all add: close_endpoint_and_rescue_waiters_def toy1_fields upd_endpoint_def Endpoint_new_def MAX_ENDPOINTS_def)
  have "1 \<noteq> (0 :: nat)" by simp
  then show ?thesis using closed_endpoint_rejects [OF close_kinv [OF toy1_kinv], of 0 0 toyE 7] c by simp
qed

section \<open>The event log\<close>

text \<open>C15: whatever events the kernel logs, the dump writes exactly the last \<open>EVENT_LOG_CAP\<close> of them, oldest
  first: the ring buffer implements a bounded queue that drops its oldest entries.\<close>

theorem event_log_keeps_recent:
  assumes "log_wf s"
  shows "log_wf (fold push_event evs s)
    \<and> dumped_events (fold push_event evs s) = drop (length (dumped_events s @ evs) - EVENT_LOG_CAP) (dumped_events s @ evs)"
  using event_queue.pushes_entries [OF assms, of evs] by (simp_all add: last_n_def)

theorem event_log_keeps_recent_witness:
  "dumped_events (push_event (TickStarted 1) toy0) = [TickStarted 1]"
proof -
  have "log_wf toy0" "dumped_events toy0 = []" by (simp_all add: log_wf_def toy0_eq dumped_events_def EVENT_LOG_CAP_def List.map_filter_simps)
  then show ?thesis using event_log_keeps_recent [of toy0 "[TickStarted 1]"] by (simp add: EVENT_LOG_CAP_def)
qed

section \<open>Memory\<close>

theorem guarded_access_returns_witness:
  "\<exists>r h'. guarded_user_rw_u64_in_root toyE (PhysFrame 256) (PhysFrame 1) 0x5000 7 toyH = Some (r, h')
    \<and> r = Inl \<lparr>pf_addr = 0x5000, pf_err = 2, pf_rip = 7, pf_rsp = 8, is_user_fault = False\<rparr> \<and> cr3 h' = 0x1000"
proof -
  have f: "frame_start_address (PhysFrame 256) = Some (PhysAddr 0x100000)" "frame_start_address (PhysFrame 1) = Some (PhysAddr 0x1000)"
    by (simp_all add: frame_start_address_def chk_mul_def PAGE_SIZE_def)
  have "recover_label toyE \<noteq> 0" by (simp add: toyE_def)
  from guarded_access_returns [OF f(1) _ f(2) _ this, where p = "0x5000" and v = 7 and h = toyH] show ?thesis
    by (auto simp: rw_outcome_def fault_info_def toyE_def toyH_def)
qed

theorem switch_keeps_kernel_mapped_witness:
  "\<exists>h'. switch_address_space toyE (Some (PhysFrame 256)) toyH = Some h' \<and> cr3 h' = 0x100000
    \<and> keeps_kernel toyE (target_table (PhysAddr 0x100000) toyH) 1 1 toyH"
proof -
  have a: "ALLOW_REAL_CR3_SWITCH toyH" "toy_hw toyH" by (simp_all add: toyH_def toy_hw_def)
  obtain h' where h': "switch_address_space toyE (Some (PhysFrame 256)) toyH = Some h'" using toy_switch(2) [OF a(2), of 256] by auto
  have "frame_start_address (PhysFrame 256) = Some (PhysAddr 0x100000)"
    by (simp add: frame_start_address_def chk_mul_def PAGE_SIZE_def)
  with switch_keeps_kernel_mapped [OF h', of 1 1 1] a(1) h' show ?thesis by (simp add: toyH_def)
qed

lemma page_syscall_indices:
  assumes "kinv s" "i < 3"
  shows "\<not> num_tasks s \<le> i" "address_space_id (tasks s ! i) = i" "as_wf (address_spaces s ! i)"
  using assms coreD(1,6) [OF kinvD(1) [OF assms(1)]] kinvD(2) [OF assms(1)] by (auto simp: ainv_def as_ok_def)

text \<open>C19: a memory system call that asks to map a page already mapped is answered with ALREADY_MAPPED, once the task's demo frame
  is there: the address spaces stay as they are, and if the frame was allocated before, as it is on a second map, the whole
  kernel state is unchanged.  A call to unmap a page that is not mapped is answered with NOT_MAPPED and leaves the state
  unchanged.  The kernel panics in neither case, although the repository's README says that both must panic.\<close>

theorem bad_page_syscalls:
  assumes "kinv s" "i < 3"
  shows "(as_lookup (address_spaces s ! i) page \<noteq> None \<and> get_or_alloc_demo_frame E i s = Some (Some f, s1) \<longrightarrow>
            syscall_page_map E i page flags s = Some (SYSCALL_ERR_ALREADY_MAPPED, s1) \<and> address_spaces s1 = address_spaces s)
    \<and> (as_lookup (address_spaces s ! i) page \<noteq> None \<and> mem_demo_frame s ! i = Some f \<longrightarrow>
            syscall_page_map E i page flags s = Some (SYSCALL_ERR_ALREADY_MAPPED, s))
    \<and> (as_lookup (address_spaces s ! i) page = None \<longrightarrow> syscall_page_unmap E i page s = Some (SYSCALL_ERR_NOT_MAPPED, s))"
proof -
  note x = page_syscall_indices [OF assms]
  have dup: "as_apply (address_spaces s ! i) (Map page f flags) = Inl AlreadyMapped" if "as_lookup (address_spaces s ! i) page \<noteq> None"
    using as_map.insert_dup [OF x(3) that, of "(f, flags)"] by (simp add: as_insert_def)
  have new: "as_apply (address_spaces s ! i) (Unmap page) = Inl NotMapped" if "as_lookup (address_spaces s ! i) page = None"
    using as_map.delete_missing [OF x(3) that] by (simp add: as_delete_def)
  have same: "address_spaces s1 = address_spaces s" if "get_or_alloc_demo_frame E i s = Some (Some f, s1)"
    using that by (auto simp: get_or_alloc_demo_frame_def split: if_splits option.splits bind_splits)
  have map: "syscall_page_map E i page flags s = Some (SYSCALL_ERR_ALREADY_MAPPED, s')"
    if "as_lookup (address_spaces s ! i) page \<noteq> None" "get_or_alloc_demo_frame E i s = Some (Some f, s')" "address_spaces s' = address_spaces s" for s'
    using x that(2,3) dup [OF that(1)] by (simp add: syscall_page_map_def logical_then_arch_def del: as_apply.simps)
  have "get_or_alloc_demo_frame E i s = Some (Some f, s)" if "mem_demo_frame s ! i = Some f"
    using that x(1) by (simp add: get_or_alloc_demo_frame_def)
  moreover have "syscall_page_unmap E i page s = Some (SYSCALL_ERR_NOT_MAPPED, s)" if "as_lookup (address_spaces s ! i) page = None"
    using x new [OF that] by (simp add: syscall_page_unmap_def logical_then_arch_def del: as_apply.simps)
  ultimately show ?thesis using map same by blast
qed

text \<open>On the example machine the demo page lies in the user slot, and task 1's empty address space takes a mapping of it.\<close>

lemma toy_user_addrs:
  "page_start_address user_page = Some (VirtAddr 0x110000)"
  "n < 2 ^ 52 \<Longrightarrow> frame_start_address (PhysFrame n) = Some (PhysAddr (n * 4096))"
  "chk_add USER_SPACE_BASE 0x110000 = Some (USER_SPACE_BASE + 0x110000)" "is_user_space_addr_u64 (USER_SPACE_BASE + 0x110000)"
  by (simp_all add: page_start_address_def frame_start_address_def user_page_def DEMO_VIRT_PAGE_INDEX_USER_def chk_mul_def PAGE_SIZE_def
      chk_add_def is_user_space_addr_u64_def word_le_nat_alt word_less_nat_alt unat_word_ariths)

lemma toyU_map:
  fixes f g
  defines "u \<equiv> new_user\<lparr>root_page_frame := Some (PhysFrame 256)\<rparr>"
  shows "as_wf u" "\<exists>a. as_apply u (Map user_page f g) = Inr a \<and> kind a = User \<and> root_page_frame a = Some (PhysFrame 256)"
proof -
  have wf: "as_wf u" "as_lookup u user_page = None" "\<not> as_full u"
    by (simp_all add: u_def as_wf_def as_lookup_def each_mapping_def new_user_def as_full_def mapping_count_def MAX_MAPPINGS_def)
  then show "as_wf u" by blast
  obtain a where a: "as_apply u (Map user_page f g) = Inr a" using as_map_ok [OF wf] by blast
  then show "\<exists>a. as_apply u (Map user_page f g) = Inr a \<and> kind a = User \<and> root_page_frame a = Some (PhysFrame 256)"
    using as_apply_wf [OF wf(1) a] by (auto simp: u_def new_user_def)
qed

text \<open>A first map of the demo page succeeds.\<close>

lemma toyS_first_map:
  "\<exists>s'. syscall_page_map toyE 1 user_page user_flags toyS = Some (SYSCALL_OK, s') \<and> kinv s'
    \<and> as_lookup (address_spaces s' ! 1) user_page \<noteq> None \<and> mem_demo_frame s' ! 1 = Some (PhysFrame 9)"
proof -
  let ?u = "new_user\<lparr>root_page_frame := Some (PhysFrame 256)\<rparr>" and ?m = "Map user_page (PhysFrame 9) user_flags"
  obtain a where a: "as_apply ?u ?m = Inr a" "kind a = User" "root_page_frame a = Some (PhysFrame 256)" using toyU_map(2) by blast
  have x: "x_contains (to_x86_flags toyE user_flags) (X_USER_ACCESSIBLE toyE)"
    by (simp add: x_contains_def to_x86_flags_def flags_contain_def user_flags_def PRESENT_def WRITABLE_def USER_def NO_EXEC_def toyE_def)
  have "\<exists>pm h. arch_apply toyE 1 ?m (upd_aspace 1 a toyS) = Some (SYSCALL_OK, (upd_aspace 1 a toyS)\<lparr>phys_mem := pm, hw := h\<rparr>)"
    using a(2,3) x toy_user_addrs(1,3,4) toy_user_addrs(2) [of 9] toy_user_addrs(2) [of 256]
    by (simp add: arch_apply_def upd_aspace_def toyS_def toy0_eq apply_mem_action_in_root_def)
       (simp add: toyE_def enforce_user_mapping_policy_def Let_def VirtAddr_new_def PhysAddr_new_def mapper_for_def
        init_offset_page_table_for_root_def phys_to_virt_def chk_add_def toyH_def)
  then obtain pm h where r: "arch_apply toyE 1 ?m (upd_aspace 1 a toyS) = Some (SYSCALL_OK, (upd_aspace 1 a toyS)\<lparr>phys_mem := pm, hw := h\<rparr>)" by blast
  let ?s = "(upd_aspace 1 a toyS)\<lparr>phys_mem := pm, hw := h\<rparr>"
  have u: "address_spaces toyS ! 1 = ?u" "mem_demo_frame toyS ! 1 = Some (PhysFrame 9)" "t_state (tasks toyS ! 1) \<noteq> Dead" "length (address_spaces toyS) = 3"
    by (simp_all add: toyS_def toy0_eq new_task_def)
  have l: "logical_then_arch toyE 1 ?m toyS = Some (SYSCALL_OK, ?s)" using u(1) a(1) r by (simp add: logical_then_arch_def del: as_apply.simps)
  have "syscall_page_map toyE 1 user_page user_flags toyS = Some (SYSCALL_OK, ?s)"
    using l u(2) page_syscall_indices [OF toyS_kinv, of 1] by (simp add: syscall_page_map_def get_or_alloc_demo_frame_def)
  moreover have "kinv ?s"
    using post_safeD [OF logical_then_arch_post [OF toyS_kinv _ u(3)] l] by (simp add: act_ok_def same_tasks_def)
  moreover have "as_lookup (address_spaces ?s ! 1) user_page \<noteq> None" using as_map_result(2) [OF toyU_map(1) a(1)] u(4) by (simp add: upd_aspace_def)
  moreover have "mem_demo_frame ?s ! 1 = Some (PhysFrame 9)" using u(2) by (simp add: upd_aspace_def)
  ultimately show ?thesis by blast
qed

theorem bad_page_syscalls_witness:
  "\<exists>s'. syscall_page_map toyE 1 user_page user_flags toyS = Some (SYSCALL_OK, s')
    \<and> syscall_page_map toyE 1 user_page user_flags s' = Some (SYSCALL_ERR_ALREADY_MAPPED, s')
    \<and> syscall_page_unmap toyE 1 user_page toyS = Some (SYSCALL_ERR_NOT_MAPPED, toyS)"
proof -
  have n: "as_lookup (address_spaces toyS ! 1) user_page = None" by (simp add: toyS_def toy0_eq as_lookup_def each_mapping_def new_user_def)
  obtain s' where s': "syscall_page_map toyE 1 user_page user_flags toyS = Some (SYSCALL_OK, s')" "kinv s'"
      "as_lookup (address_spaces s' ! 1) user_page \<noteq> None" "mem_demo_frame s' ! 1 = Some (PhysFrame 9)" using toyS_first_map by blast
  have "(1 :: usize) < 3" by simp
  note b = bad_page_syscalls [OF s'(2) this, of user_page toyE "PhysFrame 9" _ user_flags] bad_page_syscalls [OF toyS_kinv this, of user_page toyE]
  show ?thesis using b s' n by blast
qed

text \<open>C20: when the page tables refuse a mapping the address space already accepted, the system call reports
  ARCH_FAILED but the logical mapping stays: the address space then maps a page its page table does not.\<close>

theorem failed_map_keeps_logical_mapping:
  assumes "kinv s" "i < 3" "mem_demo_frame s ! i = Some f" "as_apply (address_spaces s ! i) (Map page f flags) = Inr a"
    "arch_apply E i (Map page f flags) (upd_aspace i a s) = Some (SYSCALL_ERR_ARCH_FAILED, s')"
  shows "syscall_page_map E i page flags s = Some (SYSCALL_ERR_ARCH_FAILED, s')
    \<and> as_lookup (address_spaces s' ! i) page = Some (f, flags)"
proof -
  note x = page_syscall_indices [OF assms(1,2)]
  have "length (address_spaces s) = 3" using kinvD(2) [OF assms(1)] by (simp add: ainv_def)
  then have "address_spaces s' ! i = a"
    using assms(2,5) by (auto simp: arch_apply_def upd_aspace_def split: AddressSpaceKind.splits option.splits bind_splits)
  moreover have "as_lookup a page = Some (f, flags)" using as_map_result(2) [OF x(3) assms(4)] by simp
  ultimately show ?thesis
    using x assms(3-5) by (simp add: syscall_page_map_def get_or_alloc_demo_frame_def logical_then_arch_def del: as_apply.simps)
qed

theorem failed_map_keeps_logical_mapping_witness:
  "\<exists>s'. syscall_page_map toyF 1 user_page user_flags toyS = Some (SYSCALL_ERR_ARCH_FAILED, s')
    \<and> as_lookup (address_spaces s' ! 1) user_page = Some (PhysFrame 9, user_flags)"
proof -
  let ?u = "new_user\<lparr>root_page_frame := Some (PhysFrame 256)\<rparr>"
  obtain a where a: "as_apply ?u (Map user_page (PhysFrame 9) user_flags) = Inr a" "kind a = User" "root_page_frame a = Some (PhysFrame 256)"
    using toyU_map(2) by blast
  have u: "address_spaces toyS ! 1 = ?u" "mem_demo_frame toyS ! 1 = Some (PhysFrame 9)" by (simp_all add: toyS_def toy0_eq)
  have x: "x_contains (to_x86_flags toyF user_flags) (X_USER_ACCESSIBLE toyF)"
    by (simp add: x_contains_def to_x86_flags_def flags_contain_def user_flags_def PRESENT_def WRITABLE_def USER_def NO_EXEC_def toyF_def toyE_def)
  have "\<exists>s'. arch_apply toyF 1 (Map user_page (PhysFrame 9) user_flags) (upd_aspace 1 a toyS) = Some (SYSCALL_ERR_ARCH_FAILED, s')"
    using a(2,3) x toy_user_addrs(1,3,4) toy_user_addrs(2) [of 9] toy_user_addrs(2) [of 256]
    by (simp add: arch_apply_def upd_aspace_def toyS_def toy0_eq apply_mem_action_in_root_def)
       (simp add: toyF_def toyE_def enforce_user_mapping_policy_def Let_def VirtAddr_new_def PhysAddr_new_def mapper_for_def
        init_offset_page_table_for_root_def phys_to_virt_def chk_add_def toyH_def)
  then obtain s' where s': "arch_apply toyF 1 (Map user_page (PhysFrame 9) user_flags) (upd_aspace 1 a toyS) = Some (SYSCALL_ERR_ARCH_FAILED, s')"
    by blast
  have "(1 :: usize) < 3" by simp
  from failed_map_keeps_logical_mapping [OF toyS_kinv this u(2) _ s'] a(1) u(1) show ?thesis by metis
qed

theorem user_table_isolated_witness:
  "\<exists>h'. init_user_pml4_from_current toyT (PhysFrame 256) toyTH = Some h'
    \<and> pml4_get toyT (mem h') 0x18000100000 300 = 3 \<and> pml4_get toyT (mem h') 0x18000100000 3 = 3
    \<and> pml4_get toyT (mem h') 0x18000100000 0 = 0 \<and> pml4_get toyT (mem h') 0x18000100000 USER_PML4_INDEX = 0
    \<and> pml4_get toyT (mem h') 0x18000001000 0 = 3"
proof -
  obtain h' where h: "init_user_pml4_from_current toyT (PhysFrame 256) toyTH = Some h'" using toyT_init by blast
  have f: "frame_start_address (PhysFrame 256) = Some (PhysAddr 0x100000)"
    by (simp add: frame_start_address_def chk_mul_def PAGE_SIZE_def)
  have e: "0x18000000000 = PHYSICAL_MEMORY_OFFSET toyTH" "0x18000001000 = 0x18000000000 + cr3 toyTH"
      "0x18000100000 = 0x18000000000 + pa_u64 (PhysAddr 0x100000)"
    by (simp_all add: toyTH_def)
  have ne: "(0x18000001000 :: u64) \<noteq> 0x18000100000" by simp
  note t = user_table_isolated [OF toyT_inactive toyT_window(1) ne f h e]
  have i: "(300 :: usize) < 512" "(3 :: usize) < 512" "(0 :: usize) < 512" "USER_PML4_INDEX < 512" by (simp_all add: USER_PML4_INDEX_def)
  have s: "kernel_slot toyTH 300" "kernel_slot toyTH 3" "\<not> kernel_slot toyTH 0"
    by (simp_all add: kernel_slot_def toyTH_def pml4_index_def PHYSMAP_PML4_COPY_COUNT_def)
  have g: "pml4_get toyT (mem toyTH) 0x18000001000 300 = 3" "pml4_get toyT (mem toyTH) 0x18000001000 3 = 3"
      "pml4_get toyT (mem toyTH) 0x18000001000 0 = 3" "\<not> pte_is_unused toyT 3" "pte_unused toyT = 0"
    by (simp_all add: toyT_def toyTH_def unalias_def)
  have r: "pml4_get toyT (mem h') 0x18000100000 300 = 3" "pml4_get toyT (mem h') 0x18000100000 3 = 3"
      "pml4_get toyT (mem h') 0x18000100000 0 = 0" "pml4_get toyT (mem h') 0x18000100000 USER_PML4_INDEX = 0"
    using t i s g by simp_all
  have "pml4_get toyT (mem h') 0x18000001000 0 = 3" using t toyT_window(1) ne i(3) g(3) by simp
  then show ?thesis using h r by (intro exI [of _ h'] conjI)
qed

section \<open>Descriptor tables\<close>

theorem interrupt_tables_high_witness:
  "\<exists>s' g' idt. reload_idt_high_alias toyE toy_addrs list_gdt (\<lparr>IDT_LOW = None, IDT_HIGH = None, idtr = None\<rparr>,
      \<lparr>INIT_DONE = False, GDT = None, TSS = None, SELECTORS = None, gdtr = 0, cs = 0, ds = 0, es = 0, ss = 0, tr = 0\<rparr>) = Some (s', g')
    \<and> IDT_HIGH s' = Some idt \<and> map_option privilege (vector_0x80 idt) = Some Ring3"
proof -
  obtain s' g' where r: "reload_idt_high_alias toyE toy_addrs list_gdt (\<lparr>IDT_LOW = None, IDT_HIGH = None, idtr = None\<rparr>,
      \<lparr>INIT_DONE = False, GDT = None, TSS = None, SELECTORS = None, gdtr = 0, cs = 0, ds = 0, es = 0, ss = 0, tr = 0\<rparr>) = Some (s', g')"
    using toy_reload [of toyE] by auto
  from interrupt_tables_high [OF r] obtain idt i80 where "IDT_HIGH s' = Some idt" "vector_0x80 idt = Some i80" "privilege i80 = Ring3" by auto
  then show ?thesis using r by auto
qed

end
